theory Spec2Isabelle
  imports Main "HOL-Library.Word"
begin

section \<open>Errors of the Kubernetes API machinery\<close>

text \<open>
  A Go \<^verbatim>\<open>error\<close> is a value. Three shapes occur in the repository: a status error
  returned by an API server (it carries a reason and a message), a plain error made by
  \<^verbatim>\<open>fmt.Errorf\<close> without \<^verbatim>\<open>%w\<close>, and an error wrapping another one through
  \<^verbatim>\<open>fmt.Errorf("...: %w", err)\<close>.
\<close>

datatype StatusReason =
    StatusReasonUnknown
  | StatusReasonUnauthorized
  | StatusReasonForbidden
  | StatusReasonNotFound
  | StatusReasonAlreadyExists
  | StatusReasonConflict
  | StatusReasonInvalid
  | StatusReasonTimeout
  | StatusReasonServiceUnavailable

datatype go_error =
    StatusError StatusReason string
  | ErrorString string
  | WrapError string go_error

fun Error :: "go_error \<Rightarrow> string" where
  "Error (StatusError r m) = m"
| "Error (ErrorString s) = s"
| "Error (WrapError p e) = p @ Error e"

text \<open>
  \<^verbatim>\<open>apierrors.ReasonForError\<close> looks through the chain of wrapped errors
  (\<^verbatim>\<open>errors.As\<close>) for a status error and returns its reason.
\<close>

fun ReasonForError :: "go_error \<Rightarrow> StatusReason" where
  "ReasonForError (StatusError r m) = r"
| "ReasonForError (ErrorString s) = StatusReasonUnknown"
| "ReasonForError (WrapError p e) = ReasonForError e"

definition IsNotFound :: "go_error \<Rightarrow> bool" where
  "IsNotFound err = (ReasonForError err = StatusReasonNotFound)"

definition IsAlreadyExists :: "go_error \<Rightarrow> bool" where
  "IsAlreadyExists err = (ReasonForError err = StatusReasonAlreadyExists)"

section \<open>Strings and formatting\<close>

text \<open>\<^verbatim>\<open>strings.HasPrefix\<close> and \<^verbatim>\<open>strings.Contains\<close> with a one-byte needle.\<close>

definition HasPrefix :: "string \<Rightarrow> string \<Rightarrow> bool" where
  "HasPrefix s p = (length p \<le> length s \<and> take (length p) s = p)"

definition ContainsChar :: "string \<Rightarrow> char \<Rightarrow> bool" where
  "ContainsChar s c = (c \<in> set s)"

text \<open>
  The verb \<^verbatim>\<open>%d\<close> of \<^verbatim>\<open>fmt.Sprintf\<close> on an \<^verbatim>\<open>int32\<close>: the decimal digits
  of the signed value, \<open>int_dec\<close> being called on a value that is not negative.
\<close>

function int_dec :: "int \<Rightarrow> string" where
  "int_dec n = (if n < 10 then [char_of (48 + n)] else int_dec (n div 10) @ [char_of (48 + n mod 10)])"
  by pat_completeness auto
termination
  by (relation "measure nat") auto

declare int_dec.simps [simp del]

definition FormatInt32 :: "32 word \<Rightarrow> string" where
  "FormatInt32 x = (if sint x < 0 then CHR ''-'' # int_dec (- sint x) else int_dec (sint x))"

text \<open>\<^verbatim>\<open>base64.StdEncoding.EncodeToString\<close>: three bytes give four letters, padded with \<^verbatim>\<open>=\<close>.\<close>

definition encodeStd :: "string" where
  "encodeStd = ''ABCDEFGHIJKLMNOPQRSTUVWXYZabcdefghijklmnopqrstuvwxyz0123456789+/''"

definition b64 :: "nat \<Rightarrow> char" where
  "b64 n = encodeStd ! (n mod 64)"

fun encode_bytes :: "nat list \<Rightarrow> string" where
  "encode_bytes [] = []"
| "encode_bytes [a] = [b64 (a div 4), b64 ((a mod 4) * 16), CHR ''='', CHR ''='']"
| "encode_bytes [a, b] =
     [b64 (a div 4), b64 ((a mod 4) * 16 + b div 16), b64 ((b mod 16) * 4), CHR ''='']"
| "encode_bytes (a # b # c # rest) =
     [b64 (a div 4), b64 ((a mod 4) * 16 + b div 16), b64 ((b mod 16) * 4 + c div 64), b64 (c mod 64)]
       @ encode_bytes rest"

definition EncodeToString :: "string \<Rightarrow> string" where
  "EncodeToString s = encode_bytes (map of_char s)"

section \<open>Resources of the Harvester platform\<close>

record PersistentVolumeClaim =
  pvc_Name :: string
  pvc_Namespace :: string
  pvc_Annotations :: "(string \<times> string) list"
  pvc_Labels :: "(string \<times> string) list"
  pvc_AccessModes :: "string list"
  pvc_VolumeMode :: string
  pvc_StorageClassName :: string
  pvc_Storage :: string

text \<open>
  The unstructured VirtualMachine object that \<^verbatim>\<open>buildVM\<close> constructs. A volume is
  either the claim of the root disk or the cloud-init seed with its base64 payloads; the
  key \<^verbatim>\<open>networkDataBase64\<close> may be absent.
\<close>

datatype volume =
    ClaimVolume string string
  | CloudInitNoCloud string string "string option"

record vm_disk =
  disk_name :: string
  disk_bootOrder :: "int option"
  disk_bus :: string

record VirtualMachine =
  vm_Name :: string
  vm_Namespace :: string
  vm_Labels :: "(string \<times> string) list"
  vm_RunStrategyAnnotation :: string
  vm_runStrategy :: string
  vm_templateLabels :: "(string \<times> string) list"
  vm_cores :: int
  vm_sockets :: int
  vm_threads :: int
  vm_memoryGuest :: string
  vm_limitsCPU :: string
  vm_limitsMemory :: string
  vm_requestsCPU :: string
  vm_requestsMemory :: string
  vm_disks :: "vm_disk list"
  vm_interfaces :: "string list"
  vm_networks :: "(string \<times> string) list"
  vm_volumes :: "volume list"

text \<open>
  What the platform keeps for a VirtualMachine: the object as created, the UID it
  assigned, and the status fields \<^verbatim>\<open>status.ready\<close> (may be absent) and
  \<^verbatim>\<open>status.printableStatus\<close>.
\<close>

record vm_resource =
  vm_object :: VirtualMachine
  vm_UID :: string
  vm_statusReady :: "bool option"
  vm_printableStatus :: string

text \<open>
  An entry of \<^verbatim>\<open>status.interfaces\<close> of a VirtualMachineInstance: a map with the
  strings \<^verbatim>\<open>ipAddress\<close> and \<^verbatim>\<open>mac\<close> (a missing key reads as the empty
  string), or a value that is not a map.
\<close>

datatype iface_entry =
    NotAMap
  | IfaceMap string string

record vmi_resource =
  vmi_Name :: string
  vmi_interfaces :: "iface_entry list option"

section \<open>The external world of one reconciliation\<close>

datatype call =
    PVC_Create string
  | PVC_Delete string
  | VM_Create string
  | VM_Delete string
  | VM_Get string
  | VMI_Get string
  | MR_Get
  | PC_Get string string
  | Secret_Get string string
  | MR_Update
  | MR_StatusUpdate

section \<open>The records of the Butler API\<close>

text \<open>
  The types \<^verbatim>\<open>MachineRequest\<close>, \<^verbatim>\<open>ProviderConfig\<close> and
  \<^verbatim>\<open>HarvesterProviderConfig\<close> are declared in the module \<^verbatim>\<open>butler-api\<close>; the
  records below hold the fields that the controller and the client read or write. A
  phase is a Go string, so a record can carry a phase the controller does not know.
\<close>

datatype ConditionStatus = ConditionTrue | ConditionFalse | ConditionUnknown

record Condition =
  cond_Type :: string
  cond_Status :: ConditionStatus
  cond_Reason :: string
  cond_Message :: string
  cond_ObservedGeneration :: int
  cond_LastTransitionTime :: nat

record MachineRequestSpec =
  ProviderRef_Name :: string
  ProviderRef_Namespace :: string
  MachineName :: string
  spec_CPU :: "32 word"
  spec_MemoryMB :: "32 word"
  spec_DiskGB :: "32 word"
  spec_Image :: string
  spec_UserData :: string
  spec_NetworkData :: string
  spec_Labels :: "(string \<times> string) list"

record MachineRequestStatus =
  Phase :: string
  ProviderID :: string
  IPAddress :: string
  MACAddress :: string
  FailureReason :: string
  FailureMessage :: string
  Conditions :: "Condition list"
  LastUpdated :: "nat option"
  ObservedGeneration :: int

record MachineRequest =
  mr_Name :: string
  mr_Namespace :: string
  Generation :: int
  DeletionTimestamp :: "nat option"
  Finalizers :: "string list"
  Spec :: MachineRequestSpec
  Status :: MachineRequestStatus

record HarvesterProviderConfig =
  cfg_Namespace :: string
  cfg_ImageName :: string
  cfg_NetworkName :: string

record ProviderConfig =
  pc_Name :: string
  pc_Namespace :: string
  pc_Provider :: string
  CredentialsRef_Name :: string
  CredentialsRef_Namespace :: string
  CredentialsRef_Key :: string
  pc_Harvester :: "HarvesterProviderConfig option"

text \<open>
  Modelled from the spec: the phase constants of \<^verbatim>\<open>butler-api\<close> are not under
  \<^verbatim>\<open>src/\<close>; the status schema of the specification names the five phases.
\<close>

definition MachinePhasePending :: string where "MachinePhasePending = ''Pending''"
definition MachinePhaseCreating :: string where "MachinePhaseCreating = ''Creating''"
definition MachinePhaseRunning :: string where "MachinePhaseRunning = ''Running''"
definition MachinePhaseFailed :: string where "MachinePhaseFailed = ''Failed''"
definition MachinePhaseDeleting :: string where "MachinePhaseDeleting = ''Deleting''"

text \<open>
  Modelled from the spec: the condition types \<^verbatim>\<open>Ready\<close> and \<^verbatim>\<open>Progressing\<close>
  are the two the specification recognises; the reason constants and the provider type
  are constants of \<^verbatim>\<open>butler-api\<close> whose text no theorem below depends on.
\<close>

definition ConditionTypeReady :: string where "ConditionTypeReady = ''Ready''"
definition ConditionTypeProgressing :: string where "ConditionTypeProgressing = ''Progressing''"
definition ReasonProviderError :: string where "ReasonProviderError = ''ProviderError''"
definition ReasonCreating :: string where "ReasonCreating = ''Creating''"
definition ReasonRunning :: string where "ReasonRunning = ''Running''"
definition ReasonWaitingForIP :: string where "ReasonWaitingForIP = ''WaitingForIP''"
definition ProviderTypeHarvester :: string where "ProviderTypeHarvester = ''harvester''"

text \<open>
  Modelled from the spec: \<^verbatim>\<open>MachineRequest.SetFailure\<close> is a method of
  \<^verbatim>\<open>butler-api\<close>, not under \<^verbatim>\<open>src/\<close>. The specification has it mark the
  record Failed with a diagnostic reason: the phase becomes Failed and the failure
  reason and message pair is stored. The condition entries are written by the controller
  itself through \<^verbatim>\<open>meta.SetStatusCondition\<close> (see \<^verbatim>\<open>updateStatusError\<close>).
\<close>

definition SetFailure :: "string \<Rightarrow> string \<Rightarrow> MachineRequest \<Rightarrow> MachineRequest" where
  "SetFailure reason message mr =
     mr\<lparr>Status := (Status mr)\<lparr>Phase := MachinePhaseFailed,
                                FailureReason := reason,
                                FailureMessage := message\<rparr>\<rparr>"

section \<open>Library helpers on the record\<close>

text \<open>\<^verbatim>\<open>controllerutil\<close>: the finalizers of an object.\<close>

definition ContainsFinalizer :: "MachineRequest \<Rightarrow> string \<Rightarrow> bool" where
  "ContainsFinalizer mr f = (f \<in> set (Finalizers mr))"

definition AddFinalizer :: "MachineRequest \<Rightarrow> string \<Rightarrow> MachineRequest" where
  "AddFinalizer mr f =
     (if f \<in> set (Finalizers mr) then mr else mr\<lparr>Finalizers := Finalizers mr @ [f]\<rparr>)"

definition RemoveFinalizer :: "MachineRequest \<Rightarrow> string \<Rightarrow> MachineRequest" where
  "RemoveFinalizer mr f = mr\<lparr>Finalizers := filter (\<lambda>g. g \<noteq> f) (Finalizers mr)\<rparr>"

text \<open>
  \<^verbatim>\<open>meta.FindStatusCondition\<close> and \<^verbatim>\<open>meta.SetStatusCondition\<close>: a condition of a
  new type is appended; an existing one keeps its place and takes the new status, reason,
  message and generation, and a new transition time when the status changed.
\<close>

fun FindStatusCondition :: "Condition list \<Rightarrow> string \<Rightarrow> Condition option" where
  "FindStatusCondition [] t = None"
| "FindStatusCondition (c # cs) t = (if cond_Type c = t then Some c else FindStatusCondition cs t)"

fun replace_condition :: "Condition list \<Rightarrow> nat \<Rightarrow> Condition \<Rightarrow> Condition list" where
  "replace_condition [] tm n = []"
| "replace_condition (c # cs) tm n =
     (if cond_Type c = cond_Type n
      then c\<lparr>cond_Status := cond_Status n,
              cond_Reason := cond_Reason n,
              cond_Message := cond_Message n,
              cond_ObservedGeneration := cond_ObservedGeneration n,
              cond_LastTransitionTime :=
                (if cond_Status c \<noteq> cond_Status n
                 then (if cond_LastTransitionTime n \<noteq> 0 then cond_LastTransitionTime n else tm)
                 else cond_LastTransitionTime c)\<rparr> # cs
      else c # replace_condition cs tm n)"

definition SetStatusCondition :: "Condition list \<Rightarrow> nat \<Rightarrow> Condition \<Rightarrow> Condition list" where
  "SetStatusCondition conditions tm newCondition =
     (case FindStatusCondition conditions (cond_Type newCondition) of
        None \<Rightarrow>
          conditions @
            [if cond_LastTransitionTime newCondition = 0
             then newCondition\<lparr>cond_LastTransitionTime := tm\<rparr> else newCondition]
      | Some existing \<Rightarrow> replace_condition conditions tm newCondition)"

definition IsStatusConditionTrue :: "Condition list \<Rightarrow> string \<Rightarrow> bool" where
  "IsStatusConditionTrue conditions t =
     (case FindStatusCondition conditions t of None \<Rightarrow> False | Some c \<Rightarrow> cond_Status c = ConditionTrue)"

definition IsStatusConditionFalse :: "Condition list \<Rightarrow> string \<Rightarrow> bool" where
  "IsStatusConditionFalse conditions t =
     (case FindStatusCondition conditions t of None \<Rightarrow> False | Some c \<Rightarrow> cond_Status c = ConditionFalse)"

section \<open>The world: platform, record store, faults and trace\<close>

text \<open>
  One value holds everything outside the process: the claims, machines and instances of
  the platform namespace the client talks to, the stored machine request, the provider
  configurations and secrets, and the clock. Every round trip to the platform or to the
  record store appends a \<^typ>\<open>call\<close> to \<open>trace\<close> and consumes one entry of
  \<open>faults\<close>: \<open>Some err\<close> makes that call fail with \<open>err\<close> and change nothing,
  \<open>None\<close> (or an exhausted schedule) lets it act on the state.
\<close>

record world =
  pvcs :: "PersistentVolumeClaim list"
  vms :: "vm_resource list"
  vmis :: "vmi_resource list"
  fresh_uid :: string
  faults :: "go_error option list"
  trace :: "call list"
  stored :: "MachineRequest option"
  provider_configs :: "string \<times> string \<rightharpoonup> ProviderConfig"
  secrets :: "string \<times> string \<rightharpoonup> (string \<rightharpoonup> string)"
  kubeconfig_error :: "string \<Rightarrow> go_error option"
  now :: nat
  events :: "(string \<times> string \<times> string) list"

definition issue :: "call \<Rightarrow> world \<Rightarrow> go_error option \<times> world" where
  "issue c w =
     (case faults w of
        [] \<Rightarrow> (None, w\<lparr>trace := trace w @ [c]\<rparr>)
      | f # fs \<Rightarrow> (f, w\<lparr>faults := fs, trace := trace w @ [c]\<rparr>))"

definition pvc_exists :: "world \<Rightarrow> string \<Rightarrow> bool" where
  "pvc_exists w name = (name \<in> set (map pvc_Name (pvcs w)))"

definition find_vm :: "world \<Rightarrow> string \<Rightarrow> vm_resource option" where
  "find_vm w name = find (\<lambda>v. vm_Name (vm_object v) = name) (vms w)"

definition find_vmi :: "world \<Rightarrow> string \<Rightarrow> vmi_resource option" where
  "find_vmi w name = find (\<lambda>v. vmi_Name v = name) (vmis w)"

definition PersistentVolumeClaims_Create :: "PersistentVolumeClaim \<Rightarrow> world \<Rightarrow> go_error option \<times> world" where
  "PersistentVolumeClaims_Create pvc w =
     (case issue (PVC_Create (pvc_Name pvc)) w of
        (Some err, w1) \<Rightarrow> (Some err, w1)
      | (None, w1) \<Rightarrow>
          if pvc_exists w1 (pvc_Name pvc)
          then (Some (StatusError StatusReasonAlreadyExists ''persistentvolumeclaims already exists''), w1)
          else (None, w1\<lparr>pvcs := pvcs w1 @ [pvc]\<rparr>))"

definition PersistentVolumeClaims_Delete :: "string \<Rightarrow> world \<Rightarrow> go_error option \<times> world" where
  "PersistentVolumeClaims_Delete name w =
     (case issue (PVC_Delete name) w of
        (Some err, w1) \<Rightarrow> (Some err, w1)
      | (None, w1) \<Rightarrow>
          if pvc_exists w1 name
          then (None, w1\<lparr>pvcs := filter (\<lambda>p. pvc_Name p \<noteq> name) (pvcs w1)\<rparr>)
          else (Some (StatusError StatusReasonNotFound ''persistentvolumeclaims not found''), w1))"

definition VirtualMachines_Create :: "VirtualMachine \<Rightarrow> world \<Rightarrow> (go_error + vm_resource) \<times> world" where
  "VirtualMachines_Create vm w =
     (case issue (VM_Create (vm_Name vm)) w of
        (Some err, w1) \<Rightarrow> (Inl err, w1)
      | (None, w1) \<Rightarrow>
          (case find_vm w1 (vm_Name vm) of
             Some existing \<Rightarrow>
               (Inl (StatusError StatusReasonAlreadyExists ''virtualmachines already exists''), w1)
           | None \<Rightarrow>
               let created = \<lparr>vm_object = vm, vm_UID = fresh_uid w1,
                              vm_statusReady = None, vm_printableStatus = ''''\<rparr>
               in (Inr created, w1\<lparr>vms := vms w1 @ [created]\<rparr>)))"

definition VirtualMachines_Delete :: "string \<Rightarrow> world \<Rightarrow> go_error option \<times> world" where
  "VirtualMachines_Delete name w =
     (case issue (VM_Delete name) w of
        (Some err, w1) \<Rightarrow> (Some err, w1)
      | (None, w1) \<Rightarrow>
          (case find_vm w1 name of
             Some existing \<Rightarrow>
               (None, w1\<lparr>vms := filter (\<lambda>v. vm_Name (vm_object v) \<noteq> name) (vms w1)\<rparr>)
           | None \<Rightarrow> (Some (StatusError StatusReasonNotFound ''virtualmachines not found''), w1)))"

definition VirtualMachines_Get :: "string \<Rightarrow> world \<Rightarrow> (go_error + vm_resource) \<times> world" where
  "VirtualMachines_Get name w =
     (case issue (VM_Get name) w of
        (Some err, w1) \<Rightarrow> (Inl err, w1)
      | (None, w1) \<Rightarrow>
          (case find_vm w1 name of
             Some vm \<Rightarrow> (Inr vm, w1)
           | None \<Rightarrow> (Inl (StatusError StatusReasonNotFound ''virtualmachines not found''), w1)))"

definition VirtualMachineInstances_Get :: "string \<Rightarrow> world \<Rightarrow> (go_error + vmi_resource) \<times> world" where
  "VirtualMachineInstances_Get name w =
     (case issue (VMI_Get name) w of
        (Some err, w1) \<Rightarrow> (Inl err, w1)
      | (None, w1) \<Rightarrow>
          (case find_vmi w1 name of
             Some vmi \<Rightarrow> (Inr vmi, w1)
           | None \<Rightarrow> (Inl (StatusError StatusReasonNotFound ''virtualmachineinstances not found''), w1)))"

section \<open>The Harvester client (internal/harvester/client.go)\<close>

record Client =
  namespace :: string
  config :: HarvesterProviderConfig

text \<open>
  \<^verbatim>\<open>NewClient\<close>: the three constructions from the kubeconfig bytes are library calls;
  \<open>kubeconfig_error\<close> of the world says whether they fail on these bytes. An empty
  namespace of the configuration defaults to \<^verbatim>\<open>default\<close>.
\<close>

definition NewClient :: "string \<Rightarrow> HarvesterProviderConfig \<Rightarrow> world \<Rightarrow> go_error + Client" where
  "NewClient kubeconfigData cfg w =
     (case kubeconfig_error w kubeconfigData of
        Some err \<Rightarrow> Inl err
      | None \<Rightarrow>
          Inr \<lparr>namespace = (if cfg_Namespace cfg = '''' then ''default'' else cfg_Namespace cfg),
               config = cfg\<rparr>)"

record VMCreateOptions =
  Name :: string
  CPU :: "32 word"
  MemoryMB :: "32 word"
  DiskGB :: "32 word"
  ImageName :: string
  NetworkName :: string
  UserData :: string
  NetworkData :: string
  Labels :: "(string \<times> string) list"

text \<open>\<^verbatim>\<open>parseName\<close>: the text after the first slash, or the whole reference.\<close>

fun after_slash :: "string \<Rightarrow> string option" where
  "after_slash [] = None"
| "after_slash (ch # rest) = (if ch = CHR ''/'' then Some rest else after_slash rest)"

definition parseName :: "string \<Rightarrow> string" where
  "parseName ref = (case after_slash ref of Some rest \<Rightarrow> rest | None \<Rightarrow> ref)"

text \<open>\<^verbatim>\<open>isUsableIP\<close>: no colon, and not the prefix \<^verbatim>\<open>169.254.\<close>.\<close>

definition isUsableIP :: "string \<Rightarrow> bool" where
  "isUsableIP ip =
     (if ContainsChar ip CHR '':'' then False
      else if HasPrefix ip ''169.254.'' then False
      else True)"

definition createImagePVC :: "Client \<Rightarrow> string \<Rightarrow> string \<Rightarrow> 32 word \<Rightarrow> world \<Rightarrow> go_error option \<times> world" where
  "createImagePVC c name imageName sizeGB w =
     (let imageID = imageName;
          storageClassName = ''longhorn-'' @ parseName imageName;
          pvc = \<lparr>pvc_Name = name,
                 pvc_Namespace = namespace c,
                 pvc_Annotations = [(''harvesterhci.io/imageId'', imageID)],
                 pvc_Labels = [(''butler.butlerlabs.dev/managed-by'', ''butler-provider-harvester'')],
                 pvc_AccessModes = [''ReadWriteMany''],
                 pvc_VolumeMode = ''Block'',
                 pvc_StorageClassName = storageClassName,
                 pvc_Storage = FormatInt32 sizeGB @ ''Gi''\<rparr>
      in PersistentVolumeClaims_Create pvc w)"

text \<open>
  A Go map of labels is kept as an association list with distinct keys; \<^verbatim>\<open>labels[k] = v\<close>
  replaces the value of a key that is present and adds the key otherwise.
\<close>

fun set_label :: "string \<Rightarrow> string \<Rightarrow> (string \<times> string) list \<Rightarrow> (string \<times> string) list" where
  "set_label k v [] = [(k, v)]"
| "set_label k v ((k', v') # rest) = (if k' = k then (k, v) # rest else (k', v') # set_label k v rest)"

definition buildVM :: "Client \<Rightarrow> VMCreateOptions \<Rightarrow> string \<Rightarrow> string \<Rightarrow> VirtualMachine" where
  "buildVM c opts pvcName networkName =
     (let labels = fold (\<lambda>(k, v). set_label k v) (Labels opts)
                     [(''butler.butlerlabs.dev/managed-by'', ''butler-provider-harvester'')];
          volumes = [ClaimVolume ''rootdisk'' pvcName];
          disks = [\<lparr>disk_name = ''rootdisk'', disk_bootOrder = Some 1, disk_bus = ''virtio''\<rparr>];
          volumes' =
            (if UserData opts \<noteq> ''''
             then volumes @
               [CloudInitNoCloud ''cloudinit'' (EncodeToString (UserData opts))
                  (if NetworkData opts \<noteq> '''' then Some (EncodeToString (NetworkData opts)) else None)]
             else volumes);
          disks' =
            (if UserData opts \<noteq> ''''
             then disks @ [\<lparr>disk_name = ''cloudinit'', disk_bootOrder = None, disk_bus = ''virtio''\<rparr>]
             else disks)
      in \<lparr>vm_Name = Name opts,
          vm_Namespace = namespace c,
          vm_Labels = labels,
          vm_RunStrategyAnnotation = ''Always'',
          vm_runStrategy = ''Always'',
          vm_templateLabels = labels,
          vm_cores = sint (CPU opts),
          vm_sockets = 1,
          vm_threads = 1,
          vm_memoryGuest = FormatInt32 (MemoryMB opts) @ ''Mi'',
          vm_limitsCPU = FormatInt32 (CPU opts),
          vm_limitsMemory = FormatInt32 (MemoryMB opts) @ ''Mi'',
          vm_requestsCPU = ''125m'',
          vm_requestsMemory = FormatInt32 (MemoryMB opts) @ ''Mi'',
          vm_disks = disks',
          vm_interfaces = [''default''],
          vm_networks = [(''default'', networkName)],
          vm_volumes = volumes'\<rparr>)"

definition CreateVM :: "Client \<Rightarrow> VMCreateOptions \<Rightarrow> world \<Rightarrow> (go_error + string) \<times> world" where
  "CreateVM c opts w =
     (let imageName = (if ImageName opts = '''' then cfg_ImageName (config c) else ImageName opts)
      in if imageName = ''''
         then (Inl (ErrorString ''no image specified and no default image in provider config''), w)
         else
           let networkName = (if NetworkName opts = '''' then cfg_NetworkName (config c) else NetworkName opts);
               pvcName = Name opts @ ''-rootdisk''
           in case createImagePVC c pvcName imageName (DiskGB opts) w of
                (Some err, w1) \<Rightarrow> (Inl (WrapError ''failed to create PVC: '' err), w1)
              | (None, w1) \<Rightarrow>
                  let vm = buildVM c opts pvcName networkName
                  in case VirtualMachines_Create vm w1 of
                       (Inl err, w2) \<Rightarrow>
                         (case PersistentVolumeClaims_Delete pvcName w2 of
                            (ignored, w3) \<Rightarrow> (Inl (WrapError ''failed to create VM: '' err), w3))
                     | (Inr created, w2) \<Rightarrow> (Inr (vm_UID created), w2))"

definition GetVM :: "Client \<Rightarrow> string \<Rightarrow> world \<Rightarrow> (go_error + vm_resource) \<times> world" where
  "GetVM c name w = VirtualMachines_Get name w"

definition GetVMI :: "Client \<Rightarrow> string \<Rightarrow> world \<Rightarrow> (go_error + vmi_resource) \<times> world" where
  "GetVMI c name w = VirtualMachineInstances_Get name w"

definition DeleteVM :: "Client \<Rightarrow> string \<Rightarrow> world \<Rightarrow> go_error option \<times> world" where
  "DeleteVM c name w =
     (case VirtualMachines_Delete name w of
        (Some err, w1) \<Rightarrow> (Some err, w1)
      | (None, w1) \<Rightarrow>
          let pvcName = name @ ''-rootdisk''
          in case PersistentVolumeClaims_Delete pvcName w1 of
               (ignored, w2) \<Rightarrow> (None, w2))"

record VMStatus =
  Exists :: bool
  Ready :: bool
  vm_Phase :: string
  vm_IPAddress :: string
  vm_MACAddress :: string

text \<open>
  The loop of \<^verbatim>\<open>GetVMStatus\<close> over the reported interfaces: an entry that is not a
  map is skipped, the first entry with a non-empty usable address is taken with its
  hardware address, and the loop breaks there.
\<close>

fun scan_interfaces :: "iface_entry list \<Rightarrow> VMStatus \<Rightarrow> VMStatus" where
  "scan_interfaces [] status = status"
| "scan_interfaces (NotAMap # rest) status = scan_interfaces rest status"
| "scan_interfaces (IfaceMap ip mac # rest) status =
     (if ip \<noteq> '''' \<and> isUsableIP ip
      then status\<lparr>vm_IPAddress := ip, vm_MACAddress := mac\<rparr>
      else scan_interfaces rest status)"

definition GetVMStatus :: "Client \<Rightarrow> string \<Rightarrow> world \<Rightarrow> (VMStatus \<times> go_error option) \<times> world" where
  "GetVMStatus c name w =
     (let status = \<lparr>Exists = False, Ready = False, vm_Phase = '''',
                     vm_IPAddress = '''', vm_MACAddress = ''''\<rparr>
      in case GetVM c name w of
           (Inl err, w1) \<Rightarrow> ((status, Some err), w1)
         | (Inr vm, w1) \<Rightarrow>
             let status1 = status\<lparr>Exists := True\<rparr>;
                 status2 = (case vm_statusReady vm of
                              Some ready \<Rightarrow> status1\<lparr>Ready := ready\<rparr>
                            | None \<Rightarrow> status1);
                 status3 = status2\<lparr>vm_Phase := vm_printableStatus vm\<rparr>
             in case GetVMI c name w1 of
                  (Inl err, w2) \<Rightarrow> ((status3, None), w2)
                | (Inr vmi, w2) \<Rightarrow>
                    (case vmi_interfaces vmi of
                       Some interfaces \<Rightarrow>
                         if length interfaces > 0
                         then ((scan_interfaces interfaces status3, None), w2)
                         else ((status3, None), w2)
                     | None \<Rightarrow> ((status3, None), w2)))"

section \<open>The record store and the event recorder\<close>

text \<open>
  The machine request has a status subresource: \<^verbatim>\<open>r.Update\<close> writes metadata and
  spec and keeps the stored status, \<^verbatim>\<open>r.Status().Update\<close> writes the status only.
  Both leave the object returned by the server in the caller's variable.
\<close>

definition Get_MachineRequest :: "world \<Rightarrow> (go_error + MachineRequest) \<times> world" where
  "Get_MachineRequest w =
     (case issue MR_Get w of
        (Some err, w1) \<Rightarrow> (Inl err, w1)
      | (None, w1) \<Rightarrow>
          (case stored w1 of
             None \<Rightarrow> (Inl (StatusError StatusReasonNotFound ''machinerequests not found''), w1)
           | Some mr \<Rightarrow> (Inr mr, w1)))"

definition Update :: "MachineRequest \<Rightarrow> world \<Rightarrow> (go_error + MachineRequest) \<times> world" where
  "Update mr w =
     (case issue MR_Update w of
        (Some err, w1) \<Rightarrow> (Inl err, w1)
      | (None, w1) \<Rightarrow>
          (case stored w1 of
             None \<Rightarrow> (Inl (StatusError StatusReasonNotFound ''machinerequests not found''), w1)
           | Some old \<Rightarrow>
               let new = mr\<lparr>Status := Status old\<rparr>
               in (Inr new, w1\<lparr>stored := Some new\<rparr>)))"

definition Status_Update :: "MachineRequest \<Rightarrow> world \<Rightarrow> (go_error + MachineRequest) \<times> world" where
  "Status_Update mr w =
     (case issue MR_StatusUpdate w of
        (Some err, w1) \<Rightarrow> (Inl err, w1)
      | (None, w1) \<Rightarrow>
          (case stored w1 of
             None \<Rightarrow> (Inl (StatusError StatusReasonNotFound ''machinerequests not found''), w1)
           | Some old \<Rightarrow>
               let new = old\<lparr>Status := Status mr\<rparr>
               in (Inr new, w1\<lparr>stored := Some new\<rparr>)))"

definition Get_ProviderConfig :: "string \<Rightarrow> string \<Rightarrow> world \<Rightarrow> (go_error + ProviderConfig) \<times> world" where
  "Get_ProviderConfig ns name w =
     (case issue (PC_Get ns name) w of
        (Some err, w1) \<Rightarrow> (Inl err, w1)
      | (None, w1) \<Rightarrow>
          (case provider_configs w1 (ns, name) of
             None \<Rightarrow> (Inl (StatusError StatusReasonNotFound ''providerconfigs not found''), w1)
           | Some pc \<Rightarrow> (Inr pc, w1)))"

definition Get_Secret :: "string \<Rightarrow> string \<Rightarrow> world \<Rightarrow> (go_error + (string \<rightharpoonup> string)) \<times> world" where
  "Get_Secret ns name w =
     (case issue (Secret_Get ns name) w of
        (Some err, w1) \<Rightarrow> (Inl err, w1)
      | (None, w1) \<Rightarrow>
          (case secrets w1 (ns, name) of
             None \<Rightarrow> (Inl (StatusError StatusReasonNotFound ''secrets not found''), w1)
           | Some secret \<Rightarrow> (Inr secret, w1)))"

definition Event :: "string \<Rightarrow> string \<Rightarrow> string \<Rightarrow> world \<Rightarrow> world" where
  "Event eventtype reason message w = w\<lparr>events := events w @ [(eventtype, reason, message)]\<rparr>"

section \<open>The reconciler (MachineRequestReconciler)\<close>

definition finalizerName :: string where
  "finalizerName = ''machinerequest.butler.butlerlabs.dev/harvester-finalizer''"

text \<open>A \<^verbatim>\<open>time.Duration\<close> counts nanoseconds.\<close>

definition Second :: int where "Second = 1000000000"
definition requeueShort :: int where "requeueShort = 10 * Second"
definition requeueLong :: int where "requeueLong = 30 * Second"

record Result =
  Requeue :: bool
  RequeueAfter :: int

definition Result_zero :: Result where
  "Result_zero = \<lparr>Requeue = False, RequeueAfter = 0\<rparr>"

definition DeletionTimestamp_IsZero :: "MachineRequest \<Rightarrow> bool" where
  "DeletionTimestamp_IsZero mr = (case DeletionTimestamp mr of None \<Rightarrow> True | Some t \<Rightarrow> t = 0)"

definition updatePhase :: "MachineRequest \<Rightarrow> string \<Rightarrow> world \<Rightarrow> (go_error + Result) \<times> world" where
  "updatePhase mr phase w =
     (let mr1 = mr\<lparr>Status := (Status mr)\<lparr>Phase := phase, LastUpdated := Some (now w)\<rparr>\<rparr>
      in case Status_Update mr1 w of
           (Inl err, w1) \<Rightarrow> (Inl err, w1)
         | (Inr mr2, w1) \<Rightarrow> (Inr \<lparr>Requeue = True, RequeueAfter = 0\<rparr>, w1))"

definition updateStatusError :: "MachineRequest \<Rightarrow> string \<Rightarrow> string \<Rightarrow> world \<Rightarrow> (go_error + Result) \<times> world" where
  "updateStatusError mr reason message w =
     (let mr1 = SetFailure reason message mr;
          mr2 = mr1\<lparr>Status := (Status mr1)\<lparr>Conditions :=
                  SetStatusCondition (Conditions (Status mr1)) (now w)
                    \<lparr>cond_Type = ConditionTypeReady,
                     cond_Status = ConditionFalse,
                     cond_Reason = reason,
                     cond_Message = message,
                     cond_ObservedGeneration = Generation mr1,
                     cond_LastTransitionTime = 0\<rparr>\<rparr>\<rparr>
      in case Status_Update mr2 w of
           (Inl err, w1) \<Rightarrow> (Inl err, w1)
         | (Inr mr3, w1) \<Rightarrow> (Inr Result_zero, Event ''Warning'' reason message w1))"

text \<open>The options \<^verbatim>\<open>reconcilePending\<close> builds from the specification of the record.\<close>

definition createOptions :: "MachineRequest \<Rightarrow> VMCreateOptions" where
  "createOptions mr =
     \<lparr>Name = MachineName (Spec mr),
      CPU = spec_CPU (Spec mr),
      MemoryMB = spec_MemoryMB (Spec mr),
      DiskGB = spec_DiskGB (Spec mr),
      ImageName = spec_Image (Spec mr),
      NetworkName = '''',
      UserData = spec_UserData (Spec mr),
      NetworkData = spec_NetworkData (Spec mr),
      Labels = spec_Labels (Spec mr)\<rparr>"

definition reconcilePending :: "MachineRequest \<Rightarrow> Client \<Rightarrow> world \<Rightarrow> (go_error + Result) \<times> world" where
  "reconcilePending mr hc w =
     (let opts = createOptions mr
      in case CreateVM hc opts w of
           (Inl err, w1) \<Rightarrow>
             if IsAlreadyExists err
             then updatePhase mr MachinePhaseCreating w1
             else updateStatusError mr ReasonProviderError (Error err)
                    (Event ''Warning'' ''CreateFailed'' (''Failed to create VM: '' @ Error err) w1)
         | (Inr providerID, w1) \<Rightarrow>
             let mr1 = mr\<lparr>Status := (Status mr)\<lparr>ProviderID := providerID,
                                                  Phase := MachinePhaseCreating,
                                                  FailureReason := '''',
                                                  FailureMessage := '''',
                                                  LastUpdated := Some (now w1),
                                                  ObservedGeneration := Generation mr\<rparr>\<rparr>;
                 mr2 = mr1\<lparr>Status := (Status mr1)\<lparr>Conditions :=
                         SetStatusCondition (Conditions (Status mr1)) (now w1)
                           \<lparr>cond_Type = ConditionTypeProgressing,
                            cond_Status = ConditionTrue,
                            cond_Reason = ReasonCreating,
                            cond_Message = ''VM is being created'',
                            cond_ObservedGeneration = Generation mr1,
                            cond_LastTransitionTime = 0\<rparr>\<rparr>\<rparr>
             in case Status_Update mr2 w1 of
                  (Inl err, w2) \<Rightarrow> (Inl err, w2)
                | (Inr mr3, w2) \<Rightarrow>
                    (Inr \<lparr>Requeue = False, RequeueAfter = requeueShort\<rparr>,
                     Event ''Normal'' ''Created'' ''VM creation initiated'' w2))"

definition reconcileCreating :: "MachineRequest \<Rightarrow> Client \<Rightarrow> world \<Rightarrow> (go_error + Result) \<times> world" where
  "reconcileCreating mr hc w =
     (case GetVMStatus hc (MachineName (Spec mr)) w of
        ((status, Some err), w1) \<Rightarrow>
          if IsNotFound err
          then updatePhase mr MachinePhasePending w1
          else (Inr \<lparr>Requeue = False, RequeueAfter = requeueShort\<rparr>, w1)
      | ((status, None), w1) \<Rightarrow>
          if vm_IPAddress status \<noteq> ''''
          then
            let mr1 = mr\<lparr>Status := (Status mr)\<lparr>Phase := MachinePhaseRunning,
                                                 IPAddress := vm_IPAddress status,
                                                 MACAddress := vm_MACAddress status,
                                                 LastUpdated := Some (now w1)\<rparr>\<rparr>;
                mr2 = mr1\<lparr>Status := (Status mr1)\<lparr>Conditions :=
                        SetStatusCondition (Conditions (Status mr1)) (now w1)
                          \<lparr>cond_Type = ConditionTypeReady,
                           cond_Status = ConditionTrue,
                           cond_Reason = ReasonRunning,
                           cond_Message = ''VM is running with IP '' @ vm_IPAddress status,
                           cond_ObservedGeneration = Generation mr1,
                           cond_LastTransitionTime = 0\<rparr>\<rparr>\<rparr>;
                mr3 = mr2\<lparr>Status := (Status mr2)\<lparr>Conditions :=
                        SetStatusCondition (Conditions (Status mr2)) (now w1)
                          \<lparr>cond_Type = ConditionTypeProgressing,
                           cond_Status = ConditionFalse,
                           cond_Reason = ReasonRunning,
                           cond_Message = ''VM creation complete'',
                           cond_ObservedGeneration = Generation mr2,
                           cond_LastTransitionTime = 0\<rparr>\<rparr>\<rparr>
            in case Status_Update mr3 w1 of
                 (Inl err, w2) \<Rightarrow> (Inl err, w2)
               | (Inr mr4, w2) \<Rightarrow>
                   (Inr Result_zero,
                    Event ''Normal'' ''Ready'' (''VM is running with IP '' @ vm_IPAddress status) w2)
          else
            let mr1 = mr\<lparr>Status := (Status mr)\<lparr>Conditions :=
                        SetStatusCondition (Conditions (Status mr)) (now w1)
                          \<lparr>cond_Type = ConditionTypeProgressing,
                           cond_Status = ConditionTrue,
                           cond_Reason = ReasonWaitingForIP,
                           cond_Message = ''VM phase: '' @ vm_Phase status @ '', waiting for IP address'',
                           cond_ObservedGeneration = Generation mr,
                           cond_LastTransitionTime = 0\<rparr>\<rparr>\<rparr>
            in case Status_Update mr1 w1 of
                 (Inl err, w2) \<Rightarrow> (Inl err, w2)
               | (Inr mr2, w2) \<Rightarrow> (Inr \<lparr>Requeue = False, RequeueAfter = requeueShort\<rparr>, w2))"

definition reconcileRunning :: "MachineRequest \<Rightarrow> Client \<Rightarrow> world \<Rightarrow> (go_error + Result) \<times> world" where
  "reconcileRunning mr hc w =
     (case GetVMStatus hc (MachineName (Spec mr)) w of
        ((status, Some err), w1) \<Rightarrow>
          if IsNotFound err
          then
            let mr1 = SetFailure ''VMDeleted'' ''VM was deleted externally'' mr
            in case Status_Update mr1 w1 of
                 (Inl err2, w2) \<Rightarrow> (Inl err2, w2)
               | (Inr mr2, w2) \<Rightarrow>
                   (Inr Result_zero, Event ''Warning'' ''VMDeleted'' ''VM was deleted externally'' w2)
          else (Inr \<lparr>Requeue = False, RequeueAfter = requeueLong\<rparr>, w1)
      | ((status, None), w1) \<Rightarrow>
          if vm_IPAddress status \<noteq> '''' \<and> vm_IPAddress status \<noteq> IPAddress (Status mr)
          then
            let mr1 = mr\<lparr>Status := (Status mr)\<lparr>IPAddress := vm_IPAddress status,
                                                 LastUpdated := Some (now w1)\<rparr>\<rparr>
            in case Status_Update mr1 w1 of
                 (Inl err, w2) \<Rightarrow> (Inl err, w2)
               | (Inr mr2, w2) \<Rightarrow> (Inr \<lparr>Requeue = False, RequeueAfter = requeueLong\<rparr>, w2)
          else (Inr \<lparr>Requeue = False, RequeueAfter = requeueLong\<rparr>, w1))"

definition reconcileDelete :: "MachineRequest \<Rightarrow> Client \<Rightarrow> world \<Rightarrow> (go_error + Result) \<times> world" where
  "reconcileDelete mr hc w =
     (case (if Phase (Status mr) \<noteq> MachinePhaseDeleting
            then Status_Update
                   (mr\<lparr>Status := (Status mr)\<lparr>Phase := MachinePhaseDeleting,
                                               LastUpdated := Some (now w)\<rparr>\<rparr>) w
            else (Inr mr, w)) of
        (Inl err, w1) \<Rightarrow> (Inl err, w1)
      | (Inr mr1, w1) \<Rightarrow>
          (case DeleteVM hc (MachineName (Spec mr1)) w1 of
             (deleted, w2) \<Rightarrow>
               if (case deleted of Some err \<Rightarrow> \<not> IsNotFound err | None \<Rightarrow> False)
               then (Inr \<lparr>Requeue = False, RequeueAfter = requeueShort\<rparr>, w2)
               else
                 (case Update (RemoveFinalizer mr1 finalizerName) w2 of
                    (Inl err, w3) \<Rightarrow> (Inl err, w3)
                  | (Inr mr2, w3) \<Rightarrow>
                      (Inr Result_zero, Event ''Normal'' ''Deleted'' ''VM deleted'' w3))))"

definition getProviderConfig :: "MachineRequest \<Rightarrow> world \<Rightarrow> (go_error + ProviderConfig) \<times> world" where
  "getProviderConfig mr w =
     (let ns = (if ProviderRef_Namespace (Spec mr) = '''' then mr_Namespace mr
                else ProviderRef_Namespace (Spec mr));
          name = ProviderRef_Name (Spec mr)
      in case Get_ProviderConfig ns name w of
           (Inl err, w1) \<Rightarrow>
             (Inl (WrapError (''failed to get ProviderConfig '' @ ns @ ''/'' @ name @ '': '') err), w1)
         | (Inr pc, w1) \<Rightarrow> (Inr pc, w1))"

definition createHarvesterClient :: "ProviderConfig \<Rightarrow> world \<Rightarrow> (go_error + Client) \<times> world" where
  "createHarvesterClient pc w =
     (case pc_Harvester pc of
        None \<Rightarrow>
          (Inl (ErrorString (''ProviderConfig '' @ pc_Name pc @ '' has no Harvester configuration'')), w)
      | Some harvesterConfig \<Rightarrow>
          let ns = (if CredentialsRef_Namespace pc = '''' then pc_Namespace pc
                    else CredentialsRef_Namespace pc);
              name = CredentialsRef_Name pc
          in case Get_Secret ns name w of
               (Inl err, w1) \<Rightarrow>
                 (Inl (WrapError (''failed to get credentials secret '' @ ns @ ''/'' @ name @ '': '') err), w1)
             | (Inr secret, w1) \<Rightarrow>
                 let secretKey = (if CredentialsRef_Key pc = '''' then ''kubeconfig''
                                  else CredentialsRef_Key pc)
                 in case secret secretKey of
                      None \<Rightarrow>
                        (Inl (ErrorString (''credentials secret '' @ ns @ ''/'' @ name
                                @ '' does not contain key '' @ secretKey)), w1)
                    | Some kubeconfig \<Rightarrow> (NewClient kubeconfig harvesterConfig w1, w1))"

text \<open>
  The switch on the phase, entered only with the finalizer present and no deletion
  timestamp.
\<close>

definition reconcilePhase :: "MachineRequest \<Rightarrow> Client \<Rightarrow> world \<Rightarrow> (go_error + Result) \<times> world" where
  "reconcilePhase machineRequest harvesterClient w =
     (if Phase (Status machineRequest) = '''' \<or> Phase (Status machineRequest) = MachinePhasePending
      then reconcilePending machineRequest harvesterClient w
      else if Phase (Status machineRequest) = MachinePhaseCreating
      then reconcileCreating machineRequest harvesterClient w
      else if Phase (Status machineRequest) = MachinePhaseRunning
      then reconcileRunning machineRequest harvesterClient w
      else if Phase (Status machineRequest) = MachinePhaseFailed
      then (Inr Result_zero, w)
      else updatePhase machineRequest MachinePhasePending w)"

definition Reconcile :: "world \<Rightarrow> (go_error + Result) \<times> world" where
  "Reconcile w =
     (case Get_MachineRequest w of
        (Inl err, w1) \<Rightarrow> if IsNotFound err then (Inr Result_zero, w1) else (Inl err, w1)
      | (Inr machineRequest, w1) \<Rightarrow>
          (case getProviderConfig machineRequest w1 of
             (Inl err, w2) \<Rightarrow>
               updateStatusError machineRequest ''ProviderConfigError'' (Error err) w2
           | (Inr providerConfig, w2) \<Rightarrow>
               if pc_Provider providerConfig \<noteq> ProviderTypeHarvester
               then (Inr Result_zero, w2)
               else
                 (case createHarvesterClient providerConfig w2 of
                    (Inl err, w3) \<Rightarrow>
                      updateStatusError machineRequest ''HarvesterClientError'' (Error err) w3
                  | (Inr harvesterClient, w3) \<Rightarrow>
                      if \<not> DeletionTimestamp_IsZero machineRequest
                      then reconcileDelete machineRequest harvesterClient w3
                      else if \<not> ContainsFinalizer machineRequest finalizerName
                      then
                        (case Update (AddFinalizer machineRequest finalizerName) w3 of
                           (Inl err, w4) \<Rightarrow> (Inl err, w4)
                         | (Inr updated, w4) \<Rightarrow> (Inr \<lparr>Requeue = True, RequeueAfter = 0\<rparr>, w4))
                      else reconcilePhase machineRequest harvesterClient w3)))"

section \<open>Observations used by the properties\<close>

text \<open>The calls that create an external resource.\<close>

fun is_create :: "call \<Rightarrow> bool" where
  "is_create (PVC_Create n) = True"
| "is_create (VM_Create n) = True"
| "is_create c = False"

text \<open>The calls a step issued: what it appended to the trace.\<close>

definition issued :: "world \<Rightarrow> world \<Rightarrow> call list" where
  "issued w w' = drop (length (trace w)) (trace w')"

fun is_cloud_init :: "volume \<Rightarrow> bool" where
  "is_cloud_init (CloudInitNoCloud n u nd) = True"
| "is_cloud_init (ClaimVolume n claim) = False"

fun networkDataBase64 :: "volume \<Rightarrow> string option" where
  "networkDataBase64 (CloudInitNoCloud n u nd) = nd"
| "networkDataBase64 (ClaimVolume n claim) = None"

text \<open>
  The test the interface loop applies to an entry, written on the entry: it is a map,
  its address is not empty, has no colon and does not start with \<^verbatim>\<open>169.254.\<close>.
\<close>

fun entry_address :: "iface_entry \<Rightarrow> string" where
  "entry_address NotAMap = ''''"
| "entry_address (IfaceMap ip mac) = ip"

fun entry_mac :: "iface_entry \<Rightarrow> string" where
  "entry_mac NotAMap = ''''"
| "entry_mac (IfaceMap ip mac) = mac"

definition qualifies :: "iface_entry \<Rightarrow> bool" where
  "qualifies e =
     (entry_address e \<noteq> '''' \<and> CHR '':'' \<notin> set (entry_address e) \<and>
      take 8 (entry_address e) \<noteq> ''169.254.'')"

text \<open>
  The forward path orders the phases a record is provisioned through; the empty phase
  of a new record counts as Pending. Failed, Deleting and unknown texts have no rank.
\<close>

definition phase_rank :: "string \<Rightarrow> nat option" where
  "phase_rank p =
     (if p = '''' \<or> p = MachinePhasePending then Some 0
      else if p = MachinePhaseCreating then Some 1
      else if p = MachinePhaseRunning then Some 2
      else None)"

definition moves_backward :: "string \<Rightarrow> string \<Rightarrow> bool" where
  "moves_backward p q =
     (case (phase_rank p, phase_rank q) of
        (Some i, Some j) \<Rightarrow> j < i
      | other \<Rightarrow> False)"

definition known_phase :: "string \<Rightarrow> bool" where
  "known_phase p =
     (p = '''' \<or> p = MachinePhasePending \<or> p = MachinePhaseCreating \<or>
      p = MachinePhaseRunning \<or> p = MachinePhaseFailed)"

text \<open>
  The records the loop can reach: a new record has the empty phase; a reconciliation
  pass from any world that stores the record yields the record it stores afterwards;
  the owner may mark the record for deletion at any time.
\<close>

inductive reachable :: "MachineRequest \<Rightarrow> bool" where
  new_record: "Phase (Status mr) = '''' \<Longrightarrow> reachable mr"
| pass: "reachable mr \<Longrightarrow> stored w = Some mr \<Longrightarrow> Reconcile w = (res, w') \<Longrightarrow>
         stored w' = Some mr' \<Longrightarrow> reachable mr'"
| deletion_intent: "reachable mr \<Longrightarrow> reachable (mr\<lparr>DeletionTimestamp := Some t\<rparr>)"

section \<open>A concrete scenario\<close>

text \<open>
  The record \<^verbatim>\<open>alpha-cp-0\<close> of the specification's scenario, its provider
  configuration and credentials, and an empty platform without faults.
\<close>

definition alpha_config :: HarvesterProviderConfig where
  "alpha_config = \<lparr>cfg_Namespace = ''default'', cfg_ImageName = '''', cfg_NetworkName = ''default/vlan1''\<rparr>"

definition alpha_client :: Client where
  "alpha_client = \<lparr>namespace = ''default'', config = alpha_config\<rparr>"

definition alpha_provider :: ProviderConfig where
  "alpha_provider =
     \<lparr>pc_Name = ''harvester'', pc_Namespace = ''butler'', pc_Provider = ProviderTypeHarvester,
      CredentialsRef_Name = ''harvester-kubeconfig'', CredentialsRef_Namespace = '''',
      CredentialsRef_Key = '''', pc_Harvester = Some alpha_config\<rparr>"

definition alpha_spec :: MachineRequestSpec where
  "alpha_spec =
     \<lparr>ProviderRef_Name = ''harvester'', ProviderRef_Namespace = '''',
      MachineName = ''alpha-cp-0'', spec_CPU = 4, spec_MemoryMB = 16384, spec_DiskGB = 100,
      spec_Image = ''default/img1'', spec_UserData = '''', spec_NetworkData = '''',
      spec_Labels = []\<rparr>"

definition alpha_status :: "string \<Rightarrow> MachineRequestStatus" where
  "alpha_status p =
     \<lparr>Phase = p, ProviderID = '''', IPAddress = '''', MACAddress = '''',
      FailureReason = '''', FailureMessage = '''', Conditions = [],
      LastUpdated = None, ObservedGeneration = 0\<rparr>"

definition alpha :: "string \<Rightarrow> string list \<Rightarrow> MachineRequest" where
  "alpha p fs =
     \<lparr>mr_Name = ''alpha-cp-0'', mr_Namespace = ''butler'', Generation = 1,
      DeletionTimestamp = None, Finalizers = fs, Spec = alpha_spec, Status = alpha_status p\<rparr>"

definition ready_condition :: Condition where
  "ready_condition =
     \<lparr>cond_Type = ConditionTypeReady, cond_Status = ConditionTrue, cond_Reason = ReasonRunning,
      cond_Message = ''VM is running with IP 10.0.0.9'', cond_ObservedGeneration = 1,
      cond_LastTransitionTime = 5\<rparr>"

definition alpha_running :: MachineRequest where
  "alpha_running =
     (alpha MachinePhaseRunning [finalizerName])
       \<lparr>Status := (alpha_status MachinePhaseRunning)
          \<lparr>ProviderID := ''uid-1'', IPAddress := ''10.0.0.9'', MACAddress := ''aa:bb:cc'',
           Conditions := [ready_condition], LastUpdated := Some 5, ObservedGeneration := 1\<rparr>\<rparr>"

definition world_of :: "MachineRequest \<Rightarrow> go_error option list \<Rightarrow> world" where
  "world_of mr fs =
     \<lparr>pvcs = [], vms = [], vmis = [], fresh_uid = ''uid-1'', faults = fs, trace = [],
      stored = Some mr,
      provider_configs = [(''butler'', ''harvester'') \<mapsto> alpha_provider],
      secrets = [(''butler'', ''harvester-kubeconfig'') \<mapsto> [''kubeconfig'' \<mapsto> ''apiVersion: v1'']],
      kubeconfig_error = (\<lambda>k. None),
      now = 7, events = []\<rparr>"

definition alpha_vm :: vm_resource where
  "alpha_vm =
     \<lparr>vm_object = buildVM alpha_client
        \<lparr>Name = ''alpha-cp-0'', CPU = 4, MemoryMB = 16384, DiskGB = 100,
         ImageName = ''default/img1'', NetworkName = '''', UserData = '''', NetworkData = '''',
         Labels = []\<rparr> ''alpha-cp-0-rootdisk'' ''default/vlan1'',
      vm_UID = ''uid-1'', vm_statusReady = Some True, vm_printableStatus = ''Running''\<rparr>"

definition alpha_pvc :: PersistentVolumeClaim where
  "alpha_pvc =
     \<lparr>pvc_Name = ''alpha-cp-0-rootdisk'', pvc_Namespace = ''default'',
      pvc_Annotations = [(''harvesterhci.io/imageId'', ''default/img1'')],
      pvc_Labels = [(''butler.butlerlabs.dev/managed-by'', ''butler-provider-harvester'')],
      pvc_AccessModes = [''ReadWriteMany''], pvc_VolumeMode = ''Block'',
      pvc_StorageClassName = ''longhorn-img1'', pvc_Storage = ''100Gi''\<rparr>"

definition provisioned :: "world \<Rightarrow> iface_entry list \<Rightarrow> world" where
  "provisioned w ifs =
     w\<lparr>pvcs := [alpha_pvc], vms := [alpha_vm],
       vmis := [\<lparr>vmi_Name = ''alpha-cp-0'', vmi_interfaces = Some ifs\<rparr>]\<rparr>"

definition unavailable :: go_error where
  "unavailable = StatusError StatusReasonServiceUnavailable ''the server is currently unable to handle the request''"

definition forbidden :: go_error where
  "forbidden = StatusError StatusReasonForbidden ''forbidden''"

section \<open>The address selection in the words of the specification\<close>

text \<open>
  The specification selects the first entry whose address is syntactically IPv4, not
  empty and outside the link-local block 169.254.0.0/16. These definitions follow those
  words, to be compared with \<open>isUsableIP\<close> and the loop of \<open>GetVMStatus\<close>: an IPv4
  address is four decimal octets (one to three digits, at most 255) separated by dots,
  and it lies in the block when its first two octets are 169 and 254.
\<close>

fun split_dots :: "string \<Rightarrow> string list" where
  "split_dots [] = [[]]"
| "split_dots (ch # rest) =
     (if ch = CHR ''.'' then [] # split_dots rest
      else (case split_dots rest of [] \<Rightarrow> [[ch]] | p # ps \<Rightarrow> (ch # p) # ps))"

definition is_digit :: "char \<Rightarrow> bool" where
  "is_digit ch = (48 \<le> (of_char ch :: nat) \<and> (of_char ch :: nat) \<le> 57)"

definition decimal_value :: "string \<Rightarrow> nat" where
  "decimal_value s = foldl (\<lambda>acc ch. 10 * acc + (of_char ch - 48)) 0 s"

definition is_octet :: "string \<Rightarrow> bool" where
  "is_octet s = (s \<noteq> [] \<and> length s \<le> 3 \<and> list_all is_digit s \<and> decimal_value s \<le> 255)"

definition ipv4_syntax :: "string \<Rightarrow> bool" where
  "ipv4_syntax s = (length (split_dots s) = 4 \<and> list_all is_octet (split_dots s))"

definition link_local_block :: "string \<Rightarrow> bool" where
  "link_local_block s =
     (case split_dots s of
        a # b # rest \<Rightarrow> decimal_value a = 169 \<and> decimal_value b = 254
      | other \<Rightarrow> False)"

definition spec_qualifies :: "iface_entry \<Rightarrow> bool" where
  "spec_qualifies e =
     (entry_address e \<noteq> '''' \<and> ipv4_syntax (entry_address e) \<and>
      \<not> link_local_block (entry_address e))"

definition spec_selected :: "iface_entry list \<Rightarrow> string" where
  "spec_selected ifs = (case find spec_qualifies ifs of None \<Rightarrow> '''' | Some e \<Rightarrow> entry_address e)"

text \<open>
  An entry the platform reports for a real interface: no address yet, an IPv4 address,
  or a text with a colon (IPv6).
\<close>

definition ip_text :: "iface_entry \<Rightarrow> bool" where
  "ip_text e =
     (entry_address e = '''' \<or> ipv4_syntax (entry_address e) \<or> CHR '':'' \<in> set (entry_address e))"

section \<open>Further values of the scenario\<close>

definition cloudinit_opts :: VMCreateOptions where
  "cloudinit_opts =
     \<lparr>Name = ''alpha-cp-0'', CPU = 4, MemoryMB = 16384, DiskGB = 100,
      ImageName = ''default/img1'', NetworkName = '''', UserData = '''',
      NetworkData = ''version: 2'', Labels = []\<rparr>"

definition alpha_opts :: VMCreateOptions where
  "alpha_opts =
     \<lparr>Name = ''alpha-cp-0'', CPU = 4, MemoryMB = 16384, DiskGB = 100,
      ImageName = ''default/img1'', NetworkName = '''', UserData = '''',
      NetworkData = '''', Labels = []\<rparr>"

definition reported :: "iface_entry list" where
  "reported = [IfaceMap ''169.254.1.5'' ''52:54:00:00:00:01'', IfaceMap ''fe80::1'' ''52:54:00:00:00:02'',
               IfaceMap ''10.0.0.7'' ''52:54:00:00:00:03'']"

definition reported_text :: "iface_entry list" where
  "reported_text = [IfaceMap ''localhost'' ''52:54:00:00:00:01'', IfaceMap ''10.0.0.7'' ''52:54:00:00:00:02'']"

section \<open>Summaries of a step on the stored record\<close>

text \<open>
  A step that only writes the status: the record is still stored, its finalizers,
  deletion timestamp and specification are as before, and its phase is as before or one
  of \<open>Q\<close>.
\<close>

definition status_step :: "MachineRequest \<Rightarrow> world \<Rightarrow> string set \<Rightarrow> bool" where
  "status_step mr w' Q =
     (\<exists>mr'. stored w' = Some mr' \<and> Finalizers mr' = Finalizers mr \<and>
            DeletionTimestamp mr' = DeletionTimestamp mr \<and> Spec mr' = Spec mr \<and>
            (Phase (Status mr') = Phase (Status mr) \<or> Phase (Status mr') \<in> Q))"

text \<open>A step that issued no call creating an external resource.\<close>

definition creates_nothing :: "world \<Rightarrow> world \<Rightarrow> bool" where
  "creates_nothing w w' = (\<exists>cs. trace w' = trace w @ cs \<and> (\<forall>c \<in> set cs. \<not> is_create c))"

text \<open>The status read of a pass reported that the machine does not exist.\<close>

definition vm_not_found :: "Client \<Rightarrow> MachineRequest \<Rightarrow> world \<Rightarrow> bool" where
  "vm_not_found hc mr w =
     (case snd (fst (GetVMStatus hc (MachineName (Spec mr)) w)) of
        Some err \<Rightarrow> IsNotFound err
      | None \<Rightarrow> False)"

text \<open>
  The phases the switch on the phase can write, by the phase it starts from and by
  whether the status read reported the machine as not found.
\<close>

definition next_phases :: "string \<Rightarrow> bool \<Rightarrow> string set" where
  "next_phases p not_found =
     (if p = '''' \<or> p = MachinePhasePending then {MachinePhaseCreating, MachinePhaseFailed}
      else if p = MachinePhaseCreating
      then (if not_found then {MachinePhasePending} else {MachinePhaseRunning})
      else if p = MachinePhaseRunning
      then (if not_found then {MachinePhaseFailed} else {})
      else if p = MachinePhaseFailed then {}
      else {MachinePhasePending})"

section \<open>Records of the scenario after a pass\<close>

text \<open>A world in which the provider configuration the record names does not exist.\<close>

definition unconfigured :: "MachineRequest \<Rightarrow> world" where
  "unconfigured mr = (world_of mr [])\<lparr>provider_configs := Map.empty\<rparr>"

definition alpha_unguarded_failed :: MachineRequest where
  "alpha_unguarded_failed = the (stored (snd (Reconcile (unconfigured (alpha '''' [])))))"

definition alpha_creating :: MachineRequest where
  "alpha_creating = the (stored (snd (Reconcile (world_of (alpha '''' [finalizerName]) []))))"

section \<open>Worlds of the scenario in phase Running\<close>

text \<open>
  The machine of the running record reports a new usable address (and another hardware
  address); the machine reports the recorded address with another hardware address; a
  machine request in phase Running whose machine is no longer on the platform.
\<close>

definition drifted :: world where
  "drifted = provisioned (world_of alpha_running []) reported"

definition steady :: world where
  "steady = provisioned (world_of alpha_running []) [IfaceMap ''10.0.0.9'' ''52:54:00:00:00:03'']"

definition vanished :: world where
  "vanished = world_of alpha_running []"

section \<open>Worlds of the scenario in phase Pending\<close>

text \<open>
  The record in phase Pending with the guard token. In \<open>flaky\<close> the reads of the
  record, the provider configuration and the secret succeed and the fourth call of the
  pass, the creation of the disk, is answered with a transient error; in
  \<open>flaky_create\<close> and \<open>flaky_read\<close> the first call of a phase handler is.
\<close>

definition alpha_pending :: MachineRequest where
  "alpha_pending = alpha MachinePhasePending [finalizerName]"

definition flaky :: world where
  "flaky = world_of alpha_pending [None, None, None, Some unavailable]"

definition flaky_create :: world where
  "flaky_create = world_of alpha_pending [Some unavailable]"

definition flaky_read :: world where
  "flaky_read = world_of (alpha MachinePhaseCreating [finalizerName]) [Some unavailable]"

text \<open>The platform after the create sequence has run once for the pending record.\<close>

definition redelivered :: world where
  "redelivered = snd (CreateVM alpha_client (createOptions alpha_pending) (world_of alpha_pending []))"

section \<open>What a round trip changes\<close>

lemma issue_effect:
  "issue c w = (r, w1) \<Longrightarrow>
     trace w1 = trace w @ [c] \<and> pvcs w1 = pvcs w \<and> vms w1 = vms w \<and> vmis w1 = vmis w \<and>
     stored w1 = stored w \<and> now w1 = now w \<and> events w1 = events w \<and> fresh_uid w1 = fresh_uid w"
  by (auto simp: issue_def split: list.splits)

lemma PersistentVolumeClaims_Create_effect:
  "PersistentVolumeClaims_Create pvc w = (r, w1) \<Longrightarrow>
     trace w1 = trace w @ [PVC_Create (pvc_Name pvc)] \<and> vms w1 = vms w \<and> vmis w1 = vmis w \<and>
     stored w1 = stored w \<and> now w1 = now w \<and> events w1 = events w"
  by (auto simp: PersistentVolumeClaims_Create_def split: prod.splits option.splits if_splits
           dest: issue_effect)

lemma PersistentVolumeClaims_Delete_effect:
  "PersistentVolumeClaims_Delete name w = (r, w1) \<Longrightarrow>
     trace w1 = trace w @ [PVC_Delete name] \<and> vms w1 = vms w \<and> vmis w1 = vmis w \<and>
     stored w1 = stored w \<and> now w1 = now w \<and> events w1 = events w"
  by (auto simp: PersistentVolumeClaims_Delete_def split: prod.splits option.splits if_splits
           dest: issue_effect)

lemma VirtualMachines_Create_effect:
  "VirtualMachines_Create vm w = (r, w1) \<Longrightarrow>
     trace w1 = trace w @ [VM_Create (vm_Name vm)] \<and> pvcs w1 = pvcs w \<and> vmis w1 = vmis w \<and>
     stored w1 = stored w \<and> now w1 = now w \<and> events w1 = events w"
  by (auto simp: VirtualMachines_Create_def Let_def split: prod.splits option.splits if_splits
           dest: issue_effect)

lemma VirtualMachines_Delete_effect:
  "VirtualMachines_Delete name w = (r, w1) \<Longrightarrow>
     trace w1 = trace w @ [VM_Delete name] \<and> pvcs w1 = pvcs w \<and> vmis w1 = vmis w \<and>
     stored w1 = stored w \<and> now w1 = now w \<and> events w1 = events w"
  by (auto simp: VirtualMachines_Delete_def split: prod.splits option.splits if_splits
           dest: issue_effect)

lemma VirtualMachines_Get_effect:
  "VirtualMachines_Get name w = (r, w1) \<Longrightarrow>
     trace w1 = trace w @ [VM_Get name] \<and> pvcs w1 = pvcs w \<and> vms w1 = vms w \<and> vmis w1 = vmis w \<and>
     stored w1 = stored w \<and> now w1 = now w \<and> events w1 = events w"
  by (auto simp: VirtualMachines_Get_def split: prod.splits option.splits dest: issue_effect)

lemma VirtualMachineInstances_Get_effect:
  "VirtualMachineInstances_Get name w = (r, w1) \<Longrightarrow>
     trace w1 = trace w @ [VMI_Get name] \<and> pvcs w1 = pvcs w \<and> vms w1 = vms w \<and> vmis w1 = vmis w \<and>
     stored w1 = stored w \<and> now w1 = now w \<and> events w1 = events w"
  by (auto simp: VirtualMachineInstances_Get_def split: prod.splits option.splits dest: issue_effect)

lemma buildVM_Name: "vm_Name (buildVM c opts pvcName networkName) = Name opts"
  by (simp add: buildVM_def Let_def)

lemma createImagePVC_effect:
  "createImagePVC c name imageName sizeGB w = (r, w1) \<Longrightarrow>
     trace w1 = trace w @ [PVC_Create name] \<and> vms w1 = vms w \<and> vmis w1 = vmis w \<and>
     stored w1 = stored w \<and> now w1 = now w \<and> events w1 = events w"
  by (auto simp: createImagePVC_def Let_def dest!: PersistentVolumeClaims_Create_effect)

lemma issued_append: "trace w' = trace w @ cs \<Longrightarrow> issued w w' = cs"
  by (simp add: issued_def)

lemma issued_same: "issued w w = []"
  by (simp add: issued_def)

lemma GetVMStatus_effect:
  assumes "GetVMStatus c name w = (r, w1)"
  shows "stored w1 = stored w \<and> now w1 = now w \<and> events w1 = events w \<and> pvcs w1 = pvcs w \<and>
         vms w1 = vms w \<and>
         (trace w1 = trace w @ [VM_Get name] \<or> trace w1 = trace w @ [VM_Get name, VMI_Get name])"
proof -
  obtain r1 w' where g1: "VirtualMachines_Get name w = (r1, w')"
    by (cases "VirtualMachines_Get name w")
  obtain r2 w'' where g2: "VirtualMachineInstances_Get name w' = (r2, w'')"
    by (cases "VirtualMachineInstances_Get name w'")
  note e1 = VirtualMachines_Get_effect [OF g1]
  note e2 = VirtualMachineInstances_Get_effect [OF g2]
  have "w1 = w' \<or> w1 = w''"
    using assms g1 g2
    by (simp add: GetVMStatus_def GetVM_def GetVMI_def Let_def
             split: sum.splits option.splits if_splits)
  then show ?thesis
  proof
    assume "w1 = w'"
    then show ?thesis using e1 by simp
  next
    assume "w1 = w''"
    then show ?thesis using e1 e2 by simp
  qed
qed

lemma GetVMStatus_found:
  assumes vm: "GetVM c name w = (Inr vm, w1)"
      and vmi: "GetVMI c name w1 = (Inr vmi, w2)"
      and ifs: "vmi_interfaces vmi = Some ifs"
  shows "GetVMStatus c name w =
           ((scan_interfaces ifs
               \<lparr>Exists = True,
                Ready = (case vm_statusReady vm of Some ready \<Rightarrow> ready | None \<Rightarrow> False),
                vm_Phase = vm_printableStatus vm, vm_IPAddress = '''', vm_MACAddress = ''''\<rparr>, None), w2)"
  using vm vmi ifs
  by (cases ifs; cases "vm_statusReady vm") (simp_all add: GetVMStatus_def Let_def)

section \<open>The interface loop and its test\<close>

lemma HasPrefix_link_local: "HasPrefix s ''169.254.'' = (take 8 s = ''169.254.'')"
proof
  assume "HasPrefix s ''169.254.''"
  then show "take 8 s = ''169.254.''" by (simp add: HasPrefix_def eval_nat_numeral)
next
  assume a: "take 8 s = ''169.254.''"
  then have "length (take 8 s) = 8" by simp
  then have "8 \<le> length s" by simp
  with a show "HasPrefix s ''169.254.''" by (simp add: HasPrefix_def eval_nat_numeral)
qed

lemma isUsableIP_qualifies:
  "(ip \<noteq> '''' \<and> isUsableIP ip) = qualifies (IfaceMap ip mac)"
  by (auto simp: qualifies_def isUsableIP_def ContainsChar_def HasPrefix_link_local)

lemma scan_interfaces_find:
  "scan_interfaces ifs st =
     (case find qualifies ifs of
        None \<Rightarrow> st
      | Some e \<Rightarrow> st\<lparr>vm_IPAddress := entry_address e, vm_MACAddress := entry_mac e\<rparr>)"
proof (induction ifs st rule: scan_interfaces.induct)
  case (1 status)
  show ?case by simp
next
  case (2 rest status)
  then show ?case by (simp add: qualifies_def)
next
  case (3 ip mac rest status)
  show ?case
  proof (cases "qualifies (IfaceMap ip mac)")
    case True
    then show ?thesis using isUsableIP_qualifies [of ip mac] by simp
  next
    case False
    then show ?thesis using 3 isUsableIP_qualifies [of ip mac] by auto
  qed
qed

subsection \<open>Dotted quads\<close>

lemma split_dots_nonempty: "split_dots s \<noteq> []"
  by (induction s) (auto split: list.splits)

lemma split_dots_chars:
  "ch \<in> set s \<Longrightarrow> ch = CHR ''.'' \<or> (\<exists>p \<in> set (split_dots s). ch \<in> set p)"
proof (induction s)
  case Nil
  then show ?case by simp
next
  case (Cons a s)
  obtain p ps where sp: "split_dots s = p # ps"
    using split_dots_nonempty [of s] by (cases "split_dots s") auto
  show ?case
  proof (cases "a = CHR ''.''")
    case True
    then show ?thesis using Cons by auto
  next
    case False
    then show ?thesis using Cons sp by auto
  qed
qed

lemma ipv4_syntax_no_colon:
  assumes "ipv4_syntax s"
  shows "CHR '':'' \<notin> set s"
proof
  assume "CHR '':'' \<in> set s"
  then obtain p where p: "p \<in> set (split_dots s)" "CHR '':'' \<in> set p"
    using split_dots_chars [of "CHR '':''" s] by auto
  from assms p(1) have "is_octet p" by (auto simp: ipv4_syntax_def list_all_iff)
  then have "is_digit CHR '':''" using p(2) by (auto simp: is_octet_def list_all_iff)
  then show False by (simp add: is_digit_def)
qed

lemma split_dots_second:
  "split_dots s = p # q # ps \<Longrightarrow> \<exists>s'. s = p @ CHR ''.'' # s' \<and> split_dots s' = q # ps"
proof (induction s arbitrary: p)
  case Nil
  then show ?case by simp
next
  case (Cons a s)
  obtain p' ps' where sp: "split_dots s = p' # ps'"
    using split_dots_nonempty [of s] by (cases "split_dots s") auto
  show ?case
  proof (cases "a = CHR ''.''")
    case True
    then show ?thesis using Cons.prems by auto
  next
    case False
    with Cons.prems sp have eq: "p = a # p'" "ps' = q # ps" by auto
    with sp Cons.IH [of p'] obtain s' where "s = p' @ CHR ''.'' # s'" "split_dots s' = q # ps"
      by auto
    then show ?thesis using eq by auto
  qed
qed

lemma of_char_eq_char_of: "of_char ch = (n::nat) \<Longrightarrow> ch = char_of n"
  by auto

lemma octet_text:
  assumes "is_octet p" and "decimal_value p = 100 * x + 10 * y + z"
      and "x \<le> 9" "y \<le> 9" "z \<le> 9" "1 \<le> x"
  shows "p = [char_of (48 + x), char_of (48 + y), char_of (48 + z)]"
proof -
  from assms(1) have len: "p \<noteq> []" "length p \<le> 3" and dig: "\<forall>ch \<in> set p. is_digit ch"
    by (auto simp: is_octet_def list_all_iff)
  from len consider a where "p = [a]" | a b where "p = [a, b]" | a b c where "p = [a, b, c]"
    by (cases p; cases "tl p"; cases "tl (tl p)"; cases "tl (tl (tl p))") auto
  then show ?thesis
  proof cases
    case 1
    with dig assms show ?thesis by (auto simp: decimal_value_def is_digit_def)
  next
    case 2
    with dig assms show ?thesis by (auto simp: decimal_value_def is_digit_def)
  next
    case 3
    with dig have d: "48 \<le> (of_char a::nat)" "(of_char a::nat) \<le> 57"
       "48 \<le> (of_char b::nat)" "(of_char b::nat) \<le> 57"
       "48 \<le> (of_char c::nat)" "(of_char c::nat) \<le> 57"
      by (auto simp: is_digit_def)
    from 3 assms(2)
    have v: "100 * (of_char a - 48) + 10 * (of_char b - 48) + (of_char c - 48) = 100 * x + 10 * y + z"
      by (simp add: decimal_value_def)
    define A B C :: nat where "A = of_char a - 48" and "B = of_char b - 48" and "C = of_char c - 48"
    have bd: "A \<le> 9" "B \<le> 9" "C \<le> 9" using d by (simp_all add: A_def B_def C_def)
    have e: "100 * A + 10 * B + C = 100 * x + 10 * y + z" using v by (simp add: A_def B_def C_def)
    have a: "A = x" using e bd assms(3-5) by linarith
    have b: "B = y" using e bd assms(3-5) a by linarith
    have c: "C = z" using e a b by simp
    have "of_char a = 48 + x" "of_char b = 48 + y" "of_char c = 48 + z"
      using a b c d by (simp_all add: A_def B_def C_def)
    then show ?thesis using 3 by (auto dest: of_char_eq_char_of)
  qed
qed

lemma link_local_block_prefix:
  assumes "ipv4_syntax s"
  shows "link_local_block s = (take 8 s = ''169.254.'')"
proof
  assume ll: "link_local_block s"
  from assms obtain a b c d where sp: "split_dots s = [a, b, c, d]"
    by (auto simp: ipv4_syntax_def length_Suc_conv eval_nat_numeral)
  from assms sp have oa: "is_octet a" and ob: "is_octet b" by (auto simp: ipv4_syntax_def)
  from ll sp have va: "decimal_value a = 100 * 1 + 10 * 6 + 9"
    and vb: "decimal_value b = 100 * 2 + 10 * 5 + 4"
    by (auto simp: link_local_block_def)
  have t1: "[char_of (48 + (1::nat)), char_of (48 + (6::nat)), char_of (48 + (9::nat))] = ''169''"
    by code_simp
  have t2: "[char_of (48 + (2::nat)), char_of (48 + (5::nat)), char_of (48 + (4::nat))] = ''254''"
    by code_simp
  have a: "a = ''169''" using octet_text [OF oa va] t1 by simp
  have b: "b = ''254''" using octet_text [OF ob vb] t2 by simp
  from split_dots_second [OF sp] obtain s' where s': "s = a @ CHR ''.'' # s'" "split_dots s' = [b, c, d]"
    by auto
  from split_dots_second [OF s'(2)] obtain s'' where s'': "s' = b @ CHR ''.'' # s''" by auto
  show "take 8 s = ''169.254.''" using s'(1) s'' a b by simp
next
  assume t: "take 8 s = ''169.254.''"
  have "s = take 8 s @ drop 8 s" by simp
  with t have s: "s = ''169.254.'' @ drop 8 s" by simp
  obtain p ps where sp: "split_dots (drop 8 s) = p # ps"
    using split_dots_nonempty [of "drop 8 s"] by (cases "split_dots (drop 8 s)") auto
  have "split_dots (''169.254.'' @ drop 8 s) = ''169'' # ''254'' # p # ps"
    using sp by simp
  with s have "split_dots s = ''169'' # ''254'' # p # ps" by simp
  then show "link_local_block s" by (simp add: link_local_block_def decimal_value_def)
qed

lemma ipv4_syntax_nonempty: "ipv4_syntax s \<Longrightarrow> s \<noteq> ''''"
  by (auto simp: ipv4_syntax_def)

lemma qualifies_spec_qualifies:
  assumes "ip_text e"
  shows "qualifies e = spec_qualifies e"
proof -
  from assms consider "entry_address e = ''''" | "ipv4_syntax (entry_address e)"
    | "CHR '':'' \<in> set (entry_address e)"
    by (auto simp: ip_text_def)
  then show ?thesis
  proof cases
    case 1
    then show ?thesis by (simp add: qualifies_def spec_qualifies_def)
  next
    case 2
    then show ?thesis
      using ipv4_syntax_no_colon [OF 2] link_local_block_prefix [OF 2] ipv4_syntax_nonempty [OF 2]
      by (simp add: qualifies_def spec_qualifies_def)
  next
    case 3
    then have "\<not> ipv4_syntax (entry_address e)" using ipv4_syntax_no_colon by blast
    with 3 show ?thesis by (simp add: qualifies_def spec_qualifies_def)
  qed
qed

lemma find_qualifies_spec:
  assumes "\<forall>e \<in> set ifs. ip_text e"
  shows "find qualifies ifs = find spec_qualifies ifs"
  using assms by (intro find_cong) (auto simp: qualifies_spec_qualifies)

section \<open>Properties of the client\<close>

lemma DeleteVM_effect:
  assumes "DeleteVM c name w = (r, w1)"
  shows "stored w1 = stored w \<and> now w1 = now w \<and> events w1 = events w \<and>
         (trace w1 = trace w @ [VM_Delete name] \<or>
          trace w1 = trace w @ [VM_Delete name, PVC_Delete (name @ ''-rootdisk'')])"
proof -
  obtain r1 w' where g1: "VirtualMachines_Delete name w = (r1, w')"
    by (cases "VirtualMachines_Delete name w")
  obtain r2 w'' where g2: "PersistentVolumeClaims_Delete (name @ ''-rootdisk'') w' = (r2, w'')"
    by (cases "PersistentVolumeClaims_Delete (name @ ''-rootdisk'') w'")
  note e1 = VirtualMachines_Delete_effect [OF g1]
  note e2 = PersistentVolumeClaims_Delete_effect [OF g2]
  have "w1 = w' \<or> w1 = w''"
    using assms g1 g2 by (simp add: DeleteVM_def Let_def split: option.splits)
  then show ?thesis
  proof
    assume "w1 = w'"
    then show ?thesis using e1 by simp
  next
    assume "w1 = w''"
    then show ?thesis using e1 e2 by simp
  qed
qed

text \<open>
  C9. When the user data of the options is empty, \<open>buildVM\<close> attaches no cloud-init
  volume and no cloud-init disk: the machine has the root disk only, and a network
  configuration that was given is dropped. With user data, the seed volume carries its
  base64 text, and the base64 text of the network configuration exactly when that is
  not empty. So a network configuration is encoded and attached only together with
  user data.
\<close>

theorem buildVM_cloud_init:
  "(UserData opts = '''' \<longrightarrow>
      vm_volumes (buildVM c opts pvcName networkName) = [ClaimVolume ''rootdisk'' pvcName] \<and>
      map disk_name (vm_disks (buildVM c opts pvcName networkName)) = [''rootdisk''] \<and>
      (\<forall>v \<in> set (vm_volumes (buildVM c opts pvcName networkName)).
         \<not> is_cloud_init v \<and> networkDataBase64 v = None)) \<and>
   (UserData opts \<noteq> '''' \<longrightarrow>
      vm_volumes (buildVM c opts pvcName networkName) =
        [ClaimVolume ''rootdisk'' pvcName,
         CloudInitNoCloud ''cloudinit'' (EncodeToString (UserData opts))
           (if NetworkData opts = '''' then None else Some (EncodeToString (NetworkData opts)))] \<and>
      map disk_name (vm_disks (buildVM c opts pvcName networkName)) = [''rootdisk'', ''cloudinit'']) \<and>
   ((\<exists>v \<in> set (vm_volumes (buildVM c opts pvcName networkName)). networkDataBase64 v \<noteq> None)
      \<longleftrightarrow> UserData opts \<noteq> '''' \<and> NetworkData opts \<noteq> '''')"
  by (auto simp: buildVM_def Let_def)

theorem buildVM_cloud_init_witness:
  "UserData cloudinit_opts = '''' \<and> NetworkData cloudinit_opts \<noteq> '''' \<and>
   vm_volumes (buildVM alpha_client cloudinit_opts ''alpha-cp-0-rootdisk'' ''default/vlan1'')
     = [ClaimVolume ''rootdisk'' ''alpha-cp-0-rootdisk''] \<and>
   vm_volumes (buildVM alpha_client (cloudinit_opts\<lparr>UserData := ''hello''\<rparr>)
       ''alpha-cp-0-rootdisk'' ''default/vlan1'')
     = [ClaimVolume ''rootdisk'' ''alpha-cp-0-rootdisk'',
        CloudInitNoCloud ''cloudinit'' ''aGVsbG8='' (Some ''dmVyc2lvbjogMg=='')]"
proof -
  have a: "UserData cloudinit_opts = ''''" and b: "NetworkData cloudinit_opts \<noteq> ''''"
    by (simp_all add: cloudinit_opts_def)
  have e1: "EncodeToString ''hello'' = ''aGVsbG8=''" by code_simp
  have e2: "EncodeToString ''version: 2'' = ''dmVyc2lvbjogMg==''" by code_simp
  show ?thesis
    using a b
      buildVM_cloud_init [of cloudinit_opts alpha_client "''alpha-cp-0-rootdisk''" "''default/vlan1''"]
      buildVM_cloud_init [of "cloudinit_opts\<lparr>UserData := ''hello''\<rparr>" alpha_client
        "''alpha-cp-0-rootdisk''" "''default/vlan1''"]
    by (simp add: e1 e2 cloudinit_opts_def)
qed

text \<open>
  C4, as the code has it. When the machine and its instance are found and the instance
  reports the interface list \<open>ifs\<close>, \<open>GetVMStatus\<close> returns no error and selects the
  address and the hardware address of the first entry in list order whose address is
  not empty, has no colon and does not start with \<^verbatim>\<open>169.254.\<close>; when no entry
  qualifies the address stays empty. The selected address never has a colon nor that
  prefix. The text is not checked to be a dotted quad; on a list whose addresses are all
  empty, IPv4 or with a colon, the selection is the one the specification words: the
  first non-empty IPv4 address outside 169.254.0.0/16.
\<close>

theorem GetVMStatus_selects_first_qualifying:
  assumes vm: "GetVM c name w = (Inr vm, w1)"
      and vmi: "GetVMI c name w1 = (Inr vmi, w2)"
      and ifs: "vmi_interfaces vmi = Some ifs"
  shows "\<exists>status. GetVMStatus c name w = ((status, None), w2) \<and>
           vm_IPAddress status =
             (case find qualifies ifs of None \<Rightarrow> '''' | Some e \<Rightarrow> entry_address e) \<and>
           vm_MACAddress status =
             (case find qualifies ifs of None \<Rightarrow> '''' | Some e \<Rightarrow> entry_mac e) \<and>
           CHR '':'' \<notin> set (vm_IPAddress status) \<and>
           \<not> HasPrefix (vm_IPAddress status) ''169.254.'' \<and>
           ((\<forall>e \<in> set ifs. ip_text e) \<longrightarrow> vm_IPAddress status = spec_selected ifs)"
proof -
  let ?st = "scan_interfaces ifs
               \<lparr>Exists = True,
                Ready = (case vm_statusReady vm of Some ready \<Rightarrow> ready | None \<Rightarrow> False),
                vm_Phase = vm_printableStatus vm, vm_IPAddress = '''', vm_MACAddress = ''''\<rparr>"
  have run: "GetVMStatus c name w = ((?st, None), w2)"
    by (rule GetVMStatus_found [OF vm vmi ifs])
  have ip: "vm_IPAddress ?st =
              (case find qualifies ifs of None \<Rightarrow> '''' | Some e \<Rightarrow> entry_address e)"
    by (simp add: scan_interfaces_find split: option.splits)
  have mac: "vm_MACAddress ?st =
              (case find qualifies ifs of None \<Rightarrow> '''' | Some e \<Rightarrow> entry_mac e)"
    by (simp add: scan_interfaces_find split: option.splits)
  have q: "\<And>e. find qualifies ifs = Some e \<Longrightarrow> qualifies e"
    by (auto simp: find_Some_iff)
  have nocolon: "CHR '':'' \<notin> set (vm_IPAddress ?st)"
  proof (cases "find qualifies ifs")
    case None
    then show ?thesis unfolding ip by simp
  next
    case (Some e)
    then show ?thesis unfolding ip using q [OF Some] by (simp add: qualifies_def)
  qed
  have noprefix: "\<not> HasPrefix (vm_IPAddress ?st) ''169.254.''"
  proof (cases "find qualifies ifs")
    case None
    then show ?thesis unfolding ip by (simp add: HasPrefix_def)
  next
    case (Some e)
    then show ?thesis
      unfolding ip HasPrefix_link_local using q [OF Some] by (simp add: qualifies_def)
  qed
  have spec: "(\<forall>e \<in> set ifs. ip_text e) \<longrightarrow> vm_IPAddress ?st = spec_selected ifs"
    unfolding ip spec_selected_def using find_qualifies_spec [of ifs] by simp
  show ?thesis
    using run ip mac nocolon noprefix spec by blast
qed

lemma alpha_GetVM:
  "fst (GetVM alpha_client ''alpha-cp-0'' (provisioned (world_of alpha_running []) ifs)) = Inr alpha_vm"
  by (simp add: GetVM_def VirtualMachines_Get_def issue_def provisioned_def world_of_def find_vm_def
        alpha_vm_def buildVM_def Let_def)

lemma alpha_GetVMI:
  "fst (GetVMI alpha_client ''alpha-cp-0''
          (snd (GetVM alpha_client ''alpha-cp-0'' (provisioned (world_of alpha_running []) ifs))))
     = Inr \<lparr>vmi_Name = ''alpha-cp-0'', vmi_interfaces = Some ifs\<rparr>"
  by (simp add: GetVM_def GetVMI_def VirtualMachines_Get_def VirtualMachineInstances_Get_def issue_def
        provisioned_def world_of_def find_vm_def find_vmi_def alpha_vm_def buildVM_def Let_def)

theorem GetVMStatus_selects_first_qualifying_witness:
  "vm_IPAddress (fst (fst (GetVMStatus alpha_client ''alpha-cp-0''
      (provisioned (world_of alpha_running []) reported)))) = ''10.0.0.7'' \<and>
   snd (fst (GetVMStatus alpha_client ''alpha-cp-0''
      (provisioned (world_of alpha_running []) reported))) = None"
proof -
  let ?w = "provisioned (world_of alpha_running []) reported"
  let ?g = "GetVM alpha_client ''alpha-cp-0'' ?w"
  let ?i = "GetVMI alpha_client ''alpha-cp-0'' (snd ?g)"
  have g: "?g = (Inr alpha_vm, snd ?g)"
    using alpha_GetVM [of reported] by (simp add: prod_eq_iff)
  have i: "?i = (Inr \<lparr>vmi_Name = ''alpha-cp-0'', vmi_interfaces = Some reported\<rparr>, snd ?i)"
    using alpha_GetVMI [of reported] by (simp add: prod_eq_iff)
  have f: "find qualifies reported = Some (IfaceMap ''10.0.0.7'' ''52:54:00:00:00:03'')"
    by (simp add: reported_def qualifies_def)
  from GetVMStatus_selects_first_qualifying [OF g i] f
  show ?thesis by auto
qed

text \<open>
  The claim as the specification words it fails on a list with a text that is not an
  address: the loop selects \<^verbatim>\<open>localhost\<close>, the first entry, and the first
  syntactically IPv4 address of that list is \<^verbatim>\<open>10.0.0.7\<close>.
\<close>

theorem GetVMStatus_selects_text_counterexample:
  "vm_IPAddress (fst (fst (GetVMStatus alpha_client ''alpha-cp-0''
      (provisioned (world_of alpha_running []) reported_text)))) = ''localhost'' \<and>
   spec_selected reported_text = ''10.0.0.7''"
proof -
  have a: "vm_IPAddress (fst (fst (GetVMStatus alpha_client ''alpha-cp-0''
      (provisioned (world_of alpha_running []) reported_text)))) = ''localhost''"
    by code_simp
  have b: "spec_selected reported_text = ''10.0.0.7''"
    by code_simp
  from a b show ?thesis by simp
qed

text \<open>
  C6. \<open>CreateVM\<close> is a saga. Without an image nothing is called. Otherwise the disk is
  created first. If that fails, the error is returned wrapped and the machine is never
  created. If the disk was created and the creation of the machine fails, the disk is
  deleted again, the outcome of that deletion is ignored, and the error of the machine
  creation is the one returned. If both succeed, the UID of the machine is returned
  and nothing is deleted.
\<close>

theorem CreateVM_saga:
  assumes img: "imageName = (if ImageName opts = '''' then cfg_ImageName (config c) else ImageName opts)"
      and net: "networkName =
                  (if NetworkName opts = '''' then cfg_NetworkName (config c) else NetworkName opts)"
      and pn: "pvcName = Name opts @ ''-rootdisk''"
      and disk: "createImagePVC c pvcName imageName (DiskGB opts) w = (disk_result, w1)"
      and vm: "VirtualMachines_Create (buildVM c opts pvcName networkName) w1 = (vm_result, w2)"
      and del: "PersistentVolumeClaims_Delete pvcName w2 = (delete_result, w3)"
  shows "(imageName = '''' \<longrightarrow>
            CreateVM c opts w =
              (Inl (ErrorString ''no image specified and no default image in provider config''), w)) \<and>
         (imageName \<noteq> '''' \<longrightarrow>
           (case disk_result of
              Some err \<Rightarrow>
                CreateVM c opts w = (Inl (WrapError ''failed to create PVC: '' err), w1) \<and>
                trace w1 = trace w @ [PVC_Create pvcName]
            | None \<Rightarrow>
                (case vm_result of
                   Inl err \<Rightarrow>
                     CreateVM c opts w = (Inl (WrapError ''failed to create VM: '' err), w3) \<and>
                     trace w3 = trace w @ [PVC_Create pvcName, VM_Create (Name opts), PVC_Delete pvcName]
                 | Inr created \<Rightarrow>
                     CreateVM c opts w = (Inr (vm_UID created), w2) \<and>
                     trace w2 = trace w @ [PVC_Create pvcName, VM_Create (Name opts)])))"
proof -
  have t1: "trace w1 = trace w @ [PVC_Create pvcName]"
    using createImagePVC_effect [OF disk] by simp
  have t2: "trace w2 = trace w1 @ [VM_Create (Name opts)]"
    using VirtualMachines_Create_effect [OF vm] by (simp add: buildVM_Name)
  have t3: "trace w3 = trace w2 @ [PVC_Delete pvcName]"
    using PersistentVolumeClaims_Delete_effect [OF del] by simp
  show ?thesis
    using img net pn disk vm del t1 t2 t3
    by (auto simp: CreateVM_def Let_def split: option.splits sum.splits)
qed

theorem CreateVM_saga_witness:
  "fst (CreateVM alpha_client alpha_opts
          (world_of (alpha '''' [finalizerName]) [None, Some forbidden, Some unavailable]))
     = Inl (WrapError ''failed to create VM: '' forbidden) \<and>
   trace (snd (CreateVM alpha_client alpha_opts
          (world_of (alpha '''' [finalizerName]) [None, Some forbidden, Some unavailable])))
     = [PVC_Create ''alpha-cp-0-rootdisk'', VM_Create ''alpha-cp-0'', PVC_Delete ''alpha-cp-0-rootdisk'']"
proof -
  let ?w = "world_of (alpha '''' [finalizerName]) [None, Some forbidden, Some unavailable]"
  let ?d = "createImagePVC alpha_client ''alpha-cp-0-rootdisk'' ''default/img1'' (DiskGB alpha_opts) ?w"
  let ?v = "VirtualMachines_Create
              (buildVM alpha_client alpha_opts ''alpha-cp-0-rootdisk'' ''default/vlan1'') (snd ?d)"
  let ?x = "PersistentVolumeClaims_Delete ''alpha-cp-0-rootdisk'' (snd ?v)"
  have d: "fst ?d = None" by code_simp
  have v: "isl (fst ?v) \<and> projl (fst ?v) = forbidden" by code_simp
  then have v': "fst ?v = Inl forbidden" by (cases "fst ?v") auto
  have t: "trace ?w = []" by (simp add: world_of_def)
  have i1: "''default/img1'' =
              (if ImageName alpha_opts = '''' then cfg_ImageName (config alpha_client) else ImageName alpha_opts)"
    by (simp add: alpha_opts_def)
  have i2: "''default/vlan1'' =
              (if NetworkName alpha_opts = '''' then cfg_NetworkName (config alpha_client)
               else NetworkName alpha_opts)"
    by (simp add: alpha_opts_def alpha_client_def alpha_config_def)
  have i3: "''alpha-cp-0-rootdisk'' = Name alpha_opts @ ''-rootdisk''"
    by (simp add: alpha_opts_def)
  have e1: "?d = (fst ?d, snd ?d)" and e2: "?v = (fst ?v, snd ?v)" and e3: "?x = (fst ?x, snd ?x)"
    by simp_all
  have nm: "Name alpha_opts = ''alpha-cp-0''" by (simp add: alpha_opts_def)
  from CreateVM_saga [OF i1 i2 i3 e1 e2 e3]
  show ?thesis
    by (simp add: d v' t nm)
qed

text \<open>
  C1, as the code has it. \<open>DeleteVM\<close> deletes the machine first. When that deletion
  succeeds, the deletion of the disk is issued next, its outcome is ignored (an absent
  disk is not an error) and \<open>DeleteVM\<close> returns no error. When the deletion of the
  machine fails with an error other than NotFound, \<open>DeleteVM\<close> returns that error and
  the deletion of the disk is not issued; the deletion pass then changes nothing more
  and asks for a retry after the short delay.
\<close>

theorem DeleteVM_order:
  assumes vm: "VirtualMachines_Delete name w = (vm_result, w1)"
      and disk: "PersistentVolumeClaims_Delete (name @ ''-rootdisk'') w1 = (disk_result, w2)"
  shows "(vm_result = None \<longrightarrow>
            DeleteVM c name w = (None, w2) \<and>
            trace w2 = trace w @ [VM_Delete name, PVC_Delete (name @ ''-rootdisk'')]) \<and>
         (\<forall>err. vm_result = Some err \<and> \<not> IsNotFound err \<longrightarrow>
            DeleteVM c name w = (Some err, w1) \<and> trace w1 = trace w @ [VM_Delete name] \<and>
            (\<forall>mr. Phase (Status mr) = MachinePhaseDeleting \<and> MachineName (Spec mr) = name \<longrightarrow>
               reconcileDelete mr c w = (Inr \<lparr>Requeue = False, RequeueAfter = requeueShort\<rparr>, w1)) \<and>
            stored w1 = stored w)"
  using assms VirtualMachines_Delete_effect [OF vm] PersistentVolumeClaims_Delete_effect [OF disk]
  by (auto simp: DeleteVM_def reconcileDelete_def Let_def)

theorem DeleteVM_order_witness:
  "fst (DeleteVM alpha_client ''alpha-cp-0'' (provisioned (world_of alpha_running []) reported)) = None \<and>
   trace (snd (DeleteVM alpha_client ''alpha-cp-0'' (provisioned (world_of alpha_running []) reported)))
     = [VM_Delete ''alpha-cp-0'', PVC_Delete ''alpha-cp-0-rootdisk''] \<and>
   \<not> IsNotFound forbidden \<and>
   fst (DeleteVM alpha_client ''alpha-cp-0''
          (provisioned (world_of alpha_running [Some forbidden]) reported)) = Some forbidden \<and>
   trace (snd (DeleteVM alpha_client ''alpha-cp-0''
          (provisioned (world_of alpha_running [Some forbidden]) reported))) = [VM_Delete ''alpha-cp-0'']"
proof -
  let ?w = "provisioned (world_of alpha_running []) reported"
  let ?v = "VirtualMachines_Delete ''alpha-cp-0'' ?w"
  let ?p = "PersistentVolumeClaims_Delete (''alpha-cp-0'' @ ''-rootdisk'') (snd ?v)"
  let ?w' = "provisioned (world_of alpha_running [Some forbidden]) reported"
  let ?v' = "VirtualMachines_Delete ''alpha-cp-0'' ?w'"
  let ?p' = "PersistentVolumeClaims_Delete (''alpha-cp-0'' @ ''-rootdisk'') (snd ?v')"
  have a: "fst ?v = None" by code_simp
  have b: "fst ?v' = Some forbidden" by code_simp
  have n: "\<not> IsNotFound forbidden" by (simp add: IsNotFound_def forbidden_def)
  have t: "trace ?w = []" "trace ?w' = []" by (simp_all add: provisioned_def world_of_def)
  have e: "?v = (fst ?v, snd ?v)" "?p = (fst ?p, snd ?p)" by simp_all
  have e': "?v' = (fst ?v', snd ?v')" "?p' = (fst ?p', snd ?p')" by simp_all
  from DeleteVM_order [OF e, of alpha_client] DeleteVM_order [OF e', of alpha_client] a b n t
  show ?thesis by simp
qed

text \<open>
  The claim as stated fails when the deletion of the machine is refused: the deletion
  of the disk is not issued, the disk is still there, and the error is returned.
\<close>

theorem DeleteVM_skips_disk_counterexample:
  "fst (DeleteVM alpha_client ''alpha-cp-0''
          (provisioned (world_of alpha_running [Some forbidden]) reported)) = Some forbidden \<and>
   PVC_Delete ''alpha-cp-0-rootdisk'' \<notin>
     set (trace (snd (DeleteVM alpha_client ''alpha-cp-0''
          (provisioned (world_of alpha_running [Some forbidden]) reported)))) \<and>
   pvc_exists (snd (DeleteVM alpha_client ''alpha-cp-0''
          (provisioned (world_of alpha_running [Some forbidden]) reported))) ''alpha-cp-0-rootdisk''"
proof -
  let ?r = "DeleteVM alpha_client ''alpha-cp-0'' (provisioned (world_of alpha_running [Some forbidden]) reported)"
  have a: "fst ?r = Some forbidden" by code_simp
  have b: "PVC_Delete ''alpha-cp-0-rootdisk'' \<notin> set (trace (snd ?r))" by code_simp
  have c: "pvc_exists (snd ?r) ''alpha-cp-0-rootdisk''" by code_simp
  from a b c show ?thesis by simp
qed

section \<open>What the record store and the reconciler's helpers change\<close>

lemma Event_fields [simp]:
  "stored (Event t r m w) = stored w"
  "trace (Event t r m w) = trace w"
  "pvcs (Event t r m w) = pvcs w"
  "vms (Event t r m w) = vms w"
  "vmis (Event t r m w) = vmis w"
  "now (Event t r m w) = now w"
  "faults (Event t r m w) = faults w"
  by (simp_all add: Event_def)

lemma Status_Update_effect:
  assumes "Status_Update m w = (r, w1)"
  shows "trace w1 = trace w @ [MR_StatusUpdate] \<and> pvcs w1 = pvcs w \<and> vms w1 = vms w \<and>
         vmis w1 = vmis w \<and> now w1 = now w \<and> events w1 = events w \<and>
         ((\<exists>e. r = Inl e \<and> stored w1 = stored w) \<or>
          (\<exists>old. stored w = Some old \<and> r = Inr (old\<lparr>Status := Status m\<rparr>) \<and>
                 stored w1 = Some (old\<lparr>Status := Status m\<rparr>)))"
proof -
  obtain f w0 where i: "issue MR_StatusUpdate w = (f, w0)" by (cases "issue MR_StatusUpdate w")
  note e = issue_effect [OF i]
  show ?thesis
    using assms i e by (auto simp: Status_Update_def Let_def split: option.splits)
qed

lemma Update_effect:
  assumes "Update m w = (r, w1)"
  shows "trace w1 = trace w @ [MR_Update] \<and> pvcs w1 = pvcs w \<and> vms w1 = vms w \<and>
         vmis w1 = vmis w \<and> now w1 = now w \<and> events w1 = events w \<and>
         ((\<exists>e. r = Inl e \<and> stored w1 = stored w) \<or>
          (\<exists>old. stored w = Some old \<and> r = Inr (m\<lparr>Status := Status old\<rparr>) \<and>
                 stored w1 = Some (m\<lparr>Status := Status old\<rparr>)))"
proof -
  obtain f w0 where i: "issue MR_Update w = (f, w0)" by (cases "issue MR_Update w")
  note e = issue_effect [OF i]
  show ?thesis
    using assms i e by (auto simp: Update_def Let_def split: option.splits)
qed

lemma Get_MachineRequest_effect:
  assumes "Get_MachineRequest w = (r, w1)"
  shows "trace w1 = trace w @ [MR_Get] \<and> pvcs w1 = pvcs w \<and> vms w1 = vms w \<and>
         vmis w1 = vmis w \<and> now w1 = now w \<and> events w1 = events w \<and> stored w1 = stored w \<and>
         ((\<exists>e. r = Inl e) \<or> (\<exists>mr. r = Inr mr \<and> stored w = Some mr))"
proof -
  obtain f w0 where i: "issue MR_Get w = (f, w0)" by (cases "issue MR_Get w")
  note e = issue_effect [OF i]
  show ?thesis
    using assms i e by (auto simp: Get_MachineRequest_def split: option.splits)
qed

lemma Get_ProviderConfig_effect:
  assumes "Get_ProviderConfig ns name w = (r, w1)"
  shows "trace w1 = trace w @ [PC_Get ns name] \<and> pvcs w1 = pvcs w \<and> vms w1 = vms w \<and>
         vmis w1 = vmis w \<and> now w1 = now w \<and> events w1 = events w \<and> stored w1 = stored w"
proof -
  obtain f w0 where i: "issue (PC_Get ns name) w = (f, w0)" by (cases "issue (PC_Get ns name) w")
  note e = issue_effect [OF i]
  show ?thesis
    using assms i e by (auto simp: Get_ProviderConfig_def split: option.splits)
qed

lemma Get_Secret_effect:
  assumes "Get_Secret ns name w = (r, w1)"
  shows "trace w1 = trace w @ [Secret_Get ns name] \<and> pvcs w1 = pvcs w \<and> vms w1 = vms w \<and>
         vmis w1 = vmis w \<and> now w1 = now w \<and> events w1 = events w \<and> stored w1 = stored w"
proof -
  obtain f w0 where i: "issue (Secret_Get ns name) w = (f, w0)"
    by (cases "issue (Secret_Get ns name) w")
  note e = issue_effect [OF i]
  show ?thesis
    using assms i e by (auto simp: Get_Secret_def split: option.splits)
qed

subsection \<open>Steps that create nothing\<close>

lemma creates_nothing_refl: "creates_nothing w w"
  by (simp add: creates_nothing_def)

lemma creates_nothing_trans:
  "creates_nothing w w1 \<Longrightarrow> creates_nothing w1 w2 \<Longrightarrow> creates_nothing w w2"
  by (auto simp: creates_nothing_def)

lemma creates_nothing_call:
  "trace w1 = trace w @ [c] \<Longrightarrow> \<not> is_create c \<Longrightarrow> creates_nothing w w1"
  by (simp add: creates_nothing_def)

lemma creates_nothing_Event: "creates_nothing w w1 \<Longrightarrow> creates_nothing w (Event t r m w1)"
  by (simp add: creates_nothing_def)

lemma creates_nothing_issued:
  "creates_nothing w w' \<Longrightarrow> \<forall>c \<in> set (issued w w'). \<not> is_create c"
  by (auto simp: creates_nothing_def issued_def)

lemma getProviderConfig_effect:
  assumes "getProviderConfig mr w = (r, w1)"
  shows "stored w1 = stored w \<and> now w1 = now w \<and> creates_nothing w w1"
proof -
  let ?ns = "if ProviderRef_Namespace (Spec mr) = '''' then mr_Namespace mr
             else ProviderRef_Namespace (Spec mr)"
  obtain g w0 where g: "Get_ProviderConfig ?ns (ProviderRef_Name (Spec mr)) w = (g, w0)"
    by (cases "Get_ProviderConfig ?ns (ProviderRef_Name (Spec mr)) w")
  note e = Get_ProviderConfig_effect [OF g]
  have "w1 = w0" using assms g by (cases g) (simp_all add: getProviderConfig_def Let_def)
  then show ?thesis using e by (simp add: creates_nothing_call)
qed

lemma createHarvesterClient_effect:
  assumes "createHarvesterClient pc w = (r, w1)"
  shows "stored w1 = stored w \<and> now w1 = now w \<and> creates_nothing w w1"
proof (cases "pc_Harvester pc")
  case None
  with assms show ?thesis by (simp add: createHarvesterClient_def creates_nothing_refl)
next
  case (Some cfg)
  let ?ns = "if CredentialsRef_Namespace pc = '''' then pc_Namespace pc
             else CredentialsRef_Namespace pc"
  obtain g w0 where g: "Get_Secret ?ns (CredentialsRef_Name pc) w = (g, w0)"
    by (cases "Get_Secret ?ns (CredentialsRef_Name pc) w")
  note e = Get_Secret_effect [OF g]
  have "w1 = w0"
    using assms g Some
    by (cases g) (auto simp: createHarvesterClient_def Let_def split: option.splits)
  then show ?thesis using e by (simp add: creates_nothing_call)
qed

lemma Status_Update_creates_nothing:
  "Status_Update m w = (r, w1) \<Longrightarrow> creates_nothing w w1"
  using Status_Update_effect [of m w r w1] by (simp add: creates_nothing_call)

lemma Update_creates_nothing:
  "Update m w = (r, w1) \<Longrightarrow> creates_nothing w w1"
  using Update_effect [of m w r w1] by (simp add: creates_nothing_call)

lemma DeleteVM_creates_nothing:
  assumes "DeleteVM c name w = (r, w1)"
  shows "creates_nothing w w1"
  using DeleteVM_effect [OF assms] by (auto simp: creates_nothing_def)

lemma GetVMStatus_creates_nothing:
  assumes "GetVMStatus c name w = (r, w1)"
  shows "creates_nothing w w1"
  using GetVMStatus_effect [OF assms] by (auto simp: creates_nothing_def)

subsection \<open>Steps that write the status\<close>

lemma status_step_mono: "status_step mr w' Q \<Longrightarrow> Q \<subseteq> Q' \<Longrightarrow> status_step mr w' Q'"
  by (auto simp: status_step_def)

lemma status_step_same: "stored w' = Some mr \<Longrightarrow> status_step mr w' Q"
  by (simp add: status_step_def)

lemma status_step_Event: "status_step mr w' Q \<Longrightarrow> status_step mr (Event t r m w') Q"
  by (simp add: status_step_def)

lemma Status_Update_step:
  assumes u: "Status_Update m w = (r, w')"
      and st: "stored w = Some mr"
      and ph: "Phase (Status m) = Phase (Status mr) \<or> Phase (Status m) \<in> Q"
  shows "status_step mr w' Q"
proof -
  from Status_Update_effect [OF u] st
  have "stored w' = Some mr \<or> stored w' = Some (mr\<lparr>Status := Status m\<rparr>)" by auto
  then show ?thesis
  proof
    assume "stored w' = Some mr"
    then show ?thesis by (rule status_step_same)
  next
    assume "stored w' = Some (mr\<lparr>Status := Status m\<rparr>)"
    then show ?thesis using ph by (simp add: status_step_def)
  qed
qed

lemma updatePhase_step:
  assumes u: "updatePhase mr p w = (r, w')" and st: "stored w = Some mr"
  shows "status_step mr w' {p} \<and> creates_nothing w w'"
proof -
  let ?m = "mr\<lparr>Status := (Status mr)\<lparr>Phase := p, LastUpdated := Some (now w)\<rparr>\<rparr>"
  obtain s w1 where s: "Status_Update ?m w = (s, w1)" by (cases "Status_Update ?m w")
  have w': "w' = w1" using u s by (cases s) (simp_all add: updatePhase_def Let_def)
  have "status_step mr w1 {p}" by (rule Status_Update_step [OF s st]) simp
  then show ?thesis using w' Status_Update_creates_nothing [OF s] by simp
qed

lemma SetFailure_fields [simp]:
  "Phase (Status (SetFailure reason message mr)) = MachinePhaseFailed"
  "FailureReason (Status (SetFailure reason message mr)) = reason"
  "FailureMessage (Status (SetFailure reason message mr)) = message"
  "Conditions (Status (SetFailure reason message mr)) = Conditions (Status mr)"
  "Finalizers (SetFailure reason message mr) = Finalizers mr"
  "Generation (SetFailure reason message mr) = Generation mr"
  by (simp_all add: SetFailure_def)

lemma updateStatusError_step:
  assumes u: "updateStatusError mr reason message w = (r, w')" and st: "stored w = Some mr"
  shows "status_step mr w' {MachinePhaseFailed} \<and> creates_nothing w w'"
proof -
  let ?m1 = "SetFailure reason message mr"
  let ?m = "?m1\<lparr>Status := (Status ?m1)\<lparr>Conditions :=
                  SetStatusCondition (Conditions (Status ?m1)) (now w)
                    \<lparr>cond_Type = ConditionTypeReady,
                     cond_Status = ConditionFalse,
                     cond_Reason = reason,
                     cond_Message = message,
                     cond_ObservedGeneration = Generation ?m1,
                     cond_LastTransitionTime = 0\<rparr>\<rparr>\<rparr>"
  obtain s w1 where s: "Status_Update ?m w = (s, w1)" by (cases "Status_Update ?m w")
  have w': "w' = w1 \<or> w' = Event ''Warning'' reason message w1"
    using u s by (cases s) (simp_all add: updateStatusError_def Let_def)
  have step: "status_step mr w1 {MachinePhaseFailed}"
    by (rule Status_Update_step [OF s st]) simp
  from w' show ?thesis
  proof
    assume "w' = w1"
    then show ?thesis using step Status_Update_creates_nothing [OF s] by simp
  next
    assume "w' = Event ''Warning'' reason message w1"
    then show ?thesis
      using step Status_Update_creates_nothing [OF s]
      by (simp add: status_step_Event creates_nothing_Event)
  qed
qed

lemma CreateVM_effect:
  assumes "CreateVM c opts w = (r, w1)"
  shows "stored w1 = stored w \<and> now w1 = now w \<and> events w1 = events w"
proof -
  let ?img = "if ImageName opts = '''' then cfg_ImageName (config c) else ImageName opts"
  let ?net = "if NetworkName opts = '''' then cfg_NetworkName (config c) else NetworkName opts"
  let ?pvc = "Name opts @ ''-rootdisk''"
  obtain d w' where d: "createImagePVC c ?pvc ?img (DiskGB opts) w = (d, w')"
    by (cases "createImagePVC c ?pvc ?img (DiskGB opts) w")
  obtain v w'' where v: "VirtualMachines_Create (buildVM c opts ?pvc ?net) w' = (v, w'')"
    by (cases "VirtualMachines_Create (buildVM c opts ?pvc ?net) w'")
  obtain x w''' where x: "PersistentVolumeClaims_Delete ?pvc w'' = (x, w''')"
    by (cases "PersistentVolumeClaims_Delete ?pvc w''")
  note e1 = createImagePVC_effect [OF d]
  note e2 = VirtualMachines_Create_effect [OF v]
  note e3 = PersistentVolumeClaims_Delete_effect [OF x]
  have "w1 = w \<or> w1 = w' \<or> w1 = w'' \<or> w1 = w'''"
    using assms d v x
    by (cases d; cases v) (auto simp: CreateVM_def Let_def split: if_splits)
  then show ?thesis using e1 e2 e3 by auto
qed

section \<open>What each phase handler does to the stored record\<close>

lemma phases_distinct [simp]:
  "MachinePhasePending \<noteq> ''''" "MachinePhaseCreating \<noteq> ''''" "MachinePhaseRunning \<noteq> ''''"
  "MachinePhaseFailed \<noteq> ''''" "MachinePhaseDeleting \<noteq> ''''"
  "'''' \<noteq> MachinePhasePending" "'''' \<noteq> MachinePhaseCreating" "'''' \<noteq> MachinePhaseRunning"
  "'''' \<noteq> MachinePhaseFailed" "'''' \<noteq> MachinePhaseDeleting"
  "MachinePhasePending \<noteq> MachinePhaseCreating" "MachinePhasePending \<noteq> MachinePhaseRunning"
  "MachinePhasePending \<noteq> MachinePhaseFailed" "MachinePhasePending \<noteq> MachinePhaseDeleting"
  "MachinePhaseCreating \<noteq> MachinePhasePending" "MachinePhaseCreating \<noteq> MachinePhaseRunning"
  "MachinePhaseCreating \<noteq> MachinePhaseFailed" "MachinePhaseCreating \<noteq> MachinePhaseDeleting"
  "MachinePhaseRunning \<noteq> MachinePhasePending" "MachinePhaseRunning \<noteq> MachinePhaseCreating"
  "MachinePhaseRunning \<noteq> MachinePhaseFailed" "MachinePhaseRunning \<noteq> MachinePhaseDeleting"
  "MachinePhaseFailed \<noteq> MachinePhasePending" "MachinePhaseFailed \<noteq> MachinePhaseCreating"
  "MachinePhaseFailed \<noteq> MachinePhaseRunning" "MachinePhaseFailed \<noteq> MachinePhaseDeleting"
  "MachinePhaseDeleting \<noteq> MachinePhasePending" "MachinePhaseDeleting \<noteq> MachinePhaseCreating"
  "MachinePhaseDeleting \<noteq> MachinePhaseRunning" "MachinePhaseDeleting \<noteq> MachinePhaseFailed"
  by (simp_all add: MachinePhasePending_def MachinePhaseCreating_def MachinePhaseRunning_def
        MachinePhaseFailed_def MachinePhaseDeleting_def)

lemma reconcilePending_step:
  assumes u: "reconcilePending mr hc w = (r, w')" and st: "stored w = Some mr"
  shows "status_step mr w' {MachinePhaseCreating, MachinePhaseFailed}"
proof -
  obtain c w1 where c: "CreateVM hc (createOptions mr) w = (c, w1)"
    by (cases "CreateVM hc (createOptions mr) w")
  from CreateVM_effect [OF c] st have st1: "stored w1 = Some mr" by simp
  show ?thesis
  proof (cases c)
    case (Inl err)
    show ?thesis
    proof (cases "IsAlreadyExists err")
      case True
      with u c Inl have "updatePhase mr MachinePhaseCreating w1 = (r, w')"
        by (simp add: reconcilePending_def Let_def)
      from updatePhase_step [OF this st1] show ?thesis
        by (auto intro: status_step_mono)
    next
      case False
      let ?w = "Event ''Warning'' ''CreateFailed'' (''Failed to create VM: '' @ Error err) w1"
      from False u c Inl have "updateStatusError mr ReasonProviderError (Error err) ?w = (r, w')"
        by (simp add: reconcilePending_def Let_def)
      moreover have "stored ?w = Some mr" using st1 by simp
      ultimately show ?thesis
        using updateStatusError_step by (blast intro: status_step_mono)
    qed
  next
    case (Inr providerID)
    let ?m1 = "mr\<lparr>Status := (Status mr)\<lparr>ProviderID := providerID,
                                          Phase := MachinePhaseCreating,
                                          FailureReason := '''',
                                          FailureMessage := '''',
                                          LastUpdated := Some (now w1),
                                          ObservedGeneration := Generation mr\<rparr>\<rparr>"
    let ?m2 = "?m1\<lparr>Status := (Status ?m1)\<lparr>Conditions :=
                 SetStatusCondition (Conditions (Status ?m1)) (now w1)
                   \<lparr>cond_Type = ConditionTypeProgressing,
                    cond_Status = ConditionTrue,
                    cond_Reason = ReasonCreating,
                    cond_Message = ''VM is being created'',
                    cond_ObservedGeneration = Generation ?m1,
                    cond_LastTransitionTime = 0\<rparr>\<rparr>\<rparr>"
    obtain s w2 where s: "Status_Update ?m2 w1 = (s, w2)" by (cases "Status_Update ?m2 w1")
    have w': "w' = w2 \<or> w' = Event ''Normal'' ''Created'' ''VM creation initiated'' w2"
      using u c Inr s by (cases s) (simp_all add: reconcilePending_def Let_def)
    have "status_step mr w2 {MachinePhaseCreating, MachinePhaseFailed}"
      by (rule Status_Update_step [OF s st1]) simp
    with w' show ?thesis by (auto intro: status_step_Event)
  qed
qed

lemma vm_not_found_eq:
  "GetVMStatus hc (MachineName (Spec mr)) w = ((status, eo), w1) \<Longrightarrow>
     vm_not_found hc mr w = (case eo of Some err \<Rightarrow> IsNotFound err | None \<Rightarrow> False)"
  by (simp add: vm_not_found_def)

lemma reconcileCreating_step:
  assumes u: "reconcileCreating mr hc w = (r, w')" and st: "stored w = Some mr"
  shows "status_step mr w'
           (if vm_not_found hc mr w then {MachinePhasePending} else {MachinePhaseRunning})"
proof -
  obtain status eo w1 where g: "GetVMStatus hc (MachineName (Spec mr)) w = ((status, eo), w1)"
    by (cases "GetVMStatus hc (MachineName (Spec mr)) w") auto
  from GetVMStatus_effect [OF g] st have st1: "stored w1 = Some mr" by simp
  note nf = vm_not_found_eq [OF g]
  show ?thesis
  proof (cases eo)
    case (Some err)
    show ?thesis
    proof (cases "IsNotFound err")
      case True
      with u g Some have "updatePhase mr MachinePhasePending w1 = (r, w')"
        by (simp add: reconcileCreating_def)
      from updatePhase_step [OF this st1] show ?thesis
        using nf Some True by simp
    next
      case False
      with u g Some have "w' = w1" by (simp add: reconcileCreating_def)
      then show ?thesis using st1 by (simp add: status_step_same)
    qed
  next
    case None
    show ?thesis
    proof (cases "vm_IPAddress status \<noteq> ''''")
      case True
      let ?m1 = "mr\<lparr>Status := (Status mr)\<lparr>Phase := MachinePhaseRunning,
                                            IPAddress := vm_IPAddress status,
                                            MACAddress := vm_MACAddress status,
                                            LastUpdated := Some (now w1)\<rparr>\<rparr>"
      let ?m2 = "?m1\<lparr>Status := (Status ?m1)\<lparr>Conditions :=
                   SetStatusCondition (Conditions (Status ?m1)) (now w1)
                     \<lparr>cond_Type = ConditionTypeReady,
                      cond_Status = ConditionTrue,
                      cond_Reason = ReasonRunning,
                      cond_Message = ''VM is running with IP '' @ vm_IPAddress status,
                      cond_ObservedGeneration = Generation ?m1,
                      cond_LastTransitionTime = 0\<rparr>\<rparr>\<rparr>"
      let ?m3 = "?m2\<lparr>Status := (Status ?m2)\<lparr>Conditions :=
                   SetStatusCondition (Conditions (Status ?m2)) (now w1)
                     \<lparr>cond_Type = ConditionTypeProgressing,
                      cond_Status = ConditionFalse,
                      cond_Reason = ReasonRunning,
                      cond_Message = ''VM creation complete'',
                      cond_ObservedGeneration = Generation ?m2,
                      cond_LastTransitionTime = 0\<rparr>\<rparr>\<rparr>"
      obtain s w2 where s: "Status_Update ?m3 w1 = (s, w2)" by (cases "Status_Update ?m3 w1")
      have w': "w' = w2 \<or>
                w' = Event ''Normal'' ''Ready'' (''VM is running with IP '' @ vm_IPAddress status) w2"
        using u g None True s by (cases s) (simp_all add: reconcileCreating_def Let_def)
      have "status_step mr w2 {MachinePhaseRunning}"
        by (rule Status_Update_step [OF s st1]) simp
      with w' have "status_step mr w' {MachinePhaseRunning}" by (auto intro: status_step_Event)
      then show ?thesis using nf None by simp
    next
      case False
      let ?m1 = "mr\<lparr>Status := (Status mr)\<lparr>Conditions :=
                   SetStatusCondition (Conditions (Status mr)) (now w1)
                     \<lparr>cond_Type = ConditionTypeProgressing,
                      cond_Status = ConditionTrue,
                      cond_Reason = ReasonWaitingForIP,
                      cond_Message = ''VM phase: '' @ vm_Phase status @ '', waiting for IP address'',
                      cond_ObservedGeneration = Generation mr,
                      cond_LastTransitionTime = 0\<rparr>\<rparr>\<rparr>"
      obtain s w2 where s: "Status_Update ?m1 w1 = (s, w2)" by (cases "Status_Update ?m1 w1")
      have w': "w' = w2"
        using u g None False s by (cases s) (simp_all add: reconcileCreating_def Let_def)
      have "status_step mr w2 {MachinePhaseRunning}"
        by (rule Status_Update_step [OF s st1]) simp
      with w' show ?thesis using nf None by simp
    qed
  qed
qed

lemma reconcileRunning_step:
  assumes u: "reconcileRunning mr hc w = (r, w')" and st: "stored w = Some mr"
  shows "status_step mr w' (if vm_not_found hc mr w then {MachinePhaseFailed} else {})"
proof -
  obtain status eo w1 where g: "GetVMStatus hc (MachineName (Spec mr)) w = ((status, eo), w1)"
    by (cases "GetVMStatus hc (MachineName (Spec mr)) w") auto
  from GetVMStatus_effect [OF g] st have st1: "stored w1 = Some mr" by simp
  note nf = vm_not_found_eq [OF g]
  show ?thesis
  proof (cases eo)
    case (Some err)
    show ?thesis
    proof (cases "IsNotFound err")
      case True
      let ?m1 = "SetFailure ''VMDeleted'' ''VM was deleted externally'' mr"
      obtain s w2 where s: "Status_Update ?m1 w1 = (s, w2)" by (cases "Status_Update ?m1 w1")
      have w': "w' = w2 \<or> w' = Event ''Warning'' ''VMDeleted'' ''VM was deleted externally'' w2"
        using u g Some True s by (cases s) (simp_all add: reconcileRunning_def Let_def)
      have "status_step mr w2 {MachinePhaseFailed}"
        by (rule Status_Update_step [OF s st1]) simp
      with w' have "status_step mr w' {MachinePhaseFailed}" by (auto intro: status_step_Event)
      then show ?thesis using nf Some True by simp
    next
      case False
      with u g Some have "w' = w1" by (simp add: reconcileRunning_def)
      then show ?thesis using st1 by (simp add: status_step_same)
    qed
  next
    case None
    show ?thesis
    proof (cases "vm_IPAddress status \<noteq> '''' \<and> vm_IPAddress status \<noteq> IPAddress (Status mr)")
      case True
      let ?m1 = "mr\<lparr>Status := (Status mr)\<lparr>IPAddress := vm_IPAddress status,
                                            LastUpdated := Some (now w1)\<rparr>\<rparr>"
      obtain s w2 where s: "Status_Update ?m1 w1 = (s, w2)" by (cases "Status_Update ?m1 w1")
      have w': "w' = w2"
        using u g None True s by (cases s) (simp_all add: reconcileRunning_def Let_def)
      have "status_step mr w2 {}"
        by (rule Status_Update_step [OF s st1]) simp
      with w' show ?thesis by (auto intro: status_step_mono)
    next
      case False
      with u g None have "w' = w1" by (auto simp: reconcileRunning_def)
      then show ?thesis using st1 by (simp add: status_step_same)
    qed
  qed
qed

lemma reconcilePhase_step:
  assumes u: "reconcilePhase mr hc w = (r, w')" and st: "stored w = Some mr"
  shows "status_step mr w' (next_phases (Phase (Status mr)) (vm_not_found hc mr w))"
proof -
  consider (pending) "Phase (Status mr) = '''' \<or> Phase (Status mr) = MachinePhasePending"
    | (creating) "Phase (Status mr) = MachinePhaseCreating"
    | (running) "Phase (Status mr) = MachinePhaseRunning"
    | (failed) "Phase (Status mr) = MachinePhaseFailed"
    | (unknown) "\<not> known_phase (Phase (Status mr))"
    by (auto simp: known_phase_def)
  then show ?thesis
  proof cases
    case pending
    with u have "reconcilePending mr hc w = (r, w')" by (auto simp: reconcilePhase_def)
    from reconcilePending_step [OF this st] pending show ?thesis
      by (auto simp: next_phases_def)
  next
    case creating
    with u have "reconcileCreating mr hc w = (r, w')" by (simp add: reconcilePhase_def)
    from reconcileCreating_step [OF this st] creating show ?thesis
      by (simp add: next_phases_def)
  next
    case running
    with u have "reconcileRunning mr hc w = (r, w')" by (simp add: reconcilePhase_def)
    from reconcileRunning_step [OF this st] running show ?thesis
      by (simp add: next_phases_def)
  next
    case failed
    with u have "w' = w" by (simp add: reconcilePhase_def)
    with st show ?thesis by (simp add: status_step_same)
  next
    case unknown
    with u have "updatePhase mr MachinePhasePending w = (r, w')"
      by (auto simp: reconcilePhase_def known_phase_def)
    from updatePhase_step [OF this st] unknown show ?thesis
      by (auto simp: next_phases_def known_phase_def)
  qed
qed

lemma reconcileDelete_step:
  assumes u: "reconcileDelete mr hc w = (r, w')" and st: "stored w = Some mr"
  shows "(\<exists>mr'. stored w' = Some mr' \<and> set (Finalizers mr') \<subseteq> set (Finalizers mr) \<and>
                (mr' = mr \<or> Phase (Status mr') = MachinePhaseDeleting)) \<and>
         creates_nothing w w'"
proof -
  let ?m = "mr\<lparr>Status := (Status mr)\<lparr>Phase := MachinePhaseDeleting, LastUpdated := Some (now w)\<rparr>\<rparr>"
  let ?pre = "if Phase (Status mr) \<noteq> MachinePhaseDeleting then Status_Update ?m w else (Inr mr, w)"
  obtain s w1 where pre: "?pre = (s, w1)" by (cases ?pre)
  have pre_facts:
    "creates_nothing w w1 \<and>
     ((\<exists>e. s = Inl e \<and> stored w1 = Some mr) \<or>
      (\<exists>m1. s = Inr m1 \<and> stored w1 = Some m1 \<and> Phase (Status m1) = MachinePhaseDeleting \<and>
            Finalizers m1 = Finalizers mr))"
  proof (cases "Phase (Status mr) \<noteq> MachinePhaseDeleting")
    case True
    with pre have su: "Status_Update ?m w = (s, w1)" by simp
    from Status_Update_effect [OF su] st Status_Update_creates_nothing [OF su]
    show ?thesis by auto
  next
    case False
    with pre st show ?thesis by (auto simp: creates_nothing_refl)
  qed
  show ?thesis
  proof (cases s)
    case (Inl e)
    with u pre have "w' = w1" by (simp add: reconcileDelete_def)
    with pre_facts Inl show ?thesis by auto
  next
    case (Inr m1)
    with pre_facts have st1: "stored w1 = Some m1"
      and ph1: "Phase (Status m1) = MachinePhaseDeleting"
      and fin1: "Finalizers m1 = Finalizers mr" and cn1: "creates_nothing w w1"
      by auto
    obtain d w2 where d: "DeleteVM hc (MachineName (Spec m1)) w1 = (d, w2)"
      by (cases "DeleteVM hc (MachineName (Spec m1)) w1")
    from DeleteVM_effect [OF d] st1 have st2: "stored w2 = Some m1" by simp
    have cn2: "creates_nothing w w2"
      using cn1 DeleteVM_creates_nothing [OF d] by (rule creates_nothing_trans)
    show ?thesis
    proof (cases "case d of Some err \<Rightarrow> \<not> IsNotFound err | None \<Rightarrow> False")
      case True
      with u pre Inr d have "w' = w2" by (simp add: reconcileDelete_def)
      with st2 ph1 fin1 cn2 show ?thesis by auto
    next
      case False
      obtain x w3 where x: "Update (RemoveFinalizer m1 finalizerName) w2 = (x, w3)"
        by (cases "Update (RemoveFinalizer m1 finalizerName) w2")
      have w': "w' = w3 \<or> w' = Event ''Normal'' ''Deleted'' ''VM deleted'' w3"
        using u pre Inr d False x by (cases x) (simp_all add: reconcileDelete_def)
      have cn3: "creates_nothing w w3"
        using cn2 Update_creates_nothing [OF x] by (rule creates_nothing_trans)
      from Update_effect [OF x] st2
      have "stored w3 = Some m1 \<or>
            stored w3 = Some ((RemoveFinalizer m1 finalizerName)\<lparr>Status := Status m1\<rparr>)"
        by auto
      then have "\<exists>mr'. stored w3 = Some mr' \<and> set (Finalizers mr') \<subseteq> set (Finalizers mr) \<and>
                     (mr' = mr \<or> Phase (Status mr') = MachinePhaseDeleting)"
        using ph1 fin1 by (auto simp: RemoveFinalizer_def)
      with w' cn3 show ?thesis by (auto intro: creates_nothing_Event)
    qed
  qed
qed

section \<open>One reconciliation pass\<close>

text \<open>
  The five ways a pass over a stored record ends: it leaves early without a write; it
  records a failure of the provider configuration or of the client; it runs the deletion
  path; it adds the finalizer; or it enters the switch on the phase, with the finalizer
  present and no deletion timestamp.
\<close>

lemma Reconcile_cases:
  assumes st: "stored w = Some mr" and u: "Reconcile w = (r, w')"
  shows "(stored w' = Some mr \<and> creates_nothing w w') \<or>
         (status_step mr w' {MachinePhaseFailed} \<and> creates_nothing w w') \<or>
         (\<not> DeletionTimestamp_IsZero mr \<and>
          (\<exists>mr'. stored w' = Some mr' \<and> set (Finalizers mr') \<subseteq> set (Finalizers mr) \<and>
                 (mr' = mr \<or> Phase (Status mr') = MachinePhaseDeleting)) \<and>
          creates_nothing w w') \<or>
         (\<not> ContainsFinalizer mr finalizerName \<and> DeletionTimestamp_IsZero mr \<and>
          creates_nothing w w' \<and>
          (\<exists>w3 x. stored w3 = Some mr \<and> Update (AddFinalizer mr finalizerName) w3 = (x, w') \<and>
                  r = (case x of Inl err \<Rightarrow> Inl err
                       | Inr updated \<Rightarrow> Inr \<lparr>Requeue = True, RequeueAfter = 0\<rparr>))) \<or>
         (ContainsFinalizer mr finalizerName \<and> DeletionTimestamp_IsZero mr \<and>
          (\<exists>hc w3. stored w3 = Some mr \<and> reconcilePhase mr hc w3 = (r, w')))"
proof -
  obtain g w1 where g: "Get_MachineRequest w = (g, w1)" by (cases "Get_MachineRequest w")
  from Get_MachineRequest_effect [OF g] st
  have st1: "stored w1 = Some mr" and cn1: "creates_nothing w w1"
    and g_cases: "(\<exists>e. g = Inl e) \<or> g = Inr mr"
    by (auto simp: creates_nothing_call)
  show ?thesis
  proof (cases g)
    case (Inl e)
    with u g have "w' = w1" by (simp add: Reconcile_def split: if_splits)
    with st1 cn1 show ?thesis by simp
  next
    case (Inr m)
    with g_cases have m: "g = Inr mr" by auto
    obtain p w2 where p: "getProviderConfig mr w1 = (p, w2)" by (cases "getProviderConfig mr w1")
    from getProviderConfig_effect [OF p] st1 cn1
    have st2: "stored w2 = Some mr" and cn2: "creates_nothing w w2"
      by (auto intro: creates_nothing_trans)
    show ?thesis
    proof (cases p)
      case (Inl err)
      with u g m p have "updateStatusError mr ''ProviderConfigError'' (Error err) w2 = (r, w')"
        by (simp add: Reconcile_def)
      from updateStatusError_step [OF this st2] cn2 show ?thesis
        by (auto intro: creates_nothing_trans)
    next
      case (Inr pc)
      note pc = this
      show ?thesis
      proof (cases "pc_Provider pc \<noteq> ProviderTypeHarvester")
        case True
        with u g m p pc have "w' = w2" by (simp add: Reconcile_def)
        with st2 cn2 show ?thesis by simp
      next
        case False
        note harvester = this
        obtain c w3 where c: "createHarvesterClient pc w2 = (c, w3)"
          by (cases "createHarvesterClient pc w2")
        from createHarvesterClient_effect [OF c] st2 cn2
        have st3: "stored w3 = Some mr" and cn3: "creates_nothing w w3"
          by (auto intro: creates_nothing_trans)
        show ?thesis
        proof (cases c)
          case (Inl err)
          with u g m p pc harvester c
          have "updateStatusError mr ''HarvesterClientError'' (Error err) w3 = (r, w')"
            by (simp add: Reconcile_def)
          from updateStatusError_step [OF this st3] cn3 show ?thesis
            by (auto intro: creates_nothing_trans)
        next
          case (Inr hc)
          note hc = this
          show ?thesis
          proof (cases "DeletionTimestamp_IsZero mr")
            case False
            with u g m p pc harvester c hc have "reconcileDelete mr hc w3 = (r, w')"
              by (simp add: Reconcile_def)
            from reconcileDelete_step [OF this st3] cn3 False show ?thesis
              by (auto intro: creates_nothing_trans)
          next
            case True
            note live = this
            show ?thesis
            proof (cases "ContainsFinalizer mr finalizerName")
              case True
              with u g m p pc harvester c hc live have "reconcilePhase mr hc w3 = (r, w')"
                by (simp add: Reconcile_def)
              with True live st3 show ?thesis by blast
            next
              case False
              obtain x w4 where x: "Update (AddFinalizer mr finalizerName) w3 = (x, w4)"
                by (cases "Update (AddFinalizer mr finalizerName) w3")
              have w': "w' = w4"
                and r: "r = (case x of Inl err \<Rightarrow> Inl err
                             | Inr updated \<Rightarrow> Inr \<lparr>Requeue = True, RequeueAfter = 0\<rparr>)"
                using u g m p pc harvester c hc live False x
                by (cases x; simp add: Reconcile_def)+
              have "creates_nothing w w4"
                using cn3 Update_creates_nothing [OF x] by (rule creates_nothing_trans)
              with w' r x st3 False live show ?thesis by blast
            qed
          qed
        qed
      qed
    qed
  qed
qed

lemma AddFinalizer_Status: "(AddFinalizer mr f)\<lparr>Status := Status mr\<rparr> = AddFinalizer mr f"
  by (simp add: AddFinalizer_def)

lemma ContainsFinalizer_AddFinalizer: "ContainsFinalizer (AddFinalizer mr f) f"
  by (simp add: ContainsFinalizer_def AddFinalizer_def)

text \<open>
  What a pass leaves of the stored record: the record unchanged, a status write to one
  of the phases the switch can write, a failure recorded before the switch, the
  deletion path, or the finalizer added.
\<close>

lemma Reconcile_stored:
  assumes st: "stored w = Some mr" and u: "Reconcile w = (r, w')"
  shows "\<exists>mr'. stored w' = Some mr' \<and>
           ((Finalizers mr' = Finalizers mr \<and>
             (Phase (Status mr') = Phase (Status mr) \<or> Phase (Status mr') = MachinePhaseFailed)) \<or>
            (set (Finalizers mr') \<subseteq> set (Finalizers mr) \<and> Phase (Status mr') = MachinePhaseDeleting) \<or>
            (mr' = AddFinalizer mr finalizerName \<and> \<not> ContainsFinalizer mr finalizerName \<and>
             r = Inr \<lparr>Requeue = True, RequeueAfter = 0\<rparr>) \<or>
            (ContainsFinalizer mr finalizerName \<and> Finalizers mr' = Finalizers mr \<and>
             (\<exists>nf. Phase (Status mr') \<in> next_phases (Phase (Status mr)) nf)))"
proof -
  from Reconcile_cases [OF st u]
  consider (early) "stored w' = Some mr"
    | (failure) "status_step mr w' {MachinePhaseFailed}"
    | (deletion) "\<exists>mr'. stored w' = Some mr' \<and> set (Finalizers mr') \<subseteq> set (Finalizers mr) \<and>
                      (mr' = mr \<or> Phase (Status mr') = MachinePhaseDeleting)"
    | (guard) w3 x where "\<not> ContainsFinalizer mr finalizerName" "stored w3 = Some mr"
        "Update (AddFinalizer mr finalizerName) w3 = (x, w')"
        "r = (case x of Inl err \<Rightarrow> Inl err | Inr updated \<Rightarrow> Inr \<lparr>Requeue = True, RequeueAfter = 0\<rparr>)"
    | (switch) hc w3 where "ContainsFinalizer mr finalizerName" "stored w3 = Some mr"
        "reconcilePhase mr hc w3 = (r, w')"
    by blast
  then show ?thesis
  proof cases
    case early
    then show ?thesis by simp
  next
    case failure
    then show ?thesis by (auto simp: status_step_def)
  next
    case deletion
    then show ?thesis by blast
  next
    case guard
    from Update_effect [OF guard(3)] guard(2)
    have "(\<exists>e. x = Inl e \<and> stored w' = Some mr) \<or>
          (\<exists>m. x = Inr m \<and> stored w' = Some (AddFinalizer mr finalizerName))"
      by (auto simp: AddFinalizer_Status)
    then show ?thesis using guard(1,4) by auto
  next
    case switch
    from reconcilePhase_step [OF switch(3,2)] switch(1) show ?thesis
      by (auto simp: status_step_def)
  qed
qed

lemma Reconcile_creates_nothing:
  assumes st: "stored w = Some mr" and u: "Reconcile w = (r, w')"
      and absent: "\<not> ContainsFinalizer mr finalizerName"
  shows "creates_nothing w w'"
  using Reconcile_cases [OF st u] absent by blast

section \<open>The guard token and the order of the phases\<close>

lemma reachable_guarded:
  assumes "reachable mr"
  shows "Phase (Status mr) = MachinePhaseCreating \<or> Phase (Status mr) = MachinePhaseRunning
           \<Longrightarrow> ContainsFinalizer mr finalizerName"
  using assms
proof (induction rule: reachable.induct)
  case (new_record mr)
  then show ?case by simp
next
  case (pass mr w res w' mr')
  from Reconcile_stored [OF pass.hyps(2,3)] pass.hyps(4)
  consider "Finalizers mr' = Finalizers mr"
      "Phase (Status mr') = Phase (Status mr) \<or> Phase (Status mr') = MachinePhaseFailed"
    | "Phase (Status mr') = MachinePhaseDeleting"
    | "mr' = AddFinalizer mr finalizerName"
    | "ContainsFinalizer mr finalizerName" "Finalizers mr' = Finalizers mr"
    by auto
  then show ?case
  proof cases
    case 1
    with pass.prems have "Phase (Status mr) = MachinePhaseCreating \<or> Phase (Status mr) = MachinePhaseRunning"
      by auto
    then have "ContainsFinalizer mr finalizerName" by (rule pass.IH)
    with 1 show ?thesis by (simp add: ContainsFinalizer_def)
  next
    case 2
    with pass.prems show ?thesis by simp
  next
    case 3
    then show ?thesis by (simp add: ContainsFinalizer_AddFinalizer)
  next
    case 4
    then show ?thesis by (simp add: ContainsFinalizer_def)
  qed
next
  case (deletion_intent mr t)
  then show ?case by (simp add: ContainsFinalizer_def)
qed

text \<open>
  C3, as the code has it. A pass that finds the guard token absent issues no call that
  creates a disk or a machine; if the token is on the record after such a pass, the
  pass has stored exactly the record with the token added (the phase untouched) and
  asks for an immediate re-run. Every reachable record in phase Creating or Running
  carries the token. (A failure to resolve the provider configuration or to build the
  client is recorded before the token is looked at, so phase Failed can be reached
  without the token; the deletion path takes the token off as its last step.)
\<close>

theorem guard_token_before_create:
  "(\<forall>w mr r w'. stored w = Some mr \<and> \<not> ContainsFinalizer mr finalizerName \<and> Reconcile w = (r, w') \<longrightarrow>
      (\<forall>c \<in> set (issued w w'). \<not> is_create c) \<and>
      (\<exists>mr'. stored w' = Some mr' \<and>
         (ContainsFinalizer mr' finalizerName \<longrightarrow>
            mr' = AddFinalizer mr finalizerName \<and> Status mr' = Status mr \<and>
            r = Inr \<lparr>Requeue = True, RequeueAfter = 0\<rparr>))) \<and>
   (\<forall>mr. reachable mr \<and>
      (Phase (Status mr) = MachinePhaseCreating \<or> Phase (Status mr) = MachinePhaseRunning) \<longrightarrow>
      ContainsFinalizer mr finalizerName)"
proof (intro conjI allI impI)
  fix w mr r w'
  assume a: "stored w = Some mr \<and> \<not> ContainsFinalizer mr finalizerName \<and> Reconcile w = (r, w')"
  then have st: "stored w = Some mr" and absent: "\<not> ContainsFinalizer mr finalizerName"
    and u: "Reconcile w = (r, w')" by simp_all
  show "\<forall>c \<in> set (issued w w'). \<not> is_create c"
    using Reconcile_creates_nothing [OF st u absent] by (rule creates_nothing_issued)
  from Reconcile_stored [OF st u] absent
  obtain mr' where s': "stored w' = Some mr'"
    and cases: "Finalizers mr' = Finalizers mr \<or> set (Finalizers mr') \<subseteq> set (Finalizers mr) \<or>
                (mr' = AddFinalizer mr finalizerName \<and> r = Inr \<lparr>Requeue = True, RequeueAfter = 0\<rparr>)"
    by auto
  have "ContainsFinalizer mr' finalizerName \<longrightarrow>
          mr' = AddFinalizer mr finalizerName \<and> Status mr' = Status mr \<and>
          r = Inr \<lparr>Requeue = True, RequeueAfter = 0\<rparr>"
    using cases absent by (auto simp: ContainsFinalizer_def AddFinalizer_def)
  with s' show "\<exists>mr'. stored w' = Some mr' \<and>
         (ContainsFinalizer mr' finalizerName \<longrightarrow>
            mr' = AddFinalizer mr finalizerName \<and> Status mr' = Status mr \<and>
            r = Inr \<lparr>Requeue = True, RequeueAfter = 0\<rparr>)"
    by blast
next
  fix mr
  assume "reachable mr \<and>
      (Phase (Status mr) = MachinePhaseCreating \<or> Phase (Status mr) = MachinePhaseRunning)"
  then show "ContainsFinalizer mr finalizerName" using reachable_guarded by blast
qed

lemma reachable_alpha_guarded: "reachable (alpha '''' [finalizerName])"
proof -
  let ?w = "world_of (alpha '''' []) []"
  have a: "reachable (alpha '''' [])" by (rule reachable.new_record) (simp add: alpha_def alpha_status_def)
  have b: "stored ?w = Some (alpha '''' [])" by (simp add: world_of_def)
  have c: "Reconcile ?w = (fst (Reconcile ?w), snd (Reconcile ?w))" by simp
  have d: "stored (snd (Reconcile ?w)) = Some (alpha '''' [finalizerName])" by code_simp
  from a b c d show ?thesis by (rule reachable.pass)
qed

lemma reachable_alpha_creating: "reachable alpha_creating"
proof -
  let ?w = "world_of (alpha '''' [finalizerName]) []"
  have b: "stored ?w = Some (alpha '''' [finalizerName])" by (simp add: world_of_def)
  have c: "Reconcile ?w = (fst (Reconcile ?w), snd (Reconcile ?w))" by simp
  have "stored (snd (Reconcile ?w)) \<noteq> None" by code_simp
  then have d: "stored (snd (Reconcile ?w)) = Some alpha_creating"
    by (auto simp: alpha_creating_def)
  from reachable_alpha_guarded b c d show ?thesis by (rule reachable.pass)
qed

theorem guard_token_before_create_witness:
  "\<not> ContainsFinalizer (alpha '''' []) finalizerName \<and>
   filter is_create (issued (world_of (alpha '''' []) []) (snd (Reconcile (world_of (alpha '''' []) []))))
     = [] \<and>
   stored (snd (Reconcile (world_of (alpha '''' []) []))) = Some (AddFinalizer (alpha '''' []) finalizerName) \<and>
   fst (Reconcile (world_of (alpha '''' []) [])) = Inr \<lparr>Requeue = True, RequeueAfter = 0\<rparr> \<and>
   reachable alpha_creating \<and> Phase (Status alpha_creating) = MachinePhaseCreating \<and>
   ContainsFinalizer alpha_creating finalizerName"
proof -
  let ?w = "world_of (alpha '''' []) []"
  have b: "stored ?w = Some (alpha '''' [])" by (simp add: world_of_def)
  have n: "\<not> ContainsFinalizer (alpha '''' []) finalizerName"
    by (simp add: ContainsFinalizer_def alpha_def)
  have c: "Reconcile ?w = (fst (Reconcile ?w), snd (Reconcile ?w))" by simp
  have d: "stored (snd (Reconcile ?w)) = Some (alpha '''' [finalizerName])" by code_simp
  have e: "ContainsFinalizer (alpha '''' [finalizerName]) finalizerName"
    by (simp add: ContainsFinalizer_def alpha_def)
  have p: "Phase (Status alpha_creating) = MachinePhaseCreating" by code_simp
  note t = guard_token_before_create
  from t b n c have "\<forall>c \<in> set (issued ?w (snd (Reconcile ?w))). \<not> is_create c" by blast
  then have i: "filter is_create (issued ?w (snd (Reconcile ?w))) = []"
    by (simp add: filter_empty_conv)
  from t b n c d e
  have "alpha '''' [finalizerName] = AddFinalizer (alpha '''' []) finalizerName \<and>
        fst (Reconcile ?w) = Inr \<lparr>Requeue = True, RequeueAfter = 0\<rparr>"
    by (metis option.inject)
  moreover from t reachable_alpha_creating p have "ContainsFinalizer alpha_creating finalizerName"
    by blast
  ultimately show ?thesis using n i d p reachable_alpha_creating by simp
qed

text \<open>
  The claim as stated fails: when the provider configuration cannot be read, a pass over
  a new record without the token records the failure, and the record reached has phase
  Failed and no token.
\<close>

theorem failed_without_guard_token_counterexample:
  "reachable alpha_unguarded_failed \<and>
   Phase (Status alpha_unguarded_failed) = MachinePhaseFailed \<and>
   \<not> ContainsFinalizer alpha_unguarded_failed finalizerName"
proof -
  let ?w = "unconfigured (alpha '''' [])"
  have a: "reachable (alpha '''' [])" by (rule reachable.new_record) (simp add: alpha_def alpha_status_def)
  have b: "stored ?w = Some (alpha '''' [])" by (simp add: unconfigured_def world_of_def)
  have c: "Reconcile ?w = (fst (Reconcile ?w), snd (Reconcile ?w))" by simp
  have "stored (snd (Reconcile ?w)) \<noteq> None" by code_simp
  then have d: "stored (snd (Reconcile ?w)) = Some alpha_unguarded_failed"
    by (auto simp: alpha_unguarded_failed_def)
  from a b c d have r: "reachable alpha_unguarded_failed" by (rule reachable.pass)
  have p: "Phase (Status alpha_unguarded_failed) = MachinePhaseFailed" by code_simp
  have f: "\<not> ContainsFinalizer alpha_unguarded_failed finalizerName" by code_simp
  from r p f show ?thesis by simp
qed

lemma next_phases_cases:
  assumes "q \<in> next_phases p nf"
  shows "((p = '''' \<or> p = MachinePhasePending) \<and> (q = MachinePhaseCreating \<or> q = MachinePhaseFailed)) \<or>
         (p = MachinePhaseCreating \<and> nf \<and> q = MachinePhasePending) \<or>
         (p = MachinePhaseCreating \<and> \<not> nf \<and> q = MachinePhaseRunning) \<or>
         (p = MachinePhaseRunning \<and> nf \<and> q = MachinePhaseFailed) \<or>
         (\<not> known_phase p \<and> q = MachinePhasePending)"
  using assms by (auto simp: next_phases_def known_phase_def split: if_splits)

lemma backward_only_from_creating:
  assumes "q = p \<or> q = MachinePhaseFailed \<or> q = MachinePhaseDeleting \<or>
           ((p = '''' \<or> p = MachinePhasePending) \<and> q = MachinePhaseCreating) \<or>
           (p = MachinePhaseCreating \<and> (q = MachinePhaseRunning \<or> q = MachinePhasePending)) \<or>
           (\<not> known_phase p \<and> q = MachinePhasePending)"
      and "moves_backward p q"
  shows "p = MachinePhaseCreating \<and> q = MachinePhasePending"
  using assms
  by (auto simp: moves_backward_def phase_rank_def known_phase_def split: if_splits option.splits)

text \<open>
  C7, as the code has it. A pass changes the phase only in these ways: Pending (or the
  empty phase) to Creating; Creating to Running; Creating back to Pending; an unknown
  phase to Pending; any phase to Failed or to Deleting. So the only move backward along
  Pending, Creating, Running is from Creating to Pending, and the switch on the phase
  makes it only when the status read reports the machine as not found, as it moves
  Running to Failed only then.
\<close>

theorem phase_transitions:
  "(\<forall>w mr r w'. stored w = Some mr \<and> Reconcile w = (r, w') \<longrightarrow>
      (\<exists>mr'. stored w' = Some mr' \<and>
         (Phase (Status mr') = Phase (Status mr) \<or>
          Phase (Status mr') = MachinePhaseFailed \<or>
          Phase (Status mr') = MachinePhaseDeleting \<or>
          ((Phase (Status mr) = '''' \<or> Phase (Status mr) = MachinePhasePending) \<and>
             Phase (Status mr') = MachinePhaseCreating) \<or>
          (Phase (Status mr) = MachinePhaseCreating \<and>
             (Phase (Status mr') = MachinePhaseRunning \<or> Phase (Status mr') = MachinePhasePending)) \<or>
          (\<not> known_phase (Phase (Status mr)) \<and> Phase (Status mr') = MachinePhasePending)) \<and>
         (moves_backward (Phase (Status mr)) (Phase (Status mr')) \<longrightarrow>
            Phase (Status mr) = MachinePhaseCreating \<and> Phase (Status mr') = MachinePhasePending))) \<and>
   (\<forall>w mr hc r w' mr'.
      stored w = Some mr \<and> reconcilePhase mr hc w = (r, w') \<and> stored w' = Some mr' \<longrightarrow>
      (Phase (Status mr) = MachinePhaseCreating \<and> Phase (Status mr') = MachinePhasePending
         \<longrightarrow> vm_not_found hc mr w) \<and>
      (Phase (Status mr) = MachinePhaseRunning \<and> Phase (Status mr') = MachinePhaseFailed
         \<longrightarrow> vm_not_found hc mr w))"
proof (intro conjI allI impI)
  fix w mr r w'
  assume "stored w = Some mr \<and> Reconcile w = (r, w')"
  then have st: "stored w = Some mr" and u: "Reconcile w = (r, w')" by simp_all
  from Reconcile_stored [OF st u] obtain mr' where s': "stored w' = Some mr'"
    and c: "Phase (Status mr') = Phase (Status mr) \<or> Phase (Status mr') = MachinePhaseFailed \<or>
            Phase (Status mr') = MachinePhaseDeleting \<or>
            (\<exists>nf. Phase (Status mr') \<in> next_phases (Phase (Status mr)) nf)"
    by (auto simp: AddFinalizer_def)
  have t: "Phase (Status mr') = Phase (Status mr) \<or>
          Phase (Status mr') = MachinePhaseFailed \<or>
          Phase (Status mr') = MachinePhaseDeleting \<or>
          ((Phase (Status mr) = '''' \<or> Phase (Status mr) = MachinePhasePending) \<and>
             Phase (Status mr') = MachinePhaseCreating) \<or>
          (Phase (Status mr) = MachinePhaseCreating \<and>
             (Phase (Status mr') = MachinePhaseRunning \<or> Phase (Status mr') = MachinePhasePending)) \<or>
          (\<not> known_phase (Phase (Status mr)) \<and> Phase (Status mr') = MachinePhasePending)"
    using c next_phases_cases [of "Phase (Status mr')" "Phase (Status mr)"] by blast
  have "moves_backward (Phase (Status mr)) (Phase (Status mr')) \<longrightarrow>
          Phase (Status mr) = MachinePhaseCreating \<and> Phase (Status mr') = MachinePhasePending"
    using backward_only_from_creating [OF _ _] t by blast
  with s' t show "\<exists>mr'. stored w' = Some mr' \<and>
         (Phase (Status mr') = Phase (Status mr) \<or>
          Phase (Status mr') = MachinePhaseFailed \<or>
          Phase (Status mr') = MachinePhaseDeleting \<or>
          ((Phase (Status mr) = '''' \<or> Phase (Status mr) = MachinePhasePending) \<and>
             Phase (Status mr') = MachinePhaseCreating) \<or>
          (Phase (Status mr) = MachinePhaseCreating \<and>
             (Phase (Status mr') = MachinePhaseRunning \<or> Phase (Status mr') = MachinePhasePending)) \<or>
          (\<not> known_phase (Phase (Status mr)) \<and> Phase (Status mr') = MachinePhasePending)) \<and>
         (moves_backward (Phase (Status mr)) (Phase (Status mr')) \<longrightarrow>
            Phase (Status mr) = MachinePhaseCreating \<and> Phase (Status mr') = MachinePhasePending)"
    by blast
next
  fix w mr hc r w' mr'
  assume a: "stored w = Some mr \<and> reconcilePhase mr hc w = (r, w') \<and> stored w' = Some mr'"
  then have st: "stored w = Some mr" and u: "reconcilePhase mr hc w = (r, w')"
    and s': "stored w' = Some mr'" by simp_all
  from reconcilePhase_step [OF u st] s'
  have c: "Phase (Status mr') = Phase (Status mr) \<or>
           Phase (Status mr') \<in> next_phases (Phase (Status mr)) (vm_not_found hc mr w)"
    by (auto simp: status_step_def)
  show "Phase (Status mr) = MachinePhaseCreating \<and> Phase (Status mr') = MachinePhasePending
          \<Longrightarrow> vm_not_found hc mr w"
    using c by (auto simp: next_phases_def split: if_splits)
  show "Phase (Status mr) = MachinePhaseRunning \<and> Phase (Status mr') = MachinePhaseFailed
          \<Longrightarrow> vm_not_found hc mr w"
    using c by (auto simp: next_phases_def split: if_splits)
qed

theorem phase_transitions_witness:
  "stored (world_of (alpha MachinePhaseCreating [finalizerName]) [])
     = Some (alpha MachinePhaseCreating [finalizerName]) \<and>
   Phase (Status (the (stored (snd (Reconcile (world_of (alpha MachinePhaseCreating [finalizerName]) []))))))
     = MachinePhasePending \<and>
   moves_backward MachinePhaseCreating MachinePhasePending \<and>
   vm_not_found alpha_client (alpha MachinePhaseCreating [finalizerName])
     (world_of (alpha MachinePhaseCreating [finalizerName]) [])"
proof -
  let ?a = "alpha MachinePhaseCreating [finalizerName]"
  let ?w = "world_of ?a []"
  let ?p = "reconcilePhase ?a alpha_client ?w"
  have st: "stored ?w = Some ?a" by (simp add: world_of_def)
  have pa: "Phase (Status ?a) = MachinePhaseCreating" by (simp add: alpha_def alpha_status_def)
  have q: "Phase (Status (the (stored (snd (Reconcile ?w))))) = MachinePhasePending" by code_simp
  have b: "moves_backward MachinePhaseCreating MachinePhasePending" by code_simp
  have e: "?p = (fst ?p, snd ?p)" by simp
  have "stored (snd ?p) \<noteq> None" by code_simp
  then have s': "stored (snd ?p) = Some (the (stored (snd ?p)))" by auto
  have q': "Phase (Status (the (stored (snd ?p)))) = MachinePhasePending" by code_simp
  from phase_transitions st e s' pa q'
  have "vm_not_found alpha_client ?a ?w" by blast
  with st q b show ?thesis by simp
qed

text \<open>
  The claim as stated fails: a record in phase Creating whose machine is not on the
  platform is moved back to Pending by one pass.
\<close>

theorem creating_back_to_pending_counterexample:
  "Phase (Status (alpha MachinePhaseCreating [finalizerName])) = MachinePhaseCreating \<and>
   stored (world_of (alpha MachinePhaseCreating [finalizerName]) [])
     = Some (alpha MachinePhaseCreating [finalizerName]) \<and>
   Phase (Status (the (stored (snd (Reconcile (world_of (alpha MachinePhaseCreating [finalizerName]) []))))))
     = MachinePhasePending \<and>
   moves_backward MachinePhaseCreating MachinePhasePending"
proof -
  let ?a = "alpha MachinePhaseCreating [finalizerName]"
  have a: "Phase (Status ?a) = MachinePhaseCreating" by (simp add: alpha_def alpha_status_def)
  have b: "stored (world_of ?a []) = Some ?a" by (simp add: world_of_def)
  have c: "Phase (Status (the (stored (snd (Reconcile (world_of ?a [])))))) = MachinePhasePending"
    by code_simp
  have d: "moves_backward MachinePhaseCreating MachinePhasePending" by code_simp
  from a b c d show ?thesis by simp
qed

section \<open>Phase Running: drift and external deletion\<close>

text \<open>
  C10. In phase Running, after a status read without error: when the observed address
  is not empty and differs from the recorded one, exactly one status write is issued,
  and the record stored afterwards is the old one (the write failed and its error is
  returned) or the old one with only the address and the last-updated time replaced, so
  the recorded hardware address, provider identifier, phase and conditions are as
  before whatever hardware address was observed; when the observed address is empty or
  equal to the recorded one, nothing is written and no status write is issued.
\<close>

theorem reconcileRunning_drift:
  assumes g: "GetVMStatus hc (MachineName (Spec mr)) w = ((status, None), w1)"
      and st: "stored w = Some mr"
      and u: "reconcileRunning mr hc w = (r, w')"
  shows "(vm_IPAddress status \<noteq> '''' \<and> vm_IPAddress status \<noteq> IPAddress (Status mr) \<longrightarrow>
            issued w1 w' = [MR_StatusUpdate] \<and>
            (\<exists>mr'. stored w' = Some mr' \<and>
               ((mr' = mr \<and> (\<exists>e. r = Inl e)) \<or>
                (mr' = mr\<lparr>Status := (Status mr)\<lparr>IPAddress := vm_IPAddress status,
                                                  LastUpdated := Some (now w1)\<rparr>\<rparr> \<and>
                 r = Inr \<lparr>Requeue = False, RequeueAfter = requeueLong\<rparr>)) \<and>
               MACAddress (Status mr') = MACAddress (Status mr) \<and>
               ProviderID (Status mr') = ProviderID (Status mr) \<and>
               Phase (Status mr') = Phase (Status mr) \<and>
               Conditions (Status mr') = Conditions (Status mr))) \<and>
         (vm_IPAddress status = '''' \<or> vm_IPAddress status = IPAddress (Status mr) \<longrightarrow>
            r = Inr \<lparr>Requeue = False, RequeueAfter = requeueLong\<rparr> \<and> w' = w1 \<and>
            stored w' = Some mr \<and> MR_StatusUpdate \<notin> set (issued w w'))"
proof -
  from GetVMStatus_effect [OF g] st
  have st1: "stored w1 = Some mr"
    and tr: "trace w1 = trace w @ [VM_Get (MachineName (Spec mr))] \<or>
             trace w1 = trace w @ [VM_Get (MachineName (Spec mr)), VMI_Get (MachineName (Spec mr))]"
    by simp_all
  show ?thesis
  proof (cases "vm_IPAddress status \<noteq> '''' \<and> vm_IPAddress status \<noteq> IPAddress (Status mr)")
    case True
    let ?m = "mr\<lparr>Status := (Status mr)\<lparr>IPAddress := vm_IPAddress status,
                                         LastUpdated := Some (now w1)\<rparr>\<rparr>"
    obtain s w2 where s: "Status_Update ?m w1 = (s, w2)" by (cases "Status_Update ?m w1")
    have w': "w' = w2"
      using u g True s by (cases s) (simp_all add: reconcileRunning_def Let_def)
    have r: "r = (case s of Inl e \<Rightarrow> Inl e
                  | Inr m \<Rightarrow> Inr \<lparr>Requeue = False, RequeueAfter = requeueLong\<rparr>)"
      using u g True s by (cases s) (simp_all add: reconcileRunning_def Let_def)
    note e = Status_Update_effect [OF s]
    from e have i: "issued w1 w' = [MR_StatusUpdate]" using w' by (simp add: issued_append)
    from e st1 have "(\<exists>e. s = Inl e \<and> stored w2 = Some mr) \<or>
                     (s = Inr ?m \<and> stored w2 = Some ?m)"
      by auto
    then have "(stored w' = Some mr \<and> (\<exists>e. r = Inl e)) \<or>
               (stored w' = Some ?m \<and> r = Inr \<lparr>Requeue = False, RequeueAfter = requeueLong\<rparr>)"
      using r w' by auto
    then show ?thesis using True i by auto
  next
    case False
    then have w': "w' = w1" and r: "r = Inr \<lparr>Requeue = False, RequeueAfter = requeueLong\<rparr>"
      using u g by (auto simp: reconcileRunning_def)
    from tr have "MR_StatusUpdate \<notin> set (issued w w1)"
      by (auto simp: issued_append)
    with False w' r st1 show ?thesis by auto
  qed
qed

lemma drifted_read:
  "GetVMStatus alpha_client (MachineName (Spec alpha_running)) drifted =
     ((fst (fst (GetVMStatus alpha_client (MachineName (Spec alpha_running)) drifted)), None),
      snd (GetVMStatus alpha_client (MachineName (Spec alpha_running)) drifted))"
proof -
  have "snd (fst (GetVMStatus alpha_client (MachineName (Spec alpha_running)) drifted)) = None"
    by code_simp
  then show ?thesis by (metis prod.collapse)
qed

lemma steady_read:
  "GetVMStatus alpha_client (MachineName (Spec alpha_running)) steady =
     ((fst (fst (GetVMStatus alpha_client (MachineName (Spec alpha_running)) steady)), None),
      snd (GetVMStatus alpha_client (MachineName (Spec alpha_running)) steady))"
proof -
  have "snd (fst (GetVMStatus alpha_client (MachineName (Spec alpha_running)) steady)) = None"
    by code_simp
  then show ?thesis by (metis prod.collapse)
qed

theorem reconcileRunning_drift_witness:
  "vm_IPAddress (fst (fst (GetVMStatus alpha_client (MachineName (Spec alpha_running)) drifted)))
     = ''10.0.0.7'' \<and>
   vm_MACAddress (fst (fst (GetVMStatus alpha_client (MachineName (Spec alpha_running)) drifted)))
     = ''52:54:00:00:00:03'' \<and>
   IPAddress (Status alpha_running) = ''10.0.0.9'' \<and>
   IPAddress (Status (the (stored (snd (reconcileRunning alpha_running alpha_client drifted)))))
     = ''10.0.0.7'' \<and>
   MACAddress (Status (the (stored (snd (reconcileRunning alpha_running alpha_client drifted)))))
     = ''aa:bb:cc'' \<and>
   Conditions (Status (the (stored (snd (reconcileRunning alpha_running alpha_client drifted)))))
     = [ready_condition] \<and>
   vm_IPAddress (fst (fst (GetVMStatus alpha_client (MachineName (Spec alpha_running)) steady)))
     = ''10.0.0.9'' \<and>
   vm_MACAddress (fst (fst (GetVMStatus alpha_client (MachineName (Spec alpha_running)) steady)))
     = ''52:54:00:00:00:03'' \<and>
   stored (snd (reconcileRunning alpha_running alpha_client steady)) = Some alpha_running \<and>
   MR_StatusUpdate \<notin> set (issued steady (snd (reconcileRunning alpha_running alpha_client steady)))"
proof -
  let ?n = "MachineName (Spec alpha_running)"
  let ?gd = "GetVMStatus alpha_client ?n drifted"
  let ?gs = "GetVMStatus alpha_client ?n steady"
  let ?rd = "reconcileRunning alpha_running alpha_client drifted"
  let ?rs = "reconcileRunning alpha_running alpha_client steady"
  have std: "stored drifted = Some alpha_running"
    by (simp add: drifted_def provisioned_def world_of_def)
  have sts: "stored steady = Some alpha_running"
    by (simp add: steady_def provisioned_def world_of_def)
  have ud: "?rd = (fst ?rd, snd ?rd)" and us: "?rs = (fst ?rs, snd ?rs)" by simp_all
  have ipd: "vm_IPAddress (fst (fst ?gd)) = ''10.0.0.7''" by code_simp
  have macd: "vm_MACAddress (fst (fst ?gd)) = ''52:54:00:00:00:03''" by code_simp
  have ips: "vm_IPAddress (fst (fst ?gs)) = ''10.0.0.9''" by code_simp
  have macs: "vm_MACAddress (fst (fst ?gs)) = ''52:54:00:00:00:03''" by code_simp
  have rec: "IPAddress (Status alpha_running) = ''10.0.0.9''"
    "MACAddress (Status alpha_running) = ''aa:bb:cc''"
    "Conditions (Status alpha_running) = [ready_condition]"
    by (simp_all add: alpha_running_def)
  have ok: "\<not> isl (fst ?rd)" by code_simp
  note d = reconcileRunning_drift [OF drifted_read std ud]
  from d ipd rec(1) obtain mr' where m: "stored (snd ?rd) = Some mr'"
    and c: "(mr' = alpha_running \<and> (\<exists>e. fst ?rd = Inl e)) \<or>
            (mr' = alpha_running\<lparr>Status := (Status alpha_running)
                     \<lparr>IPAddress := vm_IPAddress (fst (fst ?gd)),
                      LastUpdated := Some (now (snd ?gd))\<rparr>\<rparr> \<and>
             fst ?rd = Inr \<lparr>Requeue = False, RequeueAfter = requeueLong\<rparr>)"
    and f: "MACAddress (Status mr') = MACAddress (Status alpha_running)"
           "Conditions (Status mr') = Conditions (Status alpha_running)"
    by auto
  from c ok have "IPAddress (Status mr') = vm_IPAddress (fst (fst ?gd))" by auto
  with m f ipd rec have dd:
    "IPAddress (Status (the (stored (snd ?rd)))) = ''10.0.0.7''"
    "MACAddress (Status (the (stored (snd ?rd)))) = ''aa:bb:cc''"
    "Conditions (Status (the (stored (snd ?rd)))) = [ready_condition]"
    by simp_all
  note s = reconcileRunning_drift [OF steady_read sts us]
  from ips rec(1)
  have eq: "vm_IPAddress (fst (fst ?gs)) = '''' \<or>
            vm_IPAddress (fst (fst ?gs)) = IPAddress (Status alpha_running)"
    by simp
  from s eq
  have ss: "stored (snd ?rs) = Some alpha_running \<and>
            MR_StatusUpdate \<notin> set (issued steady (snd ?rs))"
    by blast
  from ipd macd rec(1) dd ips macs ss show ?thesis by simp
qed

section \<open>Failures recorded on the record\<close>

lemma FindStatusCondition_append_new:
  "FindStatusCondition cs (cond_Type x) = None \<Longrightarrow>
     FindStatusCondition (cs @ [x]) (cond_Type x) = Some x"
  by (induction cs) (simp_all split: if_splits)

lemma FindStatusCondition_replace:
  "FindStatusCondition cs (cond_Type n) = Some e \<Longrightarrow>
     \<exists>c. FindStatusCondition (replace_condition cs tm n) (cond_Type n) = Some c \<and>
         cond_Status c = cond_Status n"
  by (induction cs) (auto split: if_splits)

lemma SetStatusCondition_status:
  "\<exists>c. FindStatusCondition (SetStatusCondition cs tm n) (cond_Type n) = Some c \<and>
       cond_Status c = cond_Status n"
proof (cases "FindStatusCondition cs (cond_Type n)")
  case None
  let ?x = "if cond_LastTransitionTime n = 0 then n\<lparr>cond_LastTransitionTime := tm\<rparr> else n"
  have t: "cond_Type ?x = cond_Type n" and s: "cond_Status ?x = cond_Status n" by simp_all
  from None t have "FindStatusCondition (cs @ [?x]) (cond_Type ?x) = Some ?x"
    by (intro FindStatusCondition_append_new) simp
  with None t s show ?thesis by (simp add: SetStatusCondition_def)
next
  case (Some e)
  from FindStatusCondition_replace [OF Some] Some show ?thesis
    by (simp add: SetStatusCondition_def)
qed

lemma SetStatusCondition_False:
  "IsStatusConditionFalse
     (SetStatusCondition cs tm
        \<lparr>cond_Type = t, cond_Status = ConditionFalse, cond_Reason = r, cond_Message = m,
         cond_ObservedGeneration = g, cond_LastTransitionTime = l\<rparr>) t"
  using SetStatusCondition_status
          [of cs tm "\<lparr>cond_Type = t, cond_Status = ConditionFalse, cond_Reason = r,
                      cond_Message = m, cond_ObservedGeneration = g,
                      cond_LastTransitionTime = l\<rparr>"]
  by (auto simp: IsStatusConditionFalse_def)

text \<open>
  What \<open>updateStatusError\<close> leaves on the record: the old record when the status
  write failed, else phase Failed with the reason and message and the condition Ready
  set to False, and no retry requested.
\<close>

lemma updateStatusError_stored:
  assumes u: "updateStatusError mr reason message w = (r, w')" and st: "stored w = Some mr"
  shows "\<exists>mr'. stored w' = Some mr' \<and>
           ((mr' = mr \<and> (\<exists>e. r = Inl e)) \<or>
            (r = Inr Result_zero \<and> Phase (Status mr') = MachinePhaseFailed \<and>
             FailureReason (Status mr') = reason \<and> FailureMessage (Status mr') = message \<and>
             IsStatusConditionFalse (Conditions (Status mr')) ConditionTypeReady))"
proof -
  let ?m1 = "SetFailure reason message mr"
  let ?m = "?m1\<lparr>Status := (Status ?m1)\<lparr>Conditions :=
                  SetStatusCondition (Conditions (Status ?m1)) (now w)
                    \<lparr>cond_Type = ConditionTypeReady,
                     cond_Status = ConditionFalse,
                     cond_Reason = reason,
                     cond_Message = message,
                     cond_ObservedGeneration = Generation ?m1,
                     cond_LastTransitionTime = 0\<rparr>\<rparr>\<rparr>"
  obtain s w1 where s: "Status_Update ?m w = (s, w1)" by (cases "Status_Update ?m w")
  have w': "stored w' = stored w1"
    using u s by (cases s) (auto simp: updateStatusError_def Let_def)
  have r: "r = (case s of Inl e \<Rightarrow> Inl e | Inr m \<Rightarrow> Inr Result_zero)"
    using u s by (cases s) (auto simp: updateStatusError_def Let_def)
  from Status_Update_effect [OF s] st
  have "(\<exists>e. s = Inl e \<and> stored w1 = Some mr) \<or>
        ((\<exists>m. s = Inr m) \<and> stored w1 = Some (mr\<lparr>Status := Status ?m\<rparr>))"
    by auto
  then show ?thesis
  proof
    assume "\<exists>e. s = Inl e \<and> stored w1 = Some mr"
    with w' r show ?thesis by auto
  next
    assume a: "(\<exists>m. s = Inr m) \<and> stored w1 = Some (mr\<lparr>Status := Status ?m\<rparr>)"
    have "IsStatusConditionFalse (Conditions (Status (mr\<lparr>Status := Status ?m\<rparr>))) ConditionTypeReady"
      by (simp add: SetStatusCondition_False)
    moreover have "Phase (Status (mr\<lparr>Status := Status ?m\<rparr>)) = MachinePhaseFailed"
      "FailureReason (Status (mr\<lparr>Status := Status ?m\<rparr>)) = reason"
      "FailureMessage (Status (mr\<lparr>Status := Status ?m\<rparr>)) = message"
      by simp_all
    ultimately show ?thesis using a w' r by auto
  qed
qed

text \<open>
  C8. In phase Running, when the status read reports the machine as not found, the pass
  writes exactly what \<open>SetFailure\<close> leaves: phase Failed with the reason
  \<^verbatim>\<open>VMDeleted\<close>; it does not set a condition, as \<open>updateStatusError\<close> does after
  the same call, so the conditions of the record are as before and a record that was
  Ready stays Ready. A pass over a record in phase Failed changes nothing.
\<close>

theorem reconcileRunning_vm_deleted:
  "(\<forall>mr hc w status err w1 r w'.
      GetVMStatus hc (MachineName (Spec mr)) w = ((status, Some err), w1) \<and> IsNotFound err \<and>
      stored w = Some mr \<and> reconcileRunning mr hc w = (r, w') \<longrightarrow>
      (\<exists>mr'. stored w' = Some mr' \<and>
         ((mr' = mr \<and> (\<exists>e. r = Inl e)) \<or>
          (mr' = SetFailure ''VMDeleted'' ''VM was deleted externally'' mr \<and>
           r = Inr Result_zero \<and> Phase (Status mr') = MachinePhaseFailed \<and>
           FailureReason (Status mr') = ''VMDeleted'')) \<and>
         Conditions (Status mr') = Conditions (Status mr))) \<and>
   (\<forall>mr hc w. Phase (Status mr) = MachinePhaseFailed \<longrightarrow>
      reconcilePhase mr hc w = (Inr Result_zero, w))"
proof (intro conjI allI impI)
  fix mr hc w status err w1 r w'
  assume a: "GetVMStatus hc (MachineName (Spec mr)) w = ((status, Some err), w1) \<and> IsNotFound err \<and>
             stored w = Some mr \<and> reconcileRunning mr hc w = (r, w')"
  then have g: "GetVMStatus hc (MachineName (Spec mr)) w = ((status, Some err), w1)"
    and nf: "IsNotFound err" and st: "stored w = Some mr"
    and u: "reconcileRunning mr hc w = (r, w')" by simp_all
  let ?m = "SetFailure ''VMDeleted'' ''VM was deleted externally'' mr"
  from GetVMStatus_effect [OF g] st have st1: "stored w1 = Some mr" by simp
  obtain s w2 where s: "Status_Update ?m w1 = (s, w2)" by (cases "Status_Update ?m w1")
  have w': "stored w' = stored w2"
    using u g nf s by (cases s) (auto simp: reconcileRunning_def Let_def)
  have r: "r = (case s of Inl e \<Rightarrow> Inl e | Inr m \<Rightarrow> Inr Result_zero)"
    using u g nf s by (cases s) (auto simp: reconcileRunning_def Let_def)
  have m: "mr\<lparr>Status := Status ?m\<rparr> = ?m" by (simp add: SetFailure_def)
  from Status_Update_effect [OF s] st1 m
  have "(\<exists>e. s = Inl e \<and> stored w2 = Some mr) \<or> ((\<exists>x. s = Inr x) \<and> stored w2 = Some ?m)"
    by auto
  then have "(stored w' = Some mr \<and> (\<exists>e. r = Inl e)) \<or>
             (stored w' = Some ?m \<and> r = Inr Result_zero)"
    using w' r by auto
  then show "\<exists>mr'. stored w' = Some mr' \<and>
         ((mr' = mr \<and> (\<exists>e. r = Inl e)) \<or>
          (mr' = ?m \<and> r = Inr Result_zero \<and> Phase (Status mr') = MachinePhaseFailed \<and>
           FailureReason (Status mr') = ''VMDeleted'')) \<and>
         Conditions (Status mr') = Conditions (Status mr)"
    by auto
next
  fix mr :: MachineRequest and hc w
  assume "Phase (Status mr) = MachinePhaseFailed"
  then show "reconcilePhase mr hc w = (Inr Result_zero, w)"
    by (simp add: reconcilePhase_def)
qed

lemma vanished_read:
  "GetVMStatus alpha_client (MachineName (Spec alpha_running)) vanished =
     ((fst (fst (GetVMStatus alpha_client (MachineName (Spec alpha_running)) vanished)),
       Some (the (snd (fst (GetVMStatus alpha_client (MachineName (Spec alpha_running)) vanished))))),
      snd (GetVMStatus alpha_client (MachineName (Spec alpha_running)) vanished))"
proof -
  have "snd (fst (GetVMStatus alpha_client (MachineName (Spec alpha_running)) vanished)) \<noteq> None"
    by code_simp
  then show ?thesis by (metis option.collapse prod.collapse)
qed

theorem reconcileRunning_vm_deleted_witness:
  "stored vanished = Some alpha_running \<and>
   Phase (Status alpha_running) = MachinePhaseRunning \<and>
   IsStatusConditionTrue (Conditions (Status alpha_running)) ConditionTypeReady \<and>
   IsNotFound (the (snd (fst (GetVMStatus alpha_client (MachineName (Spec alpha_running)) vanished)))) \<and>
   Phase (Status (the (stored (snd (reconcileRunning alpha_running alpha_client vanished)))))
     = MachinePhaseFailed \<and>
   FailureReason (Status (the (stored (snd (reconcileRunning alpha_running alpha_client vanished)))))
     = ''VMDeleted'' \<and>
   IsStatusConditionTrue
     (Conditions (Status (the (stored (snd (reconcileRunning alpha_running alpha_client vanished))))))
     ConditionTypeReady \<and>
   \<not> IsStatusConditionFalse
     (Conditions (Status (the (stored (snd (reconcileRunning alpha_running alpha_client vanished))))))
     ConditionTypeReady \<and>
   reconcilePhase (the (stored (snd (reconcileRunning alpha_running alpha_client vanished))))
     alpha_client (snd (reconcileRunning alpha_running alpha_client vanished))
     = (Inr Result_zero, snd (reconcileRunning alpha_running alpha_client vanished)) \<and>
   Phase (Status (the (stored (snd (Reconcile vanished))))) = MachinePhaseFailed \<and>
   IsStatusConditionTrue (Conditions (Status (the (stored (snd (Reconcile vanished))))))
     ConditionTypeReady"
proof -
  let ?g = "GetVMStatus alpha_client (MachineName (Spec alpha_running)) vanished"
  let ?r = "reconcileRunning alpha_running alpha_client vanished"
  have st: "stored vanished = Some alpha_running" by (simp add: vanished_def world_of_def)
  have ph: "Phase (Status alpha_running) = MachinePhaseRunning"
    by (simp add: alpha_running_def alpha_status_def)
  have cs: "Conditions (Status alpha_running) = [ready_condition]" by (simp add: alpha_running_def)
  have rdy: "IsStatusConditionTrue [ready_condition] ConditionTypeReady"
    "\<not> IsStatusConditionFalse [ready_condition] ConditionTypeReady"
    by (simp_all add: IsStatusConditionTrue_def IsStatusConditionFalse_def ready_condition_def)
  have nf: "IsNotFound (the (snd (fst ?g)))" by code_simp
  have u: "?r = (fst ?r, snd ?r)" by simp
  have ok: "\<not> isl (fst ?r)" by code_simp
  note t = reconcileRunning_vm_deleted
  from t vanished_read nf st u
  obtain mr' where m: "stored (snd ?r) = Some mr'"
    and c: "(mr' = alpha_running \<and> (\<exists>e. fst ?r = Inl e)) \<or>
            (mr' = SetFailure ''VMDeleted'' ''VM was deleted externally'' alpha_running \<and>
             fst ?r = Inr Result_zero \<and> Phase (Status mr') = MachinePhaseFailed \<and>
             FailureReason (Status mr') = ''VMDeleted'')"
    and k: "Conditions (Status mr') = Conditions (Status alpha_running)"
    by blast
  from c ok have f: "Phase (Status mr') = MachinePhaseFailed" "FailureReason (Status mr') = ''VMDeleted''"
    by auto
  from t f(1) have fin: "reconcilePhase mr' alpha_client (snd ?r) = (Inr Result_zero, snd ?r)"
    by blast
  have whole: "Phase (Status (the (stored (snd (Reconcile vanished))))) = MachinePhaseFailed"
    "IsStatusConditionTrue (Conditions (Status (the (stored (snd (Reconcile vanished))))))
       ConditionTypeReady"
    by code_simp+
  from st ph cs rdy nf m f k fin whole show ?thesis by simp
qed

section \<open>Errors of the platform calls\<close>

text \<open>
  C2, as the code has it. The reconciler classifies an error of a platform call only as
  NotFound, AlreadyExists or anything else. An error of the status read other than
  NotFound changes nothing on the record: in phase Creating the pass asks for a retry at
  the short delay, in phase Running at the long delay. An error of the create call in
  phase Pending other than AlreadyExists, transient or permanent alike, is recorded: the
  phase becomes Failed with the reason \<^verbatim>\<open>ProviderError\<close>, the error text as message
  and the condition Ready set to False, and no retry is requested (unless the status
  write itself fails, whose error is returned with the record unchanged).
\<close>

theorem platform_error_handling:
  "(\<forall>mr hc w status err w1.
      GetVMStatus hc (MachineName (Spec mr)) w = ((status, Some err), w1) \<and> \<not> IsNotFound err \<longrightarrow>
      reconcileCreating mr hc w = (Inr \<lparr>Requeue = False, RequeueAfter = requeueShort\<rparr>, w1) \<and>
      reconcileRunning mr hc w = (Inr \<lparr>Requeue = False, RequeueAfter = requeueLong\<rparr>, w1) \<and>
      stored w1 = stored w) \<and>
   (\<forall>mr hc w err w1 r w'.
      CreateVM hc (createOptions mr) w = (Inl err, w1) \<and> \<not> IsAlreadyExists err \<and>
      stored w = Some mr \<and> reconcilePending mr hc w = (r, w') \<longrightarrow>
      (\<exists>mr'. stored w' = Some mr' \<and>
         ((mr' = mr \<and> (\<exists>e. r = Inl e)) \<or>
          (r = Inr Result_zero \<and> Phase (Status mr') = MachinePhaseFailed \<and>
           FailureReason (Status mr') = ReasonProviderError \<and>
           FailureMessage (Status mr') = Error err \<and>
           IsStatusConditionFalse (Conditions (Status mr')) ConditionTypeReady))))"
proof (intro conjI allI impI)
  fix mr :: MachineRequest and hc w status err w1
  assume a: "GetVMStatus hc (MachineName (Spec mr)) w = ((status, Some err), w1) \<and> \<not> IsNotFound err"
  then show "reconcileCreating mr hc w = (Inr \<lparr>Requeue = False, RequeueAfter = requeueShort\<rparr>, w1)"
    by (simp add: reconcileCreating_def)
  from a show "reconcileRunning mr hc w = (Inr \<lparr>Requeue = False, RequeueAfter = requeueLong\<rparr>, w1)"
    by (simp add: reconcileRunning_def)
  from a have "GetVMStatus hc (MachineName (Spec mr)) w = ((status, Some err), w1)" by simp
  from GetVMStatus_effect [OF this] show "stored w1 = stored w" by simp
next
  fix mr hc w err w1 r w'
  assume a: "CreateVM hc (createOptions mr) w = (Inl err, w1) \<and> \<not> IsAlreadyExists err \<and>
             stored w = Some mr \<and> reconcilePending mr hc w = (r, w')"
  then have c: "CreateVM hc (createOptions mr) w = (Inl err, w1)"
    and ne: "\<not> IsAlreadyExists err" and st: "stored w = Some mr"
    and u: "reconcilePending mr hc w = (r, w')" by simp_all
  let ?w = "Event ''Warning'' ''CreateFailed'' (''Failed to create VM: '' @ Error err) w1"
  from CreateVM_effect [OF c] st have st1: "stored ?w = Some mr" by simp
  from u c ne have "updateStatusError mr ReasonProviderError (Error err) ?w = (r, w')"
    by (simp add: reconcilePending_def Let_def)
  from updateStatusError_stored [OF this st1]
  show "\<exists>mr'. stored w' = Some mr' \<and>
         ((mr' = mr \<and> (\<exists>e. r = Inl e)) \<or>
          (r = Inr Result_zero \<and> Phase (Status mr') = MachinePhaseFailed \<and>
           FailureReason (Status mr') = ReasonProviderError \<and>
           FailureMessage (Status mr') = Error err \<and>
           IsStatusConditionFalse (Conditions (Status mr')) ConditionTypeReady))" .
qed

lemma flaky_read_status:
  "GetVMStatus alpha_client (MachineName (Spec (alpha MachinePhaseCreating [finalizerName]))) flaky_read =
     ((fst (fst (GetVMStatus alpha_client
                   (MachineName (Spec (alpha MachinePhaseCreating [finalizerName]))) flaky_read)),
       Some unavailable),
      snd (GetVMStatus alpha_client
             (MachineName (Spec (alpha MachinePhaseCreating [finalizerName]))) flaky_read))"
proof -
  have "snd (fst (GetVMStatus alpha_client
                    (MachineName (Spec (alpha MachinePhaseCreating [finalizerName]))) flaky_read))
          = Some unavailable"
    by code_simp
  then show ?thesis by (metis prod.collapse)
qed

lemma flaky_create_error:
  "CreateVM alpha_client (createOptions alpha_pending) flaky_create =
     (Inl (WrapError ''failed to create PVC: '' unavailable),
      snd (CreateVM alpha_client (createOptions alpha_pending) flaky_create))"
proof -
  have "fst (CreateVM alpha_client (createOptions alpha_pending) flaky_create) =
          Inl (WrapError ''failed to create PVC: '' unavailable)"
    by code_simp
  then show ?thesis by (metis prod.collapse)
qed

theorem platform_error_handling_witness:
  "\<not> IsNotFound unavailable \<and>
   reconcileCreating (alpha MachinePhaseCreating [finalizerName]) alpha_client flaky_read =
     (Inr \<lparr>Requeue = False, RequeueAfter = requeueShort\<rparr>,
      snd (GetVMStatus alpha_client
             (MachineName (Spec (alpha MachinePhaseCreating [finalizerName]))) flaky_read)) \<and>
   stored (snd (GetVMStatus alpha_client
                  (MachineName (Spec (alpha MachinePhaseCreating [finalizerName]))) flaky_read))
     = Some (alpha MachinePhaseCreating [finalizerName]) \<and>
   \<not> IsAlreadyExists (WrapError ''failed to create PVC: '' unavailable) \<and>
   fst (reconcilePending alpha_pending alpha_client flaky_create) = Inr Result_zero \<and>
   Phase (Status (the (stored (snd (reconcilePending alpha_pending alpha_client flaky_create)))))
     = MachinePhaseFailed \<and>
   FailureReason (Status (the (stored (snd (reconcilePending alpha_pending alpha_client flaky_create)))))
     = ReasonProviderError \<and>
   IsStatusConditionFalse
     (Conditions (Status (the (stored (snd (reconcilePending alpha_pending alpha_client flaky_create))))))
     ConditionTypeReady"
proof -
  let ?c = "alpha MachinePhaseCreating [finalizerName]"
  let ?g = "GetVMStatus alpha_client (MachineName (Spec ?c)) flaky_read"
  let ?p = "reconcilePending alpha_pending alpha_client flaky_create"
  let ?e = "WrapError ''failed to create PVC: '' unavailable"
  have nf: "\<not> IsNotFound unavailable" by code_simp
  have ne: "\<not> IsAlreadyExists ?e" by code_simp
  have st0: "stored flaky_read = Some ?c" by (simp add: flaky_read_def world_of_def)
  have st: "stored flaky_create = Some alpha_pending" by (simp add: flaky_create_def world_of_def)
  have u: "?p = (fst ?p, snd ?p)" by simp
  have ok: "\<not> isl (fst ?p)" by code_simp
  note t = platform_error_handling
  from t flaky_read_status nf
  have a: "reconcileCreating ?c alpha_client flaky_read =
             (Inr \<lparr>Requeue = False, RequeueAfter = requeueShort\<rparr>, snd ?g)"
    and b: "stored (snd ?g) = stored flaky_read"
    by blast+
  from t flaky_create_error ne st u
  obtain mr' where m: "stored (snd ?p) = Some mr'"
    and c: "(mr' = alpha_pending \<and> (\<exists>e. fst ?p = Inl e)) \<or>
            (fst ?p = Inr Result_zero \<and> Phase (Status mr') = MachinePhaseFailed \<and>
             FailureReason (Status mr') = ReasonProviderError \<and>
             FailureMessage (Status mr') = Error ?e \<and>
             IsStatusConditionFalse (Conditions (Status mr')) ConditionTypeReady)"
    by blast
  from c ok have d: "fst ?p = Inr Result_zero" "Phase (Status mr') = MachinePhaseFailed"
    "FailureReason (Status mr') = ReasonProviderError"
    "IsStatusConditionFalse (Conditions (Status mr')) ConditionTypeReady"
    by auto
  from nf a b st0 ne m d show ?thesis by simp
qed

text \<open>
  The claim as stated fails: a transient error (the server is unavailable) of the disk
  creation in phase Pending moves the record to phase Failed with a recorded failure,
  and the pass asks for no retry.
\<close>

theorem unavailable_create_marks_failed_counterexample:
  "stored flaky = Some alpha_pending \<and>
   Phase (Status alpha_pending) = MachinePhasePending \<and>
   ReasonForError unavailable = StatusReasonServiceUnavailable \<and>
   trace (snd (Reconcile flaky)) =
     [MR_Get, PC_Get ''butler'' ''harvester'', Secret_Get ''butler'' ''harvester-kubeconfig'',
      PVC_Create ''alpha-cp-0-rootdisk'', MR_StatusUpdate] \<and>
   fst (Reconcile flaky) = Inr Result_zero \<and>
   Phase (Status (the (stored (snd (Reconcile flaky))))) = MachinePhaseFailed \<and>
   FailureReason (Status (the (stored (snd (Reconcile flaky))))) = ReasonProviderError \<and>
   IsStatusConditionFalse (Conditions (Status (the (stored (snd (Reconcile flaky))))))
     ConditionTypeReady"
proof -
  have a: "stored flaky = Some alpha_pending" by (simp add: flaky_def world_of_def)
  have b: "Phase (Status alpha_pending) = MachinePhasePending"
    by (simp add: alpha_pending_def alpha_def alpha_status_def)
  have c: "ReasonForError unavailable = StatusReasonServiceUnavailable"
    by (simp add: unavailable_def)
  have d: "trace (snd (Reconcile flaky)) =
     [MR_Get, PC_Get ''butler'' ''harvester'', Secret_Get ''butler'' ''harvester-kubeconfig'',
      PVC_Create ''alpha-cp-0-rootdisk'', MR_StatusUpdate]"
    by code_simp
  have e: "fst (Reconcile flaky) = Inr Result_zero" by code_simp
  have f: "Phase (Status (the (stored (snd (Reconcile flaky))))) = MachinePhaseFailed" by code_simp
  have g: "FailureReason (Status (the (stored (snd (Reconcile flaky))))) = ReasonProviderError"
    by code_simp
  have h: "IsStatusConditionFalse (Conditions (Status (the (stored (snd (Reconcile flaky))))))
     ConditionTypeReady"
    by code_simp
  from a b c d e f g h show ?thesis by simp
qed

section \<open>Redelivery of the create sequence\<close>

lemma issue_no_fault: "faults w = [] \<Longrightarrow> issue c w = (None, w\<lparr>trace := trace w @ [c]\<rparr>)"
  by (simp add: issue_def)

lemma createImagePVC_fresh:
  assumes "faults w = []" and "\<not> pvc_exists w name"
  shows "\<exists>pvc. pvc_Name pvc = name \<and>
           createImagePVC c name imageName sizeGB w =
             (None, w\<lparr>trace := trace w @ [PVC_Create name], pvcs := pvcs w @ [pvc]\<rparr>)"
  using assms
  by (simp add: createImagePVC_def PersistentVolumeClaims_Create_def issue_no_fault
        pvc_exists_def Let_def)
     (rule exI, rule conjI [rotated], rule refl, simp)

lemma createImagePVC_existing:
  assumes "faults w = []" and "pvc_exists w name"
  shows "createImagePVC c name imageName sizeGB w =
           (Some (StatusError StatusReasonAlreadyExists ''persistentvolumeclaims already exists''),
            w\<lparr>trace := trace w @ [PVC_Create name]\<rparr>)"
  using assms
  by (simp add: createImagePVC_def PersistentVolumeClaims_Create_def issue_no_fault
        pvc_exists_def Let_def)

lemma VirtualMachines_Create_fresh:
  assumes "faults w = []" and "find_vm w (vm_Name vm) = None"
  shows "VirtualMachines_Create vm w =
           (Inr \<lparr>vm_object = vm, vm_UID = fresh_uid w, vm_statusReady = None, vm_printableStatus = ''''\<rparr>,
            w\<lparr>trace := trace w @ [VM_Create (vm_Name vm)],
              vms := vms w @ [\<lparr>vm_object = vm, vm_UID = fresh_uid w, vm_statusReady = None,
                               vm_printableStatus = ''''\<rparr>]\<rparr>)"
  using assms
  by (simp add: VirtualMachines_Create_def issue_no_fault find_vm_def Let_def)

text \<open>
  The create sequence on a platform without faults: for an identity that is not there it
  adds one disk and one machine and returns the identifier of the machine; for an
  identity whose disk is there it stops at the disk with AlreadyExists and changes
  nothing.
\<close>

lemma CreateVM_fresh:
  assumes nf: "faults w = []"
      and img: "ImageName opts \<noteq> '''' \<or> cfg_ImageName (config c) \<noteq> ''''"
      and np: "\<not> pvc_exists w (Name opts @ ''-rootdisk'')"
      and nv: "find_vm w (Name opts) = None"
      and u: "CreateVM c opts w = (r, w1)"
  shows "r = Inr (fresh_uid w) \<and> faults w1 = [] \<and>
         (\<exists>pvc. pvc_Name pvc = Name opts @ ''-rootdisk'' \<and> pvcs w1 = pvcs w @ [pvc]) \<and>
         (\<exists>vm. vm_Name (vm_object vm) = Name opts \<and> vms w1 = vms w @ [vm]) \<and>
         trace w1 = trace w @ [PVC_Create (Name opts @ ''-rootdisk''), VM_Create (Name opts)]"
proof -
  let ?img = "if ImageName opts = '''' then cfg_ImageName (config c) else ImageName opts"
  let ?net = "if NetworkName opts = '''' then cfg_NetworkName (config c) else NetworkName opts"
  let ?pvc = "Name opts @ ''-rootdisk''"
  let ?vm = "buildVM c opts ?pvc ?net"
  from img have i: "?img \<noteq> ''''" by auto
  from createImagePVC_fresh [OF nf np, of c ?img "DiskGB opts"]
  obtain pvc where pn: "pvc_Name pvc = ?pvc"
    and d: "createImagePVC c ?pvc ?img (DiskGB opts) w =
              (None, w\<lparr>trace := trace w @ [PVC_Create ?pvc], pvcs := pvcs w @ [pvc]\<rparr>)"
    by blast
  let ?w1 = "w\<lparr>trace := trace w @ [PVC_Create ?pvc], pvcs := pvcs w @ [pvc]\<rparr>"
  have f1: "faults ?w1 = []" using nf by simp
  have v1: "find_vm ?w1 (vm_Name ?vm) = None" using nv by (simp add: find_vm_def buildVM_Name)
  note v = VirtualMachines_Create_fresh [OF f1 v1]
  let ?created = "\<lparr>vm_object = ?vm, vm_UID = fresh_uid ?w1, vm_statusReady = None,
                    vm_printableStatus = ''''\<rparr>"
  have "CreateVM c opts w =
          (Inr (fresh_uid ?w1),
           ?w1\<lparr>trace := trace ?w1 @ [VM_Create (vm_Name ?vm)], vms := vms ?w1 @ [?created]\<rparr>)"
    using i d v by (simp add: CreateVM_def Let_def)
  with u have r: "r = Inr (fresh_uid ?w1)"
    and w1: "w1 = ?w1\<lparr>trace := trace ?w1 @ [VM_Create (vm_Name ?vm)], vms := vms ?w1 @ [?created]\<rparr>"
    by simp_all
  have "vm_Name (vm_object ?created) = Name opts" by (simp add: buildVM_Name)
  then have "\<exists>vm. vm_Name (vm_object vm) = Name opts \<and> vms w1 = vms w @ [vm]"
    using w1 by (intro exI [of _ ?created]) simp
  moreover have "\<exists>pvc. pvc_Name pvc = ?pvc \<and> pvcs w1 = pvcs w @ [pvc]"
    using w1 pn by (intro exI [of _ pvc]) simp
  moreover have "trace w1 = trace w @ [PVC_Create ?pvc, VM_Create (Name opts)]"
    using w1 by (simp add: buildVM_Name)
  moreover have "faults w1 = []" using w1 nf by simp
  moreover have "r = Inr (fresh_uid w)" using r by simp
  ultimately show ?thesis by blast
qed

lemma CreateVM_existing:
  assumes nf: "faults w = []"
      and img: "ImageName opts \<noteq> '''' \<or> cfg_ImageName (config c) \<noteq> ''''"
      and ex: "pvc_exists w (Name opts @ ''-rootdisk'')"
      and u: "CreateVM c opts w = (r, w1)"
  shows "(\<exists>err. r = Inl err \<and> IsAlreadyExists err) \<and> pvcs w1 = pvcs w \<and> vms w1 = vms w \<and>
         trace w1 = trace w @ [PVC_Create (Name opts @ ''-rootdisk'')]"
proof -
  let ?img = "if ImageName opts = '''' then cfg_ImageName (config c) else ImageName opts"
  let ?pvc = "Name opts @ ''-rootdisk''"
  let ?err = "StatusError StatusReasonAlreadyExists ''persistentvolumeclaims already exists''"
  from img have i: "?img \<noteq> ''''" by auto
  note d = createImagePVC_existing [OF nf ex, of c ?img "DiskGB opts"]
  have "CreateVM c opts w =
          (Inl (WrapError ''failed to create PVC: '' ?err), w\<lparr>trace := trace w @ [PVC_Create ?pvc]\<rparr>)"
    using i d by (simp add: CreateVM_def Let_def)
  with u have r: "r = Inl (WrapError ''failed to create PVC: '' ?err)"
    and w1: "w1 = w\<lparr>trace := trace w @ [PVC_Create ?pvc]\<rparr>"
    by simp_all
  have "IsAlreadyExists (WrapError ''failed to create PVC: '' ?err)"
    by (simp add: IsAlreadyExists_def)
  with r w1 show ?thesis by simp
qed

lemma updatePhase_stored:
  assumes u: "updatePhase mr p w = (r, w')" and st: "stored w = Some mr"
  shows "((stored w' = Some mr \<and> (\<exists>e. r = Inl e)) \<or>
          (stored w' = Some (mr\<lparr>Status := (Status mr)\<lparr>Phase := p, LastUpdated := Some (now w)\<rparr>\<rparr>) \<and>
           r = Inr \<lparr>Requeue = True, RequeueAfter = 0\<rparr>)) \<and>
         events w' = events w \<and> trace w' = trace w @ [MR_StatusUpdate]"
proof -
  let ?m = "mr\<lparr>Status := (Status mr)\<lparr>Phase := p, LastUpdated := Some (now w)\<rparr>\<rparr>"
  obtain s w1 where s: "Status_Update ?m w = (s, w1)" by (cases "Status_Update ?m w")
  have w': "w' = w1" using u s by (cases s) (simp_all add: updatePhase_def Let_def)
  have r: "r = (case s of Inl e \<Rightarrow> Inl e | Inr m \<Rightarrow> Inr \<lparr>Requeue = True, RequeueAfter = 0\<rparr>)"
    using u s by (cases s) (simp_all add: updatePhase_def Let_def)
  note e = Status_Update_effect [OF s]
  from e st
  have "(\<exists>e. s = Inl e \<and> stored w1 = Some mr) \<or> ((\<exists>x. s = Inr x) \<and> stored w1 = Some ?m)"
    by auto
  with w' r have "(stored w' = Some mr \<and> (\<exists>e. r = Inl e)) \<or>
                  (stored w' = Some ?m \<and> r = Inr \<lparr>Requeue = True, RequeueAfter = 0\<rparr>)"
    by auto
  moreover from e w' have "events w' = events w" "trace w' = trace w @ [MR_StatusUpdate]"
    by simp_all
  ultimately show ?thesis by blast
qed

text \<open>
  C5, as the code has it. On a platform without faults that holds neither the disk nor
  the machine of an identity, running the create sequence twice returns the identifier
  of the machine the first time and an error that is AlreadyExists the second time; the
  second run changes neither the disks nor the machines, so exactly one disk and one
  machine of that identity exist. In phase Pending, a create sequence that ends with
  AlreadyExists is not handled as a success: the pass issues one status write that
  replaces only the phase, by Creating, and the last-updated time; the provider
  identifier, the failure reason and message, the observed generation and the
  conditions stay as they were, no event is emitted, and the pass asks for an immediate
  re-run. No failure is recorded by it.
\<close>

theorem CreateVM_redelivery:
  "(\<forall>c opts w r1 w1 r2 w2.
      faults w = [] \<and> (ImageName opts \<noteq> '''' \<or> cfg_ImageName (config c) \<noteq> '''') \<and>
      \<not> pvc_exists w (Name opts @ ''-rootdisk'') \<and> find_vm w (Name opts) = None \<and>
      CreateVM c opts w = (r1, w1) \<and> CreateVM c opts w1 = (r2, w2) \<longrightarrow>
      r1 = Inr (fresh_uid w) \<and> (\<exists>err. r2 = Inl err \<and> IsAlreadyExists err) \<and>
      pvcs w2 = pvcs w1 \<and> vms w2 = vms w1 \<and>
      length (filter (\<lambda>p. pvc_Name p = Name opts @ ''-rootdisk'') (pvcs w2)) = 1 \<and>
      length (filter (\<lambda>v. vm_Name (vm_object v) = Name opts) (vms w2)) = 1) \<and>
   (\<forall>mr hc w err w1 r w'.
      CreateVM hc (createOptions mr) w = (Inl err, w1) \<and> IsAlreadyExists err \<and>
      stored w = Some mr \<and> reconcilePending mr hc w = (r, w') \<longrightarrow>
      issued w1 w' = [MR_StatusUpdate] \<and> events w' = events w \<and>
      (\<exists>mr'. stored w' = Some mr' \<and>
         ((mr' = mr \<and> (\<exists>e. r = Inl e)) \<or>
          (mr' = mr\<lparr>Status := (Status mr)\<lparr>Phase := MachinePhaseCreating,
                                            LastUpdated := Some (now w1)\<rparr>\<rparr> \<and>
           r = Inr \<lparr>Requeue = True, RequeueAfter = 0\<rparr>)) \<and>
         ProviderID (Status mr') = ProviderID (Status mr) \<and>
         FailureReason (Status mr') = FailureReason (Status mr) \<and>
         FailureMessage (Status mr') = FailureMessage (Status mr) \<and>
         ObservedGeneration (Status mr') = ObservedGeneration (Status mr) \<and>
         Conditions (Status mr') = Conditions (Status mr)))"
proof (intro conjI allI impI)
  fix c opts w r1 w1 r2 w2
  assume a: "faults w = [] \<and> (ImageName opts \<noteq> '''' \<or> cfg_ImageName (config c) \<noteq> '''') \<and>
      \<not> pvc_exists w (Name opts @ ''-rootdisk'') \<and> find_vm w (Name opts) = None \<and>
      CreateVM c opts w = (r1, w1) \<and> CreateVM c opts w1 = (r2, w2)"
  then have nf: "faults w = []"
    and img: "ImageName opts \<noteq> '''' \<or> cfg_ImageName (config c) \<noteq> ''''"
    and np: "\<not> pvc_exists w (Name opts @ ''-rootdisk'')"
    and nv: "find_vm w (Name opts) = None"
    and u1: "CreateVM c opts w = (r1, w1)" and u2: "CreateVM c opts w1 = (r2, w2)"
    by simp_all
  from CreateVM_fresh [OF nf img np nv u1]
  obtain pvc vm where r1: "r1 = Inr (fresh_uid w)" and nf1: "faults w1 = []"
    and pn: "pvc_Name pvc = Name opts @ ''-rootdisk''" and ps: "pvcs w1 = pvcs w @ [pvc]"
    and vn: "vm_Name (vm_object vm) = Name opts" and vs: "vms w1 = vms w @ [vm]"
    by blast
  from ps pn have ex: "pvc_exists w1 (Name opts @ ''-rootdisk'')" by (simp add: pvc_exists_def)
  from CreateVM_existing [OF nf1 img ex u2]
  have r2: "\<exists>err. r2 = Inl err \<and> IsAlreadyExists err"
    and p2: "pvcs w2 = pvcs w1" and v2: "vms w2 = vms w1"
    by simp_all
  from np have "filter (\<lambda>p. pvc_Name p = Name opts @ ''-rootdisk'') (pvcs w) = []"
    by (force simp: pvc_exists_def filter_empty_conv image_iff)
  with ps pn p2
  have one_pvc: "length (filter (\<lambda>p. pvc_Name p = Name opts @ ''-rootdisk'') (pvcs w2)) = 1"
    by simp
  from nv have "filter (\<lambda>v. vm_Name (vm_object v) = Name opts) (vms w) = []"
    by (auto simp: find_vm_def find_None_iff filter_empty_conv)
  with vs vn v2
  have one_vm: "length (filter (\<lambda>v. vm_Name (vm_object v) = Name opts) (vms w2)) = 1"
    by simp
  show "r1 = Inr (fresh_uid w)" by (rule r1)
  show "\<exists>err. r2 = Inl err \<and> IsAlreadyExists err" by (rule r2)
  show "pvcs w2 = pvcs w1" by (rule p2)
  show "vms w2 = vms w1" by (rule v2)
  show "length (filter (\<lambda>p. pvc_Name p = Name opts @ ''-rootdisk'') (pvcs w2)) = 1" by (rule one_pvc)
  show "length (filter (\<lambda>v. vm_Name (vm_object v) = Name opts) (vms w2)) = 1" by (rule one_vm)
next
  fix mr hc w err w1 r w'
  assume a: "CreateVM hc (createOptions mr) w = (Inl err, w1) \<and> IsAlreadyExists err \<and>
      stored w = Some mr \<and> reconcilePending mr hc w = (r, w')"
  then have c: "CreateVM hc (createOptions mr) w = (Inl err, w1)" and ae: "IsAlreadyExists err"
    and st: "stored w = Some mr" and u: "reconcilePending mr hc w = (r, w')"
    by simp_all
  from CreateVM_effect [OF c] st have st1: "stored w1 = Some mr" and ev1: "events w1 = events w"
    by simp_all
  from u c ae have "updatePhase mr MachinePhaseCreating w1 = (r, w')"
    by (simp add: reconcilePending_def Let_def)
  note p = updatePhase_stored [OF this st1]
  from p show "issued w1 w' = [MR_StatusUpdate]" by (simp add: issued_append)
  from p ev1 show "events w' = events w" by simp
  from p show "\<exists>mr'. stored w' = Some mr' \<and>
         ((mr' = mr \<and> (\<exists>e. r = Inl e)) \<or>
          (mr' = mr\<lparr>Status := (Status mr)\<lparr>Phase := MachinePhaseCreating,
                                            LastUpdated := Some (now w1)\<rparr>\<rparr> \<and>
           r = Inr \<lparr>Requeue = True, RequeueAfter = 0\<rparr>)) \<and>
         ProviderID (Status mr') = ProviderID (Status mr) \<and>
         FailureReason (Status mr') = FailureReason (Status mr) \<and>
         FailureMessage (Status mr') = FailureMessage (Status mr) \<and>
         ObservedGeneration (Status mr') = ObservedGeneration (Status mr) \<and>
         Conditions (Status mr') = Conditions (Status mr)"
    by auto
qed

lemma redelivered_error:
  "CreateVM alpha_client (createOptions alpha_pending) redelivered =
     (Inl (projl (fst (CreateVM alpha_client (createOptions alpha_pending) redelivered))),
      snd (CreateVM alpha_client (createOptions alpha_pending) redelivered))"
proof -
  have "isl (fst (CreateVM alpha_client (createOptions alpha_pending) redelivered))"
    by code_simp
  then show ?thesis by (metis prod.collapse sum.collapse(1))
qed

theorem CreateVM_redelivery_witness:
  "faults (world_of alpha_pending []) = [] \<and>
   ImageName (createOptions alpha_pending) = ''default/img1'' \<and>
   pvcs (world_of alpha_pending []) = [] \<and> vms (world_of alpha_pending []) = [] \<and>
   fst (CreateVM alpha_client (createOptions alpha_pending) (world_of alpha_pending [])) = Inr ''uid-1'' \<and>
   IsAlreadyExists (projl (fst (CreateVM alpha_client (createOptions alpha_pending) redelivered))) \<and>
   length (filter (\<lambda>p. pvc_Name p = Name (createOptions alpha_pending) @ ''-rootdisk'')
             (pvcs (snd (CreateVM alpha_client (createOptions alpha_pending) redelivered)))) = 1 \<and>
   length (filter (\<lambda>v. vm_Name (vm_object v) = Name (createOptions alpha_pending))
             (vms (snd (CreateVM alpha_client (createOptions alpha_pending) redelivered)))) = 1 \<and>
   stored redelivered = Some alpha_pending \<and>
   fst (reconcilePending alpha_pending alpha_client redelivered) = Inr \<lparr>Requeue = True, RequeueAfter = 0\<rparr> \<and>
   Phase (Status (the (stored (snd (reconcilePending alpha_pending alpha_client redelivered)))))
     = MachinePhaseCreating \<and>
   ProviderID (Status (the (stored (snd (reconcilePending alpha_pending alpha_client redelivered)))))
     = '''' \<and>
   FailureReason (Status (the (stored (snd (reconcilePending alpha_pending alpha_client redelivered)))))
     = '''' \<and>
   Conditions (Status (the (stored (snd (reconcilePending alpha_pending alpha_client redelivered)))))
     = [] \<and>
   events (snd (reconcilePending alpha_pending alpha_client redelivered)) = []"
proof -
  let ?o = "createOptions alpha_pending"
  let ?w = "world_of alpha_pending []"
  let ?c1 = "CreateVM alpha_client ?o ?w"
  let ?c2 = "CreateVM alpha_client ?o redelivered"
  let ?p = "reconcilePending alpha_pending alpha_client redelivered"
  have nf: "faults ?w = []" and ps: "pvcs ?w = []" and vs: "vms ?w = []"
    and uid: "fresh_uid ?w = ''uid-1''" and ev: "events ?w = []"
    by (simp_all add: world_of_def)
  have img: "ImageName ?o = ''default/img1''"
    by (simp add: createOptions_def alpha_pending_def alpha_def alpha_spec_def)
  then have img': "ImageName ?o \<noteq> '''' \<or> cfg_ImageName (config alpha_client) \<noteq> ''''" by simp
  have np: "\<not> pvc_exists ?w (Name ?o @ ''-rootdisk'')" using ps by (simp add: pvc_exists_def)
  have nv: "find_vm ?w (Name ?o) = None" using vs by (simp add: find_vm_def)
  have u1: "?c1 = (fst ?c1, redelivered)" by (simp add: redelivered_def)
  have u2: "?c2 = (fst ?c2, snd ?c2)" by simp
  note t = CreateVM_redelivery
  from t nf img' np nv u1 u2
  have a: "fst ?c1 = Inr (fresh_uid ?w)"
    and b: "\<exists>err. fst ?c2 = Inl err \<and> IsAlreadyExists err"
    and l1: "length (filter (\<lambda>p. pvc_Name p = Name ?o @ ''-rootdisk'') (pvcs (snd ?c2))) = 1"
    and l2: "length (filter (\<lambda>v. vm_Name (vm_object v) = Name ?o) (vms (snd ?c2))) = 1"
    by blast+
  from b have ae: "IsAlreadyExists (projl (fst ?c2))" by auto
  have st: "stored redelivered = Some alpha_pending" and evr: "events redelivered = []"
    using CreateVM_effect [OF u1] by (simp_all add: world_of_def)
  have up: "?p = (fst ?p, snd ?p)" by simp
  have ok: "\<not> isl (fst ?p)" by code_simp
  from t redelivered_error ae st up
  have e: "events (snd ?p) = events redelivered" by blast
  from t redelivered_error ae st up
  obtain mr' where m: "stored (snd ?p) = Some mr'"
    and c: "(mr' = alpha_pending \<and> (\<exists>e. fst ?p = Inl e)) \<or>
            (mr' = alpha_pending\<lparr>Status := (Status alpha_pending)
                     \<lparr>Phase := MachinePhaseCreating,
                      LastUpdated := Some (now (snd ?c2))\<rparr>\<rparr> \<and>
             fst ?p = Inr \<lparr>Requeue = True, RequeueAfter = 0\<rparr>)"
    and f: "ProviderID (Status mr') = ProviderID (Status alpha_pending)"
           "FailureReason (Status mr') = FailureReason (Status alpha_pending)"
           "Conditions (Status mr') = Conditions (Status alpha_pending)"
    by blast
  from c ok have d: "Phase (Status mr') = MachinePhaseCreating"
    "fst ?p = Inr \<lparr>Requeue = True, RequeueAfter = 0\<rparr>"
    by auto
  have fr: "ProviderID (Status alpha_pending) = ''''" "FailureReason (Status alpha_pending) = ''''"
    "Conditions (Status alpha_pending) = []"
    by (simp_all add: alpha_pending_def alpha_def alpha_status_def)
  from nf img ps vs a uid ae l1 l2 st m d f fr e evr show ?thesis by simp
qed

text \<open>
  The claim as stated fails: the pass whose create sequence succeeds and the pass whose
  create sequence reports AlreadyExists, over the same pending record, do not leave the
  same. After the success the record has the provider identifier and the condition
  Progressing, the event \<^verbatim>\<open>Created\<close> is emitted and the re-run is asked for after
  the short delay; after AlreadyExists the record has neither, no event is emitted and
  the re-run is immediate.
\<close>

theorem already_exists_not_as_success_counterexample:
  "stored (world_of alpha_pending []) = Some alpha_pending \<and>
   stored redelivered = Some alpha_pending \<and>
   fst (CreateVM alpha_client (createOptions alpha_pending) (world_of alpha_pending [])) = Inr ''uid-1'' \<and>
   IsAlreadyExists (projl (fst (CreateVM alpha_client (createOptions alpha_pending) redelivered))) \<and>
   fst (reconcilePending alpha_pending alpha_client (world_of alpha_pending []))
     = Inr \<lparr>Requeue = False, RequeueAfter = requeueShort\<rparr> \<and>
   fst (reconcilePending alpha_pending alpha_client redelivered)
     = Inr \<lparr>Requeue = True, RequeueAfter = 0\<rparr> \<and>
   ProviderID (Status (the (stored (snd (reconcilePending alpha_pending alpha_client
                                            (world_of alpha_pending []))))))
     = ''uid-1'' \<and>
   ProviderID (Status (the (stored (snd (reconcilePending alpha_pending alpha_client redelivered)))))
     = '''' \<and>
   IsStatusConditionTrue
     (Conditions (Status (the (stored (snd (reconcilePending alpha_pending alpha_client
                                              (world_of alpha_pending [])))))))
     ConditionTypeProgressing \<and>
   Conditions (Status (the (stored (snd (reconcilePending alpha_pending alpha_client redelivered)))))
     = [] \<and>
   events (snd (reconcilePending alpha_pending alpha_client (world_of alpha_pending [])))
     = [(''Normal'', ''Created'', ''VM creation initiated'')] \<and>
   events (snd (reconcilePending alpha_pending alpha_client redelivered)) = []"
proof -
  let ?w = "world_of alpha_pending []"
  let ?s = "reconcilePending alpha_pending alpha_client ?w"
  let ?p = "reconcilePending alpha_pending alpha_client redelivered"
  have a: "stored ?w = Some alpha_pending" by (simp add: world_of_def)
  have b: "stored redelivered = Some alpha_pending" by code_simp
  have c: "fst (CreateVM alpha_client (createOptions alpha_pending) ?w) = Inr ''uid-1''"
    by code_simp
  have d: "IsAlreadyExists (projl (fst (CreateVM alpha_client (createOptions alpha_pending) redelivered)))"
    by code_simp
  have e: "fst ?s = Inr \<lparr>Requeue = False, RequeueAfter = requeueShort\<rparr>" by code_simp
  have f: "fst ?p = Inr \<lparr>Requeue = True, RequeueAfter = 0\<rparr>" by code_simp
  have g: "ProviderID (Status (the (stored (snd ?s)))) = ''uid-1''" by code_simp
  have h: "ProviderID (Status (the (stored (snd ?p)))) = ''''" by code_simp
  have i: "IsStatusConditionTrue (Conditions (Status (the (stored (snd ?s))))) ConditionTypeProgressing"
    by code_simp
  have j: "Conditions (Status (the (stored (snd ?p)))) = []" by code_simp
  have k: "events (snd ?s) = [(''Normal'', ''Created'', ''VM creation initiated'')]" by code_simp
  have l: "events (snd ?p) = []" by code_simp
  from a b c d e f g h i j k l show ?thesis by simp
qed

end

